theory Spec2Isabelle
  imports Complex_Main
begin

section \<open>Speculative decoding worker: data model\<close>

text \<open>
  A shallow embedding of \<^verbatim>\<open>vllm/spec_decode/spec_decode_worker.py\<close>. Python exceptions
  are values of type \<open>error\<close>; a function that may raise returns \<open>error + 'a\<close>, with
  \<open>Inl\<close> the exception. Mutation of \<^verbatim>\<open>self\<close> is explicit state passing over the record
  \<open>spec_decode_worker\<close>. Calls of the proposer and scorer workers and broadcasts are
  recorded, in order, as a list of \<open>event\<close>s.
\<close>

datatype error =
  AssertionError | KeyError | IndexError | RuntimeError | TypeError | AttributeError
  | StopIteration | ZeroDivisionError | OverflowError

text \<open>
  \<^verbatim>\<open>self.disable_by_batch_size\<close> holds either a Python int or \<^verbatim>\<open>float("inf")\<close>.
\<close>

datatype py_number = PyInt int | PyInf

record sampling_params_t =
  seed :: "int option"
  prompt_logprobs :: "int option"

record sequence_data =
  prompt_token_ids :: "int list"
  num_computed_tokens :: int

text \<open>
  \<^verbatim>\<open>seq_data\<close> is a dict from sequence id to sequence data; it is kept as the list of its
  items in insertion order, which is the order \<^verbatim>\<open>.items()\<close> and \<^verbatim>\<open>.values()\<close> iterate in.
  \<^verbatim>\<open>num_speculative_tokens\<close> is \<^verbatim>\<open>None\<close> for prefills.
\<close>

record sequence_group_metadata =
  request_id :: string
  is_prompt :: bool
  do_sample :: bool
  num_speculative_tokens :: "int option"
  token_chunk_size :: int
  seq_data :: "(int \<times> sequence_data) list"
  sampling_params :: sampling_params_t

record execute_model_request =
  seq_group_metadata_list :: "sequence_group_metadata list"
  num_lookahead_slots :: int
  running_queue_size :: int
  finished_requests_ids :: "string list"

text \<open>The control dict the driver broadcasts; the empty dict is \<open>None\<close>.\<close>

record control_dict =
  bc_num_lookahead_slots :: int
  bc_no_spec :: bool
  bc_disable_all_speculation :: bool
  bc_run_spec_proposer_for_prefill :: bool

type_synonym broadcast_data = "control_dict option"

datatype event =
  Broadcast broadcast_data
  | ScorerExecuteModel
  | ProposerExecuteModel
  | ProposerGetSpecProposals
  | ScorerScoreProposals

text \<open>The attributes of \<^verbatim>\<open>SpecDecodeWorker\<close> that the modelled methods read or write.\<close>

record spec_decode_worker =
  rank :: int
  disable_by_batch_size :: py_number
  allow_zero_draft_token_step :: bool
  disable_logprobs :: bool
  num_spec_prefill_steps :: int
  max_logprobs :: nat
  seq_with_bonus_token_in_last_step :: "int set"
  request_id_seq_id_mapping :: "string \<rightharpoonup> int set"

definition driver_rank :: int where
  "driver_rank = 0"

section \<open>Construction and the batch-size threshold\<close>

text \<open>
  \<^verbatim>\<open>self.disable_by_batch_size = disable_by_batch_size or float("inf")\<close>: \<^verbatim>\<open>None\<close> and \<^verbatim>\<open>0\<close>
  are falsy, every other int is kept.
\<close>

definition init_disable_by_batch_size :: "int option \<Rightarrow> py_number" where
  "init_disable_by_batch_size cfg =
     (case cfg of None \<Rightarrow> PyInf | Some n \<Rightarrow> (if n = 0 then PyInf else PyInt n))"

text \<open>\<^verbatim>\<open>a >= b\<close> for an int \<open>a\<close> and a number \<open>b\<close>.\<close>

fun py_ge :: "int \<Rightarrow> py_number \<Rightarrow> bool" where
  "py_ge a (PyInt b) = (b \<le> a)"
| "py_ge a PyInf = False"

definition should_disable_all_speculation ::
  "spec_decode_worker \<Rightarrow> execute_model_request \<Rightarrow> bool" where
  "should_disable_all_speculation w req =
     py_ge (running_queue_size req) (disable_by_batch_size w)"

section \<open>Bookkeeping of bonus tokens\<close>

text \<open>
  \<^verbatim>\<open>_request_id_seq_id_mapping\<close> is a \<^verbatim>\<open>defaultdict(set)\<close>: reading a missing key inserts
  the empty set under it and returns it.
\<close>

definition defaultdict_get ::
  "(string \<rightharpoonup> int set) \<Rightarrow> string \<Rightarrow> (string \<rightharpoonup> int set) \<times> int set" where
  "defaultdict_get m r = (case m r of None \<Rightarrow> (m(r \<mapsto> {}), {}) | Some s \<Rightarrow> (m, s))"

text \<open>\<^verbatim>\<open>del m[r]\<close> raises \<^verbatim>\<open>KeyError\<close> on a missing key.\<close>

definition dict_del :: "(string \<rightharpoonup> int set) \<Rightarrow> string \<Rightarrow> error + (string \<rightharpoonup> int set)" where
  "dict_del m r = (case m r of None \<Rightarrow> Inl KeyError | Some _ \<Rightarrow> Inr (m(r := None)))"

text \<open>
  One iteration of the loop of \<^verbatim>\<open>_track_finished_requests\<close>: discard every sequence id of
  the finished request from the bonus set, then delete the request's entry.
\<close>

definition track_finished_request ::
  "spec_decode_worker \<Rightarrow> string \<Rightarrow> error + spec_decode_worker" where
  "track_finished_request w r =
     (case defaultdict_get (request_id_seq_id_mapping w) r of
        (m1, seqs) \<Rightarrow>
          (case dict_del m1 r of
             Inl e \<Rightarrow> Inl e
           | Inr m2 \<Rightarrow>
               Inr (w\<lparr>seq_with_bonus_token_in_last_step :=
                        seq_with_bonus_token_in_last_step w - seqs,
                      request_id_seq_id_mapping := m2\<rparr>)))"

fun track_finished_requests_ids ::
  "spec_decode_worker \<Rightarrow> string list \<Rightarrow> error + spec_decode_worker" where
  "track_finished_requests_ids w [] = Inr w"
| "track_finished_requests_ids w (r # rs) =
     (case track_finished_request w r of
        Inl e \<Rightarrow> Inl e
      | Inr w' \<Rightarrow> track_finished_requests_ids w' rs)"

definition track_finished_requests ::
  "spec_decode_worker \<Rightarrow> execute_model_request \<Rightarrow> error + spec_decode_worker" where
  "track_finished_requests w req = track_finished_requests_ids w (finished_requests_ids req)"

text \<open>
  A two-dimensional integer tensor with its shape, so that a tensor without rows still
  has a width. \<open>trows\<close> are the rows, as \<^verbatim>\<open>.tolist()\<close> returns them.
\<close>

record tensor2 =
  dim0 :: nat
  dim1 :: nat
  trows :: "int list list"

definition wf_tensor2 :: "tensor2 \<Rightarrow> bool" where
  "wf_tensor2 t = (length (trows t) = dim0 t \<and> list_all (\<lambda>r. length r = dim1 t) (trows t))"

text \<open>\<^verbatim>\<open>t.transpose(0, 1)\<close>.\<close>

definition transpose01 :: "tensor2 \<Rightarrow> tensor2" where
  "transpose01 t =
     \<lparr>dim0 = dim1 t, dim1 = dim0 t,
      trows = map (\<lambda>j. map (\<lambda>r. r ! j) (trows t)) [0..<dim1 t]\<rparr>"

text \<open>
  The first loop of \<^verbatim>\<open>_track_sequences_with_bonus_tokens\<close>, over
  \<^verbatim>\<open>enumerate(seq_ids)\<close>; \<^verbatim>\<open>accepted_token_ids_by_step[-1][seq_index]\<close> raises
  \<^verbatim>\<open>IndexError\<close> on an empty list of steps and on a short last step.
\<close>

fun track_bonus_loop ::
  "int set \<Rightarrow> (nat \<times> int) list \<Rightarrow> int list list \<Rightarrow> error + int set" where
  "track_bonus_loop b [] by_step = Inr b"
| "track_bonus_loop b ((seq_index, seq_id) # rest) by_step =
     (if by_step = [] then Inl IndexError
      else if length (last by_step) \<le> seq_index then Inl IndexError
      else if last by_step ! seq_index = - 1
        then track_bonus_loop (b - {seq_id}) rest by_step
        else track_bonus_loop (insert seq_id b) rest by_step)"

text \<open>
  The second loop: \<^verbatim>\<open>self._request_id_seq_id_mapping[request_id].update(sequences)\<close> for
  every item of the step's request-to-sequence-ids dict.
\<close>

fun update_request_mapping ::
  "(string \<rightharpoonup> int set) \<Rightarrow> (string \<times> int set) list \<Rightarrow> (string \<rightharpoonup> int set)" where
  "update_request_mapping m [] = m"
| "update_request_mapping m ((rid, sequences) # rest) =
     (case defaultdict_get m rid of
        (m1, s) \<Rightarrow> update_request_mapping (m1(rid \<mapsto> s \<union> sequences)) rest)"

definition track_sequences_with_bonus_tokens ::
  "spec_decode_worker \<Rightarrow> int list \<Rightarrow> (string \<times> int set) list \<Rightarrow> int list list
     \<Rightarrow> error + spec_decode_worker" where
  "track_sequences_with_bonus_tokens w seq_ids request_ids_seq_ids_mapping by_step =
     (case track_bonus_loop (seq_with_bonus_token_in_last_step w)
             (enumerate 0 seq_ids) by_step of
        Inl e \<Rightarrow> Inl e
      | Inr b \<Rightarrow>
          Inr (w\<lparr>seq_with_bonus_token_in_last_step := b,
                 request_id_seq_id_mapping :=
                   update_request_mapping (request_id_seq_id_mapping w)
                     request_ids_seq_ids_mapping\<rparr>))"

section \<open>The non-driver rank\<close>

text \<open>
  \<^verbatim>\<open>_run_non_driver_rank\<close>, given the dict it receives from \<^verbatim>\<open>broadcast_tensor_dict\<close>:
  the returned flag and the worker calls it makes, in order.
\<close>

definition run_non_driver_rank ::
  "spec_decode_worker \<Rightarrow> broadcast_data \<Rightarrow> error + (bool \<times> event list)" where
  "run_non_driver_rank w data =
     (if rank w = driver_rank then Inl AssertionError
      else case data of
        None \<Rightarrow> Inr (False, [])
      | Some d \<Rightarrow>
          Inr (True,
            (if bc_no_spec d then [ScorerExecuteModel] else [])
            @ (if \<not> bc_disable_all_speculation d
               then replicate (nat (max (bc_num_lookahead_slots d) 1)) ProposerExecuteModel
               else [])
            @ (if \<not> bc_no_spec d
               then ScorerExecuteModel #
                      (if bc_run_spec_proposer_for_prefill d then [ProposerExecuteModel] else [])
               else [])))"

text \<open>
  \<^verbatim>\<open>start_worker_execution_loop\<close>: \<^verbatim>\<open>while self._run_non_driver_rank(): pass\<close>, over the
  sequence of dicts the rank receives. It returns the calls made and the dicts not yet
  read. When the dicts run out before an empty one, the rank waits in the broadcast for
  ever: the result is \<open>None\<close>.
\<close>

fun start_worker_execution_loop ::
  "spec_decode_worker \<Rightarrow> broadcast_data list
     \<Rightarrow> (error + (event list \<times> broadcast_data list)) option" where
  "start_worker_execution_loop w [] = None"
| "start_worker_execution_loop w (d # ds) =
     (case run_non_driver_rank w d of
        Inl e \<Rightarrow> Some (Inl e)
      | Inr (continue, evs) \<Rightarrow>
          (if continue
           then (case start_worker_execution_loop w ds of
                   None \<Rightarrow> None
                 | Some (Inl e) \<Rightarrow> Some (Inl e)
                 | Some (Inr (evs', rest)) \<Rightarrow> Some (Inr (evs @ evs', rest)))
           else Some (Inr (evs, ds))))"

section \<open>Python and tensor primitives\<close>

definition err_bind :: "error + 'a \<Rightarrow> ('a \<Rightarrow> error + 'b) \<Rightarrow> error + 'b" where
  "err_bind r f = (case r of Inl e \<Rightarrow> Inl e | Inr x \<Rightarrow> f x)"

text \<open>\<^verbatim>\<open>xs[i]\<close> for an index \<open>i \<ge> 0\<close>.\<close>

definition py_index :: "'a list \<Rightarrow> nat \<Rightarrow> error + 'a" where
  "py_index xs i = (if i < length xs then Inr (xs ! i) else Inl IndexError)"

text \<open>\<^verbatim>\<open>xs[s:e]\<close>: a negative bound counts from the end, and both are clamped.\<close>

definition py_slice_bound :: "nat \<Rightarrow> int \<Rightarrow> nat" where
  "py_slice_bound n i = (if i < 0 then nat (max 0 (int n + i)) else min n (nat i))"

definition py_slice :: "'a list \<Rightarrow> int \<Rightarrow> int \<Rightarrow> 'a list" where
  "py_slice xs s e =
     (let a = py_slice_bound (length xs) s; b = py_slice_bound (length xs) e
      in take (b - a) (drop a xs))"

text \<open>\<^verbatim>\<open>xs[indices]\<close> on the first axis of a tensor, for a list of indices.\<close>

definition gather_rows :: "'a list \<Rightarrow> nat list \<Rightarrow> error + 'a list" where
  "gather_rows xs idxs =
     (if list_all (\<lambda>i. i < length xs) idxs then Inr (map (\<lambda>i. xs ! i) idxs) else Inl IndexError)"

definition tensor_rows :: "tensor2 \<Rightarrow> nat list \<Rightarrow> error + tensor2" where
  "tensor_rows t idxs =
     (if list_all (\<lambda>i. i < dim0 t) idxs
      then Inr \<lparr>dim0 = length idxs, dim1 = dim1 t, trows = map (\<lambda>i. trows t ! i) idxs\<rparr>
      else Inl IndexError)"

text \<open>\<^verbatim>\<open>t[:, -1:]\<close>.\<close>

definition last_column :: "tensor2 \<Rightarrow> tensor2" where
  "last_column t =
     \<lparr>dim0 = dim0 t, dim1 = min 1 (dim1 t), trows = map (\<lambda>r. drop (length r - 1) r) (trows t)\<rparr>"

text \<open>
  \<^verbatim>\<open>t.expand(-1, n).clone()\<close>: the second axis is kept when it already has size \<open>n\<close>,
  repeated when it has size 1, and the call raises otherwise.
\<close>

definition expand_columns :: "tensor2 \<Rightarrow> nat \<Rightarrow> error + tensor2" where
  "expand_columns t n =
     (if dim1 t = n then Inr t
      else if dim1 t = 1
        then Inr \<lparr>dim0 = dim0 t, dim1 = n, trows = map (\<lambda>r. replicate n (r ! 0)) (trows t)\<rparr>
      else Inl RuntimeError)"

text \<open>\<^verbatim>\<open>t[:, 1:] = -1\<close>.\<close>

definition fill_after_first_column :: "tensor2 \<Rightarrow> tensor2" where
  "fill_after_first_column t =
     t\<lparr>trows := map (\<lambda>r. take 1 r @ replicate (length r - 1) (- 1)) (trows t)\<rparr>"

text \<open>\<^verbatim>\<open>torch.cat([a, b])\<close> along the first axis.\<close>

definition tensor_cat :: "tensor2 \<Rightarrow> tensor2 \<Rightarrow> error + tensor2" where
  "tensor_cat a b =
     (if dim1 a = dim1 b
      then Inr \<lparr>dim0 = dim0 a + dim0 b, dim1 = dim1 a, trows = trows a @ trows b\<rparr>
      else Inl RuntimeError)"

text \<open>
  \<^verbatim>\<open>t[indices] = v\<close>: row \<open>indices[j]\<close> of \<open>t\<close> becomes row \<open>j\<close> of \<open>v\<close>; a \<open>v\<close> of one row
  is broadcast to all indices.
\<close>

definition index_put_rows :: "tensor2 \<Rightarrow> nat list \<Rightarrow> tensor2 \<Rightarrow> error + tensor2" where
  "index_put_rows t idxs v =
     (if \<not> list_all (\<lambda>i. i < dim0 t) idxs then Inl IndexError
      else if dim1 v \<noteq> dim1 t then Inl RuntimeError
      else if dim0 v = length idxs
        then Inr (t\<lparr>trows := fold (\<lambda>(i, r) rs. rs[i := r]) (zip idxs (trows v)) (trows t)\<rparr>)
      else if dim0 v = 1
        then Inr (t\<lparr>trows := fold (\<lambda>i rs. rs[i := trows v ! 0]) idxs (trows t)\<rparr>)
      else Inl RuntimeError)"

section \<open>Sampler outputs\<close>

text \<open>A log-probability: \<^verbatim>\<open>-float('inf')\<close> or a finite value (\<^verbatim>\<open>0.0\<close> is \<open>LogProb 0\<close>).\<close>

datatype logprob_value = NegInf | LogProb real

text \<open>
  Modelled from the spec: \<^verbatim>\<open>create_logprobs_output\<close> and \<^verbatim>\<open>create_sequence_group_output\<close>
  (\<^verbatim>\<open>vllm/spec_decode/util.py\<close>) are not part of the source at hand. The spec says a
  \<^verbatim>\<open>CompletionSequenceGroupOutput\<close> carries one or zero sampled (token id, rank, logprob)
  triples, optional top-k lists, an optional prompt-logprob list and the sequence id. The
  records below keep exactly the arguments the coordinator passes to the two helpers.
\<close>

record logprobs_output =
  lo_token_id :: int
  lo_token_id_logprob_rank :: int
  lo_token_id_logprob :: logprob_value
  lo_topk_token_ids :: "int option list"
  lo_topk_logprobs :: "logprob_value option list"

record sequence_output =
  parent_seq_id :: int
  so_logprobs :: logprobs_output

record completion_sequence_group_output =
  samples :: "sequence_output list"
  out_prompt_logprobs :: "logprobs_output list option"
  step_index :: nat

record sampler_output =
  outputs :: "completion_sequence_group_output list"
  sampled_token_ids :: "tensor2 option"
  spec_decode_worker_metrics :: bool

definition create_logprobs_output ::
  "int \<Rightarrow> int \<Rightarrow> logprob_value \<Rightarrow> int option list \<Rightarrow> logprob_value option list
     \<Rightarrow> logprobs_output" where
  "create_logprobs_output tok rk lp topk_ids topk_lps =
     \<lparr>lo_token_id = tok, lo_token_id_logprob_rank = rk, lo_token_id_logprob = lp,
      lo_topk_token_ids = topk_ids, lo_topk_logprobs = topk_lps\<rparr>"

definition create_sequence_group_output ::
  "int \<Rightarrow> int \<Rightarrow> logprob_value \<Rightarrow> int \<Rightarrow> int option list \<Rightarrow> logprob_value option list
     \<Rightarrow> logprobs_output list option \<Rightarrow> nat \<Rightarrow> completion_sequence_group_output" where
  "create_sequence_group_output tok rk lp sid topk_ids topk_lps plogs step =
     \<lparr>samples = [\<lparr>parent_seq_id = sid,
                   so_logprobs = create_logprobs_output tok rk lp topk_ids topk_lps\<rparr>],
      out_prompt_logprobs = plogs, step_index = step\<rparr>"

text \<open>
  The four lists of \<^verbatim>\<open>_create_dummy_logprob_lists\<close> and
  \<^verbatim>\<open>_create_logprob_lists_from_tensors\<close>, each indexed by step, then by sequence.
\<close>

record logprob_lists =
  accepted_token_id_ranks_by_step :: "int list list"
  accepted_token_id_logprobs_by_step :: "logprob_value list list"
  topk_logprobs_by_step :: "logprob_value option list list list"
  topk_indices_by_step :: "int option list list list"

definition create_dummy_logprob_lists :: "nat \<Rightarrow> nat \<Rightarrow> nat \<Rightarrow> logprob_lists" where
  "create_dummy_logprob_lists batch_size num_steps num_top_k =
     \<lparr>accepted_token_id_ranks_by_step = replicate num_steps (replicate batch_size (- 1)),
      accepted_token_id_logprobs_by_step = replicate num_steps (replicate batch_size (LogProb 0)),
      topk_logprobs_by_step = replicate num_steps (replicate batch_size (replicate num_top_k None)),
      topk_indices_by_step = replicate num_steps (replicate batch_size (replicate num_top_k None))\<rparr>"

section \<open>The step without speculation\<close>

text \<open>
  The dummy prompt logprobs both serialisers build when logprobs are disabled: one entry
  per prompt token, with rank \<open>-1\<close>, logprob \<open>0.0\<close> and empty top-k lists.
\<close>

definition dummy_prompt_logprobs :: "int list \<Rightarrow> logprobs_output list" where
  "dummy_prompt_logprobs toks = map (\<lambda>p. create_logprobs_output p (- 1) (LogProb 0) [] []) toks"

text \<open>
  \<^verbatim>\<open>seq.is_prompt and seq.sampling_params.prompt_logprobs is not None and
  seq.sampling_params.prompt_logprobs > 0\<close>.
\<close>

definition wants_prompt_logprobs :: "sequence_group_metadata \<Rightarrow> bool" where
  "wants_prompt_logprobs sg =
     (is_prompt sg \<and> (case prompt_logprobs (sampling_params sg) of None \<Rightarrow> False | Some n \<Rightarrow> 0 < n))"

text \<open>
  \<^verbatim>\<open>t[torch.where(t - VLLM_INVALID_TOKEN_ID)[0]]\<close>: \<^verbatim>\<open>torch.where\<close> lists the positions of
  the non-zero entries row by row, so a row is kept once for each of its entries that
  differs from the invalid token id. The constant \<^verbatim>\<open>VLLM_INVALID_TOKEN_ID\<close> comes from
  \<^verbatim>\<open>vllm.sequence\<close> and is a parameter here.
\<close>

definition drop_invalid_rows :: "int \<Rightarrow> tensor2 \<Rightarrow> int list list" where
  "drop_invalid_rows invalid_token_id t =
     concat (map (\<lambda>r. replicate (length (filter (\<lambda>x. x - invalid_token_id \<noteq> 0) r)) r) (trows t))"

text \<open>
  The loop of \<^verbatim>\<open>_serialize_sampler_output_no_logprobs\<close> over
  \<^verbatim>\<open>enumerate(seq_group_metadata_list)\<close>, with the running \<^verbatim>\<open>output_index\<close>.
\<close>

fun serialize_loop ::
  "(int \<times> sequence_data) list \<Rightarrow> int list list \<Rightarrow> nat
     \<Rightarrow> (nat \<times> sequence_group_metadata) list
     \<Rightarrow> error + completion_sequence_group_output list" where
  "serialize_loop seq_data_entries sampled output_index [] = Inr []"
| "serialize_loop seq_data_entries sampled output_index ((idx, sg) # rest) =
     err_bind (py_index seq_data_entries idx) (\<lambda>(sid, sd).
       let plogs =
             (if wants_prompt_logprobs sg
              then Some (dummy_prompt_logprobs
                     (py_slice (prompt_token_ids sd)
                        (if num_computed_tokens sd = 0 then 1 else num_computed_tokens sd)
                        (num_computed_tokens sd + token_chunk_size sg)))
              else None)
       in if \<not> do_sample sg
          then err_bind (serialize_loop seq_data_entries sampled output_index rest) (\<lambda>outs.
                 Inr (\<lparr>samples = [], out_prompt_logprobs = plogs, step_index = 0\<rparr> # outs))
          else err_bind (py_index sampled output_index) (\<lambda>row.
               err_bind (py_index row 0) (\<lambda>tok.
               err_bind (serialize_loop seq_data_entries sampled (output_index + 1) rest) (\<lambda>outs.
                 Inr (create_sequence_group_output tok (- 1) (LogProb 0) sid [] [] plogs 0
                        # outs)))))"

text \<open>
  \<^verbatim>\<open>_serialize_sampler_output_no_logprobs\<close>. When the scorer's output has no
  \<^verbatim>\<open>sampled_token_ids\<close>, the subtraction or the call of \<^verbatim>\<open>tolist\<close> on \<^verbatim>\<open>None\<close> raises.
\<close>

definition serialize_sampler_output_no_logprobs ::
  "int \<Rightarrow> execute_model_request \<Rightarrow> sampler_output \<Rightarrow> error + sampler_output list" where
  "serialize_sampler_output_no_logprobs invalid_token_id req so =
     (let sgml = seq_group_metadata_list req
      in case sampled_token_ids so of
        None \<Rightarrow>
          Inl (if list_ex wants_prompt_logprobs sgml then TypeError else AttributeError)
      | Some t \<Rightarrow>
          let sampled = (if list_ex wants_prompt_logprobs sgml
                         then drop_invalid_rows invalid_token_id t else trows t);
              seq_data_entries = concat (map seq_data sgml)
          in err_bind (serialize_loop seq_data_entries sampled 0 (enumerate 0 sgml)) (\<lambda>outs.
               Inr [\<lparr>outputs = outs, sampled_token_ids = None,
                     spec_decode_worker_metrics = False\<rparr>]))"

text \<open>
  \<^verbatim>\<open>_run_no_spec\<close>. \<open>scorer_result\<close> is what \<^verbatim>\<open>scorer_worker.execute_model\<close> returns. The
  scorer is taken to return no hidden states, so the hidden-state buffer is not touched.
  The result is the worker calls made, and the exception or the returned list.
\<close>

definition run_no_spec ::
  "spec_decode_worker \<Rightarrow> int \<Rightarrow> sampler_output list \<Rightarrow> execute_model_request \<Rightarrow> bool
     \<Rightarrow> event list \<times> (error + sampler_output list)" where
  "run_no_spec w invalid_token_id scorer_result req skip_proposer =
     (case scorer_result of
        [so] \<Rightarrow>
          ([ScorerExecuteModel]
             @ (if \<not> skip_proposer
                then replicate (nat (num_spec_prefill_steps w)) ProposerExecuteModel else []),
           if disable_logprobs w
           then serialize_sampler_output_no_logprobs invalid_token_id req so
           else Inr [so\<lparr>sampled_token_ids := None\<rparr>])
      | _ \<Rightarrow> ([ScorerExecuteModel], Inl AssertionError))"

section \<open>Verification of the proposals\<close>

text \<open>
  The scorer's and the proposer's results. Rows of probabilities are of an arbitrary type
  \<open>'p\<close>: the coordinator only selects rows and hands them to the acceptance sampler. The
  scorer is taken to return no hidden states (\<^verbatim>\<open>hidden_states is None\<close>). The logprob
  tensor is represented by what \<^verbatim>\<open>_create_logprob_lists_from_tensors\<close> serialises it to,
  given the accepted token ids by step and the number of top-k entries.
\<close>

record 'p speculative_proposals =
  proposal_token_ids :: tensor2
  proposal_probs :: "'p list"
  proposal_lens :: "int list"
  no_proposals :: bool

record 'p speculative_scores =
  sc_probs :: "'p list"
  sc_token_ids :: tensor2
  sc_logprobs :: "tensor2 \<Rightarrow> nat \<Rightarrow> logprob_lists"
  sc_prompt_logprobs :: "logprobs_output list list option"

text \<open>
  The acceptance sampler, called with \<^verbatim>\<open>target_with_bonus_probs\<close>, \<^verbatim>\<open>bonus_token_ids\<close>,
  \<^verbatim>\<open>draft_probs\<close> and \<^verbatim>\<open>draft_token_ids\<close>; it is a parameter of the step.
\<close>

type_synonym 'p acceptance_sampler = "'p list \<Rightarrow> tensor2 \<Rightarrow> 'p list \<Rightarrow> tensor2 \<Rightarrow> tensor2"

text \<open>
  Modelled from the spec: \<^verbatim>\<open>split_batch_by_proposal_len\<close> (\<^verbatim>\<open>vllm/spec_decode/util.py\<close>) is
  not part of the source at hand. The spec's batch partitioner takes the sequence metadata
  list and the per-sequence proposal lengths and returns two ordered index lists,
  \<open>spec_indices\<close> (proposal length \<open>> 0\<close>) and \<open>non_spec_indices\<close> (proposal length \<open>= 0\<close>),
  preserving the original order within each; the sequences are returned with them.
\<close>

definition split_batch_by_proposal_len ::
  "sequence_group_metadata list \<Rightarrow> int list
     \<Rightarrow> (sequence_group_metadata list \<times> nat list) \<times> (sequence_group_metadata list \<times> nat list)"
  where
  "split_batch_by_proposal_len sgml lens =
     (let es = enumerate 0 (zip sgml lens);
          spec = filter (\<lambda>e. 0 < snd (snd e)) es;
          non_spec = filter (\<lambda>e. snd (snd e) = 0) es
      in ((map (\<lambda>e. fst (snd e)) spec, map fst spec),
          (map (\<lambda>e. fst (snd e)) non_spec, map fst non_spec)))"

text \<open>
  The first half of \<^verbatim>\<open>_verify_tokens\<close>: the rows of the sampler followed by the rows of
  the non-speculative sequences, before they are put back in the order of the batch.
\<close>

definition accepted_before_reorder ::
  "'p acceptance_sampler \<Rightarrow> nat list \<Rightarrow> nat list \<Rightarrow> 'p speculative_scores
     \<Rightarrow> 'p speculative_proposals \<Rightarrow> nat \<Rightarrow> error + tensor2" where
  "accepted_before_reorder sampler spec_indices non_spec_indices scores proposals max_proposal_len =
     err_bind (gather_rows (sc_probs scores) spec_indices) (\<lambda>proposal_verifier_probs.
     err_bind (tensor_rows (sc_token_ids scores) non_spec_indices) (\<lambda>non_spec_token_ids.
     err_bind (tensor_rows (sc_token_ids scores) spec_indices) (\<lambda>spec_token_ids.
     err_bind (gather_rows (proposal_probs proposals) spec_indices) (\<lambda>draft_probs.
     err_bind (tensor_rows (proposal_token_ids proposals) spec_indices) (\<lambda>draft_token_ids.
     err_bind (expand_columns non_spec_token_ids (max_proposal_len + 1)) (\<lambda>expanded.
       tensor_cat
         (sampler proposal_verifier_probs (last_column spec_token_ids) draft_probs draft_token_ids)
         (fill_after_first_column expanded)))))))"

text \<open>
  \<^verbatim>\<open>_verify_tokens\<close>: the accepted token ids in the order of the batch, with the scorer's
  logprobs.
\<close>

definition verify_tokens ::
  "'p acceptance_sampler \<Rightarrow> sequence_group_metadata list \<Rightarrow> 'p speculative_scores
     \<Rightarrow> 'p speculative_proposals \<Rightarrow> nat
     \<Rightarrow> error + (tensor2 \<times> (tensor2 \<Rightarrow> nat \<Rightarrow> logprob_lists))" where
  "verify_tokens sampler sgml scores proposals max_proposal_len =
     (case split_batch_by_proposal_len sgml (proposal_lens proposals) of
        ((_, spec_indices), (_, non_spec_indices)) \<Rightarrow>
          let original_indices = spec_indices @ non_spec_indices
          in err_bind (accepted_before_reorder sampler spec_indices non_spec_indices
                         scores proposals max_proposal_len) (\<lambda>accepted.
             err_bind (index_put_rows accepted original_indices accepted) (\<lambda>reordered.
               Inr (reordered, sc_logprobs scores))))"

section \<open>Assembly of the outputs\<close>

text \<open>
  The results of \<^verbatim>\<open>get_all_seq_ids_and_request_ids\<close> and \<^verbatim>\<open>get_all_num_logprobs\<close>, helpers
  outside the source at hand, for the batch of the step.
\<close>

record batch_info =
  seq_ids :: "int list"
  request_ids_seq_ids_mapping :: "(string \<times> int set) list"
  num_logprobs_per_seq :: "int list"

text \<open>\<^verbatim>\<open>xss[step][i]\<close>.\<close>

definition py_index2 :: "'a list list \<Rightarrow> nat \<Rightarrow> nat \<Rightarrow> error + 'a" where
  "py_index2 xss s i = err_bind (py_index xss s) (\<lambda>xs. py_index xs i)"

text \<open>
  The prompt logprobs of one prefill record: the scorer's when they are passed on; dummy
  ones for the tokens of the chunk when they are requested but logprobs are disabled.
\<close>

definition prefill_prompt_logprobs ::
  "logprobs_output list list option \<Rightarrow> nat \<Rightarrow> sequence_group_metadata
     \<Rightarrow> error + logprobs_output list option" where
  "prefill_prompt_logprobs plogs i sg =
     (case plogs of
        Some pl \<Rightarrow> err_bind (py_index pl i) (\<lambda>x. Inr (Some x))
      | None \<Rightarrow>
          (if (case prompt_logprobs (sampling_params sg) of None \<Rightarrow> False | Some n \<Rightarrow> n \<noteq> 0 \<and> 0 < n)
           then (case seq_data sg of
                   [] \<Rightarrow> Inl StopIteration
                 | (_, sd) # _ \<Rightarrow>
                     let toks = py_slice (prompt_token_ids sd) (num_computed_tokens sd)
                                  (num_computed_tokens sd + token_chunk_size sg)
                     in Inr (Some (dummy_prompt_logprobs
                                     (if num_computed_tokens sd = 0 then drop 1 toks else toks))))
           else Inr None))"

text \<open>One iteration of the loop over the prefill records.\<close>

definition prefill_output ::
  "logprob_lists \<Rightarrow> batch_info \<Rightarrow> tensor2 \<Rightarrow> logprobs_output list list option
     \<Rightarrow> nat \<Rightarrow> sequence_group_metadata \<Rightarrow> error + sampler_output" where
  "prefill_output lsts info accepted plogs i sg =
     err_bind (py_index (num_logprobs_per_seq info) i) (\<lambda>num_logprobs.
     err_bind (py_index (seq_ids info) i) (\<lambda>sid.
     err_bind
       (if do_sample sg
        then err_bind (py_index2 (trows accepted) i 0) (\<lambda>tok.
             err_bind (py_index2 (accepted_token_id_ranks_by_step lsts) 0 i) (\<lambda>rk.
             err_bind (py_index2 (accepted_token_id_logprobs_by_step lsts) 0 i) (\<lambda>lp.
             err_bind (py_index2 (topk_indices_by_step lsts) 0 i) (\<lambda>ti.
             err_bind (py_index2 (topk_logprobs_by_step lsts) 0 i) (\<lambda>tl.
               Inr (create_sequence_group_output tok rk lp sid
                      (py_slice ti 0 num_logprobs) (py_slice tl 0 num_logprobs)))))))
        else Inr (create_sequence_group_output (- 1) 0 NegInf sid
                    (replicate (nat num_logprobs) (Some (- 1)))
                    (replicate (nat num_logprobs) (Some NegInf))))
       (\<lambda>mk.
     err_bind (prefill_prompt_logprobs plogs i sg) (\<lambda>pl.
       Inr \<lparr>outputs = [mk pl 0], sampled_token_ids = None,
            spec_decode_worker_metrics = False\<rparr>))))"

text \<open>The loop over the prefill records; it stops at the first record that is no prompt.\<close>

fun prefill_outputs ::
  "logprob_lists \<Rightarrow> batch_info \<Rightarrow> tensor2 \<Rightarrow> logprobs_output list list option
     \<Rightarrow> (nat \<times> sequence_group_metadata) list \<Rightarrow> error + sampler_output list" where
  "prefill_outputs lsts info accepted plogs [] = Inr []"
| "prefill_outputs lsts info accepted plogs ((i, sg) # rest) =
     (if \<not> is_prompt sg then Inr []
      else err_bind (prefill_output lsts info accepted plogs i sg) (\<lambda>out.
           err_bind (prefill_outputs lsts info accepted plogs rest) (\<lambda>outs.
             Inr (out # outs))))"

text \<open>The inner loop of a decode step, over \<^verbatim>\<open>range(batch_size)\<close>.\<close>

fun decode_step_outputs ::
  "logprob_lists \<Rightarrow> batch_info \<Rightarrow> sequence_group_metadata list \<Rightarrow> int list list \<Rightarrow> nat
     \<Rightarrow> nat list \<Rightarrow> error + completion_sequence_group_output list" where
  "decode_step_outputs lsts info sgml by_step step [] = Inr []"
| "decode_step_outputs lsts info sgml by_step step (sequence_index # rest) =
     err_bind (py_index sgml sequence_index) (\<lambda>seq_meta.
       if is_prompt seq_meta then decode_step_outputs lsts info sgml by_step step rest
       else
         err_bind (py_index (num_logprobs_per_seq info) sequence_index) (\<lambda>num_logprobs.
         err_bind (py_index2 by_step step sequence_index) (\<lambda>tok.
         err_bind (py_index2 (accepted_token_id_ranks_by_step lsts) step sequence_index) (\<lambda>rk.
         err_bind (py_index2 (accepted_token_id_logprobs_by_step lsts) step sequence_index) (\<lambda>lp.
         err_bind (py_index (seq_ids info) sequence_index) (\<lambda>sid.
         err_bind (py_index2 (topk_indices_by_step lsts) step sequence_index) (\<lambda>ti.
         err_bind (py_index2 (topk_logprobs_by_step lsts) step sequence_index) (\<lambda>tl.
         err_bind (decode_step_outputs lsts info sgml by_step step rest) (\<lambda>outs.
           Inr (create_sequence_group_output tok rk lp sid
                  (py_slice ti 0 num_logprobs) (py_slice tl 0 num_logprobs) None step
                # outs))))))))))"

text \<open>
  The loop over the steps; it stops at the first step in which every decode sequence has
  the token \<open>-1\<close>.
\<close>

fun decode_outputs ::
  "logprob_lists \<Rightarrow> batch_info \<Rightarrow> sequence_group_metadata list \<Rightarrow> int list list \<Rightarrow> nat
     \<Rightarrow> nat list \<Rightarrow> error + sampler_output list" where
  "decode_outputs lsts info sgml by_step batch_size [] = Inr []"
| "decode_outputs lsts info sgml by_step batch_size (step # steps) =
     err_bind (py_index by_step step) (\<lambda>toks.
       if list_all (\<lambda>p. snd p = - 1) (filter (\<lambda>p. \<not> is_prompt (fst p)) (zip sgml toks))
       then Inr []
       else
         err_bind (decode_step_outputs lsts info sgml by_step step [0..<batch_size]) (\<lambda>outs.
         err_bind (decode_outputs lsts info sgml by_step batch_size steps) (\<lambda>more.
           Inr (\<lparr>outputs = outs, sampled_token_ids = None,
                  spec_decode_worker_metrics = False\<rparr> # more))))"

text \<open>
  \<^verbatim>\<open>_create_output_sampler_list\<close>. \<open>metrics\<close> tells whether
  \<^verbatim>\<open>maybe_collect_rejsample_metrics\<close> returned metrics in this step.
\<close>

definition create_output_sampler_list ::
  "spec_decode_worker \<Rightarrow> batch_info \<Rightarrow> bool \<Rightarrow> sequence_group_metadata list \<Rightarrow> tensor2
     \<Rightarrow> (tensor2 \<Rightarrow> nat \<Rightarrow> logprob_lists) \<Rightarrow> logprobs_output list list option
     \<Rightarrow> error + (spec_decode_worker \<times> sampler_output list)" where
  "create_output_sampler_list w info metrics sgml accepted target_logprobs plogs =
     (let batch_size = dim0 accepted;
          num_steps = dim1 accepted;
          accepted_by_step = transpose01 accepted;
          lsts = (if disable_logprobs w
                   then create_dummy_logprob_lists batch_size num_steps (max_logprobs w)
                   else target_logprobs accepted_by_step (max_logprobs w));
          by_step = trows accepted_by_step
      in err_bind (prefill_outputs lsts info accepted plogs (enumerate 0 sgml)) (\<lambda>prefills.
         err_bind (decode_outputs lsts info sgml by_step batch_size [0..<num_steps]) (\<lambda>decodes.
         err_bind (track_sequences_with_bonus_tokens w (seq_ids info)
                     (request_ids_seq_ids_mapping info) by_step) (\<lambda>w'.
           if metrics
           then (case prefills @ decodes of
                   [] \<Rightarrow> Inl IndexError
                 | out # outs \<Rightarrow> Inr (w', out\<lparr>spec_decode_worker_metrics := True\<rparr> # outs))
           else Inr (w', prefills @ decodes)))))"

section \<open>The driver rank\<close>

text \<open>
  What the collaborators of the worker answer in one step: the dict a non-driver rank
  receives, the scorer's result without speculation, the proposals and their scores, the
  acceptance sampler, the helpers' view of the batch and whether metrics are collected.
\<close>

record 'p collaborators =
  received_broadcast :: broadcast_data
  scorer_execute_model :: "sampler_output list"
  get_spec_proposals :: "'p speculative_proposals"
  score_proposals :: "'p speculative_scores"
  spec_decode_sampler :: "'p acceptance_sampler"
  batch_helpers :: batch_info
  rejsample_metrics :: bool
  invalid_token_id :: int

text \<open>
  \<^verbatim>\<open>_run_speculative_decoding_step\<close>. The logging of the draft distributions is left out.
  Dividing the proposal time by \<^verbatim>\<open>num_lookahead_slots\<close> raises when that is zero.
\<close>

definition run_speculative_decoding_step ::
  "spec_decode_worker \<Rightarrow> 'p collaborators \<Rightarrow> execute_model_request \<Rightarrow> int
     \<Rightarrow> event list \<times> (error + (spec_decode_worker \<times> sampler_output list))" where
  "run_speculative_decoding_step w env req k =
     (if k \<noteq> num_lookahead_slots req then ([], Inl AssertionError)
      else
        let proposals = get_spec_proposals env;
            sgml = seq_group_metadata_list req
        in if \<not> allow_zero_draft_token_step w \<and> no_proposals proposals
           then ([ProposerGetSpecProposals], Inl RuntimeError)
           else
             let scores = score_proposals env;
                 non_spec_indices =
                   filter (\<lambda>idx. is_prompt (sgml ! idx))
                     (snd (snd (split_batch_by_proposal_len sgml (proposal_lens proposals))));
                 evs = [ProposerGetSpecProposals, ScorerScoreProposals]
                         @ (if non_spec_indices \<noteq> [] then [ProposerExecuteModel] else [])
             in (evs,
                 err_bind (verify_tokens (spec_decode_sampler env) sgml scores proposals
                             (nat (num_lookahead_slots req))) (\<lambda>(accepted, target_logprobs).
                   if k = 0 then Inl ZeroDivisionError
                   else create_output_sampler_list w (batch_helpers env) (rejsample_metrics env)
                          sgml accepted target_logprobs
                          (if \<not> disable_logprobs w then sc_prompt_logprobs scores else None))))"

text \<open>
  The loop of \<^verbatim>\<open>execute_model\<close> that computes \<^verbatim>\<open>all_prompt\<close>, \<^verbatim>\<open>atleast_one_prompt\<close> and
  \<^verbatim>\<open>all_zero_spec_tokens\<close>.
\<close>

fun batch_flags ::
  "bool \<times> bool \<times> bool \<Rightarrow> sequence_group_metadata list \<Rightarrow> bool \<times> bool \<times> bool" where
  "batch_flags flags [] = flags"
| "batch_flags (all_prompt, atleast_one_prompt, all_zero_spec_tokens) (sgm # rest) =
     batch_flags (all_prompt \<and> is_prompt sgm,
                  atleast_one_prompt \<or> is_prompt sgm,
                  all_zero_spec_tokens \<and> num_speculative_tokens sgm = Some 0) rest"

text \<open>\<^verbatim>\<open>_maybe_disable_speculative_tokens\<close>.\<close>

definition maybe_disable_speculative_tokens ::
  "bool \<Rightarrow> sequence_group_metadata list \<Rightarrow> sequence_group_metadata list" where
  "maybe_disable_speculative_tokens disable_all_speculation sgml =
     (if \<not> disable_all_speculation then sgml
      else map (\<lambda>sg. sg\<lparr>num_speculative_tokens := Some 0\<rparr>) sgml)"

text \<open>
  The assertion of \<^verbatim>\<open>execute_model\<close> on prompt-only batches:
  \<^verbatim>\<open>if all_prompt and seq_group_metadata_list: assert num_lookahead_slots == 0\<close>.
\<close>

definition assert_prompt_only_lookahead ::
  "bool \<Rightarrow> sequence_group_metadata list \<Rightarrow> int \<Rightarrow> error + unit" where
  "assert_prompt_only_lookahead all_prompt sgml k =
     (if all_prompt \<and> sgml \<noteq> [] then (if k = 0 then Inr () else Inl AssertionError)
      else Inr ())"

text \<open>
  \<^verbatim>\<open>execute_model\<close>: the broadcasts and worker calls made, in order, and the exception or
  the new state of the worker with the returned list.
\<close>

definition execute_model ::
  "spec_decode_worker \<Rightarrow> 'p collaborators \<Rightarrow> execute_model_request option
     \<Rightarrow> event list \<times> (error + (spec_decode_worker \<times> sampler_output list))" where
  "execute_model w env execute_model_req =
     (if rank w \<noteq> driver_rank
      then (case run_non_driver_rank w (received_broadcast env) of
              Inl e \<Rightarrow> ([], Inl e)
            | Inr (_, evs) \<Rightarrow> (evs, Inr (w, [])))
      else case execute_model_req of
        None \<Rightarrow> ([Broadcast None], Inr (w, []))
      | Some req \<Rightarrow>
          (case track_finished_requests w req of
             Inl e \<Rightarrow> ([], Inl e)
           | Inr w1 \<Rightarrow>
               let disable_all_speculation = should_disable_all_speculation w1 req;
                   k = num_lookahead_slots req;
                   sgml = seq_group_metadata_list req
               in case batch_flags (True, False, True) sgml of
                 (all_prompt, atleast_one_prompt, all_zero_spec_tokens) \<Rightarrow>
                   case assert_prompt_only_lookahead all_prompt sgml k of
                     Inl e \<Rightarrow> ([], Inl e)
                   | Inr _ \<Rightarrow>
                     let no_spec = (k = 0 \<or> disable_all_speculation \<or> all_zero_spec_tokens);
                         broadcast_dict =
                           \<lparr>bc_num_lookahead_slots = k, bc_no_spec = no_spec,
                            bc_disable_all_speculation = disable_all_speculation,
                            bc_run_spec_proposer_for_prefill = atleast_one_prompt\<rparr>;
                         req' = req\<lparr>seq_group_metadata_list :=
                                  maybe_disable_speculative_tokens disable_all_speculation sgml\<rparr>
                     in if no_spec
                        then (case run_no_spec w1 (invalid_token_id env) (scorer_execute_model env)
                                     req' disable_all_speculation of
                                (evs, r) \<Rightarrow>
                                  (Broadcast (Some broadcast_dict) # evs,
                                   err_bind r (\<lambda>outs. Inr (w1, outs))))
                        else (case run_speculative_decoding_step w1 env req' k of
                                (evs, r) \<Rightarrow> (Broadcast (Some broadcast_dict) # evs, r))))"

section \<open>Splitting the cache blocks\<close>

text \<open>
  \<^verbatim>\<open>a / b\<close> on Python ints is true division: the result is the IEEE 754 binary64 number
  nearest to the quotient, ties going to the even mantissa. A finite binary64 number is
  kept as sign, mantissa and exponent: \<open>(neg, m, e)\<close> stands for \<open>\<plusminus> m \<cdot> 2\<^sup>e\<close> with
  \<open>m \<le> 2\<^sup>5\<^sup>3\<close> and \<open>e \<ge> -1074\<close>.
\<close>

type_synonym py_float = "bool \<times> int \<times> int"

text \<open>The integer nearest to \<open>a / b\<close>, ties to even, for \<open>a \<ge> 0\<close> and \<open>b > 0\<close>.\<close>

definition round_half_even :: "int \<Rightarrow> int \<Rightarrow> int" where
  "round_half_even a b =
     (let q = a div b; r = a mod b
      in if 2 * r < b then q else if b < 2 * r then q + 1 else if even q then q else q + 1)"

text \<open>\<^verbatim>\<open>n.bit_length()\<close> for \<open>n \<ge> 0\<close>.\<close>

function bit_length :: "int \<Rightarrow> nat" where
  "bit_length n = (if n \<le> 0 then 0 else Suc (bit_length (n div 2)))"
  by pat_completeness auto
termination
  by (relation "measure nat") auto

text \<open>Whether \<open>2\<^sup>d \<le> a / b\<close>, and \<open>\<lfloor>log\<^sub>2 (a / b)\<rfloor>\<close>, for positive \<open>a\<close> and \<open>b\<close>.\<close>

definition pow2_le_quotient :: "int \<Rightarrow> int \<Rightarrow> int \<Rightarrow> bool" where
  "pow2_le_quotient d a b = (if 0 \<le> d then b * 2 ^ nat d \<le> a else b \<le> a * 2 ^ nat (- d))"

definition floor_log2_quotient :: "int \<Rightarrow> int \<Rightarrow> int" where
  "floor_log2_quotient a b =
     (let d = int (bit_length a) - int (bit_length b)
      in if pow2_le_quotient d a b then d else d - 1)"

text \<open>The mantissa for the exponent \<open>e\<close>: the integer nearest to \<open>a / (b \<cdot> 2\<^sup>e)\<close>.\<close>

definition mantissa_at :: "int \<Rightarrow> int \<Rightarrow> int \<Rightarrow> int" where
  "mantissa_at e a b =
     (if 0 \<le> e then round_half_even a (b * 2 ^ nat e) else round_half_even (a * 2 ^ nat (- e)) b)"

definition py_true_divide :: "int \<Rightarrow> int \<Rightarrow> error + py_float" where
  "py_true_divide a b =
     (if b = 0 then Inl ZeroDivisionError
      else if a = 0 then Inr (False, 0, 0)
      else
        let e = max (floor_log2_quotient \<bar>a\<bar> \<bar>b\<bar> - 52) (- 1074);
            m = mantissa_at e \<bar>a\<bar> \<bar>b\<bar>
        in if 0 \<le> e \<and> 2 ^ 1024 \<le> m * 2 ^ nat e then Inl OverflowError
           else Inr ((a < 0) \<noteq> (b < 0), m, e))"

text \<open>\<^verbatim>\<open>int(x)\<close> for a float \<open>x\<close>: truncation towards zero.\<close>

definition py_int_of_float :: "py_float \<Rightarrow> int" where
  "py_int_of_float x =
     (case x of (neg, m, e) \<Rightarrow>
        let t = (if 0 \<le> e then m * 2 ^ nat e else m div 2 ^ nat (- e))
        in if neg then - t else t)"

definition split_num_cache_blocks_evenly :: "int \<Rightarrow> int \<Rightarrow> int \<Rightarrow> error + int" where
  "split_num_cache_blocks_evenly scorer_cache_block_size_bytes proposer_cache_block_size_bytes
       total_num_gpu_blocks =
     err_bind (py_true_divide (total_num_gpu_blocks * scorer_cache_block_size_bytes)
                 (proposer_cache_block_size_bytes + scorer_cache_block_size_bytes))
       (\<lambda>x. Inr (py_int_of_float x))"

section \<open>Auxiliary notions for the statements\<close>

text \<open>
  The sequence ids recorded for the requests \<open>rs\<close> in the map \<open>m\<close>, and the map \<open>m\<close> without
  the keys \<open>rs\<close>.
\<close>

definition finished_seq_ids :: "(string \<rightharpoonup> int set) \<Rightarrow> string list \<Rightarrow> int set" where
  "finished_seq_ids m rs = \<Union> (set (map (\<lambda>r. case m r of None \<Rightarrow> {} | Some s \<Rightarrow> s) rs))"

definition drop_keys :: "(string \<rightharpoonup> int set) \<Rightarrow> string list \<Rightarrow> (string \<rightharpoonup> int set)" where
  "drop_keys m rs = (\<lambda>x. if x \<in> set rs then None else m x)"

text \<open>
  The condition \<^verbatim>\<open>no_spec\<close> of \<^verbatim>\<open>execute_model\<close>: no lookahead slot, speculation disabled
  for the batch, or every record with \<^verbatim>\<open>num_speculative_tokens == 0\<close>. Such a step takes
  \<^verbatim>\<open>_run_no_spec\<close>; every other step goes through verification and the output assembler.
\<close>

definition no_spec_step :: "spec_decode_worker \<Rightarrow> execute_model_request \<Rightarrow> bool" where
  "no_spec_step w req =
     (num_lookahead_slots req = 0 \<or> should_disable_all_speculation w req
      \<or> list_all (\<lambda>sg. num_speculative_tokens sg = Some 0) (seq_group_metadata_list req))"

text \<open>
  The sequence ids that the items of a step's request-to-sequence-ids dict list for the
  request \<open>r\<close>.
\<close>

definition recorded_seq_ids :: "(string \<times> int set) list \<Rightarrow> string \<Rightarrow> int set" where
  "recorded_seq_ids rmap r = \<Union> (set (map snd (filter (\<lambda>p. fst p = r) rmap)))"

text \<open>
  The indices of the speculative and of the non-speculative sequences among the first \<open>n\<close>
  proposal lengths.
\<close>

definition spec_positions :: "int list \<Rightarrow> nat \<Rightarrow> nat list" where
  "spec_positions lens n = filter (\<lambda>i. 0 < lens ! i) [0..<n]"

definition non_spec_positions :: "int list \<Rightarrow> nat \<Rightarrow> nat list" where
  "non_spec_positions lens n = filter (\<lambda>i. lens ! i = 0) [0..<n]"

text \<open>
  What the acceptance sampler returns in \<^verbatim>\<open>_verify_tokens\<close> for the speculative indices
  \<open>spec\<close>: it is applied to the rows of the scores and of the proposals at these indices.
\<close>

definition sampler_result ::
  "'p acceptance_sampler \<Rightarrow> 'p speculative_scores \<Rightarrow> 'p speculative_proposals \<Rightarrow> nat list
     \<Rightarrow> tensor2" where
  "sampler_result sampler scores proposals spec =
     sampler (map (\<lambda>i. sc_probs scores ! i) spec)
       (last_column \<lparr>dim0 = length spec, dim1 = dim1 (sc_token_ids scores),
                      trows = map (\<lambda>i. trows (sc_token_ids scores) ! i) spec\<rparr>)
       (map (\<lambda>i. proposal_probs proposals ! i) spec)
       \<lparr>dim0 = length spec, dim1 = dim1 (proposal_token_ids proposals),
        trows = map (\<lambda>i. trows (proposal_token_ids proposals) ! i) spec\<rparr>"

text \<open>
  The logprob records a list of sampler outputs carries: those of the samples and those
  of the prompt logprobs, in order.
\<close>

definition completion_logprobs :: "completion_sequence_group_output \<Rightarrow> logprobs_output list" where
  "completion_logprobs c =
     map so_logprobs (samples c) @ (case out_prompt_logprobs c of None \<Rightarrow> [] | Some pl \<Rightarrow> pl)"

definition emitted_logprobs :: "sampler_output list \<Rightarrow> logprobs_output list" where
  "emitted_logprobs outs = concat (map (\<lambda>so. concat (map completion_logprobs (outputs so))) outs)"

text \<open>Every top-k list of the record has length \<open>m\<close>.\<close>

definition topk_length_is :: "nat \<Rightarrow> logprobs_output \<Rightarrow> bool" where
  "topk_length_is m lo = (length (lo_topk_logprobs lo) = m \<and> length (lo_topk_token_ids lo) = m)"

text \<open>A record as the serialiser without logprobs builds it: logprob \<open>0.0\<close>, no top-k entry.\<close>

definition token_only :: "logprobs_output \<Rightarrow> bool" where
  "token_only lo =
     (lo_token_id_logprob lo = LogProb 0 \<and> lo_topk_logprobs lo = [] \<and> lo_topk_token_ids lo = [])"

text \<open>
  The length of \<^verbatim>\<open>xs[:n]\<close> for a list \<open>xs\<close> of length \<open>m\<close>: for \<open>n \<ge> 0\<close> the smaller of \<open>m\<close> and
  \<open>n\<close>.
\<close>

definition cut_length :: "nat \<Rightarrow> int \<Rightarrow> nat" where
  "cut_length m n = (if 0 \<le> n then min m (nat n) else nat (int m + n))"

text \<open>
  A record built from the dummy lists for \<open>m\<close> top-k entries, cut to \<open>n\<close> logprobs: the
  logprob of the token is \<open>0.0\<close> and both top-k lists are \<open>cut_length m n\<close> sentinels
  \<^verbatim>\<open>None\<close>.
\<close>

definition topk_cut :: "nat \<Rightarrow> int \<Rightarrow> logprobs_output \<Rightarrow> bool" where
  "topk_cut m n lo =
     (lo_token_id_logprob lo = LogProb 0
      \<and> lo_topk_token_ids lo = replicate (cut_length m n) None
      \<and> lo_topk_logprobs lo = replicate (cut_length m n) None)"

text \<open>
  A record of a prompt without a sampled token: token \<open>-1\<close> with logprob \<open>-\<infinity>\<close>, and \<open>n\<close>
  pads (\<open>-1\<close> with logprob \<open>-\<infinity>\<close>) in the top-k lists.
\<close>

definition topk_padded :: "int \<Rightarrow> logprobs_output \<Rightarrow> bool" where
  "topk_padded n lo =
     (lo_token_id lo = - 1 \<and> lo_token_id_logprob lo = NegInf
      \<and> lo_topk_token_ids lo = replicate (nat n) (Some (- 1))
      \<and> lo_topk_logprobs lo = replicate (nat n) (Some NegInf))"

text \<open>
  A sample of a step with logprobs disabled: it belongs to a sequence \<open>i\<close> of the batch
  (it carries the \<open>i\<close>-th sequence id), and its top-k lists are determined by the number of
  logprobs of that sequence: pads when record \<open>i\<close> is a prompt that does not sample, the
  dummy lists cut to that number otherwise. An output without logprobs has only such
  samples, and its prompt logprobs have logprob \<open>0.0\<close> and empty top-k lists.
\<close>

definition sample_without_logprobs ::
  "nat \<Rightarrow> batch_info \<Rightarrow> sequence_group_metadata list \<Rightarrow> sequence_output \<Rightarrow> bool" where
  "sample_without_logprobs m info sgml smp =
     list_ex (\<lambda>i. i < length (seq_ids info) \<and> i < length (num_logprobs_per_seq info)
                \<and> seq_ids info ! i = parent_seq_id smp
                \<and> (if is_prompt (sgml ! i) \<and> \<not> do_sample (sgml ! i)
                   then topk_padded (num_logprobs_per_seq info ! i) (so_logprobs smp)
                   else topk_cut m (num_logprobs_per_seq info ! i) (so_logprobs smp)))
       [0..<length sgml]"

definition completion_without_logprobs ::
  "nat \<Rightarrow> batch_info \<Rightarrow> sequence_group_metadata list \<Rightarrow> completion_sequence_group_output
     \<Rightarrow> bool" where
  "completion_without_logprobs m info sgml c =
     (list_all (sample_without_logprobs m info sgml) (samples c)
      \<and> list_all token_only (case out_prompt_logprobs c of None \<Rightarrow> [] | Some pl \<Rightarrow> pl))"

definition outputs_without_logprobs ::
  "nat \<Rightarrow> batch_info \<Rightarrow> sequence_group_metadata list \<Rightarrow> sampler_output list \<Rightarrow> bool" where
  "outputs_without_logprobs m info sgml outs =
     list_all (\<lambda>so. list_all (completion_without_logprobs m info sgml) (outputs so)) outs"

text \<open>The lists are dummy lists for \<open>m\<close> top-k entries.\<close>

definition dummy_lists :: "nat \<Rightarrow> logprob_lists \<Rightarrow> bool" where
  "dummy_lists m ll =
     (list_all (list_all (\<lambda>v. v = LogProb 0)) (accepted_token_id_logprobs_by_step ll)
      \<and> list_all (list_all (\<lambda>l. l = replicate m None)) (topk_logprobs_by_step ll)
      \<and> list_all (list_all (\<lambda>l. l = replicate m None)) (topk_indices_by_step ll))"

section \<open>Concrete inputs\<close>

text \<open>
  A worker on the driver rank with logprobs disabled and no batch-size threshold; a decode
  and a prefill record; a sampler that accepts every draft token and the bonus token; and
  a mixed batch of one prefill and two decodes with two lookahead slots.
\<close>

definition example_sampling_params :: sampling_params_t where
  "example_sampling_params = \<lparr>seed = None, prompt_logprobs = None\<rparr>"

definition example_sequence_data :: sequence_data where
  "example_sequence_data = \<lparr>prompt_token_ids = [11, 12, 13], num_computed_tokens = 3\<rparr>"

definition decode_record :: "string \<Rightarrow> int \<Rightarrow> int option \<Rightarrow> sequence_group_metadata" where
  "decode_record r s n =
     \<lparr>request_id = r, is_prompt = False, do_sample = True, num_speculative_tokens = n,
      token_chunk_size = 1, seq_data = [(s, example_sequence_data)],
      sampling_params = example_sampling_params\<rparr>"

definition prefill_record :: "string \<Rightarrow> int \<Rightarrow> sequence_group_metadata" where
  "prefill_record r s =
     \<lparr>request_id = r, is_prompt = True, do_sample = True, num_speculative_tokens = None,
      token_chunk_size = 3,
      seq_data = [(s, example_sequence_data\<lparr>num_computed_tokens := 0\<rparr>)],
      sampling_params = example_sampling_params\<rparr>"

definition example_worker :: spec_decode_worker where
  "example_worker =
     \<lparr>rank = 0, disable_by_batch_size = init_disable_by_batch_size None,
      allow_zero_draft_token_step = True, disable_logprobs = True, num_spec_prefill_steps = 1,
      max_logprobs = 5, seq_with_bonus_token_in_last_step = {7},
      request_id_seq_id_mapping = [''old'' \<mapsto> {7}]\<rparr>"

definition example_sampler :: "unit acceptance_sampler" where
  "example_sampler tp bonus dp dt =
     \<lparr>dim0 = length tp, dim1 = dim1 dt + 1,
      trows = map (\<lambda>p. fst p @ snd p) (zip (trows dt) (trows bonus))\<rparr>"

definition example_proposals :: "unit speculative_proposals" where
  "example_proposals =
     \<lparr>proposal_token_ids = \<lparr>dim0 = 3, dim1 = 2, trows = [[- 1, - 1], [21, 22], [31, 32]]\<rparr>,
      proposal_probs = [(), (), ()], proposal_lens = [0, 2, 2], no_proposals = False\<rparr>"

definition example_scores :: "unit speculative_scores" where
  "example_scores =
     \<lparr>sc_probs = [(), (), ()],
      sc_token_ids = \<lparr>dim0 = 3, dim1 = 3, trows = [[5, - 1, - 1], [21, 22, 23], [31, 32, 33]]\<rparr>,
      sc_logprobs = (\<lambda>t n. create_dummy_logprob_lists 0 0 0), sc_prompt_logprobs = None\<rparr>"

definition example_collaborators :: "unit collaborators" where
  "example_collaborators =
     \<lparr>received_broadcast = None,
      scorer_execute_model =
        [\<lparr>outputs = [], sampled_token_ids = Some \<lparr>dim0 = 1, dim1 = 1, trows = [[42]]\<rparr>,
          spec_decode_worker_metrics = False\<rparr>],
      get_spec_proposals = example_proposals,
      score_proposals = example_scores,
      spec_decode_sampler = example_sampler,
      batch_helpers =
        \<lparr>seq_ids = [1, 2, 3],
         request_ids_seq_ids_mapping = [(''a'', {1}), (''b'', {2}), (''c'', {3})],
         num_logprobs_per_seq = [0, 2, 0]\<rparr>,
      rejsample_metrics = False, invalid_token_id = - 1\<rparr>"

definition example_batch :: "sequence_group_metadata list" where
  "example_batch =
     [prefill_record ''a'' 1, decode_record ''b'' 2 (Some 2), decode_record ''c'' 3 (Some 2)]"

definition example_request :: execute_model_request where
  "example_request =
     \<lparr>seq_group_metadata_list = example_batch,
      num_lookahead_slots = 2, running_queue_size = 3, finished_requests_ids = [''old'']\<rparr>"

text \<open>
  A decode batch whose only sequence had speculation switched off in an earlier step
  (\<^verbatim>\<open>num_speculative_tokens = 0\<close>), scheduled with three lookahead slots.
\<close>

definition stale_request :: execute_model_request where
  "stale_request =
     \<lparr>seq_group_metadata_list = [decode_record ''b'' 2 (Some 0)],
      num_lookahead_slots = 3, running_queue_size = 1, finished_requests_ids = []\<rparr>"

text \<open>
  Proposals and scores for a batch in which the non-speculative sequence stands between
  two speculative ones.
\<close>

definition interleaved_proposals :: "unit speculative_proposals" where
  "interleaved_proposals =
     \<lparr>proposal_token_ids = \<lparr>dim0 = 3, dim1 = 2, trows = [[21, 22], [- 1, - 1], [31, 32]]\<rparr>,
      proposal_probs = [(), (), ()], proposal_lens = [2, 0, 2], no_proposals = False\<rparr>"

definition interleaved_scores :: "unit speculative_scores" where
  "interleaved_scores =
     \<lparr>sc_probs = [(), (), ()],
      sc_token_ids = \<lparr>dim0 = 3, dim1 = 3, trows = [[21, 22, 23], [5, - 1, - 1], [31, 32, 33]]\<rparr>,
      sc_logprobs = (\<lambda>t n. create_dummy_logprob_lists 0 0 0), sc_prompt_logprobs = None\<rparr>"

text \<open>
  One decode sequence that asked for two logprobs, with two accepted tokens out of three
  slots.
\<close>

definition single_decode_info :: batch_info where
  "single_decode_info =
     \<lparr>seq_ids = [2], request_ids_seq_ids_mapping = [(''b'', {2})], num_logprobs_per_seq = [2]\<rparr>"

definition single_decode_accepted :: tensor2 where
  "single_decode_accepted = \<lparr>dim0 = 1, dim1 = 3, trows = [[21, 22, - 1]]\<rparr>"

text \<open>A batch of one prefill record scheduled with two lookahead slots.\<close>

definition prompt_only_request :: execute_model_request where
  "prompt_only_request =
     \<lparr>seq_group_metadata_list = [prefill_record ''a'' 1],
      num_lookahead_slots = 2, running_queue_size = 1, finished_requests_ids = []\<rparr>"

text \<open>The control dict the driver broadcasts for \<open>stale_request\<close>.\<close>

definition stale_broadcast :: control_dict where
  "stale_broadcast =
     \<lparr>bc_num_lookahead_slots = 3, bc_no_spec = True, bc_disable_all_speculation = False,
      bc_run_spec_proposer_for_prefill = False\<rparr>"

text \<open>Accepted token ids of two sequences for three lookahead slots; only the second has a bonus token.\<close>

definition example_accepted :: tensor2 where
  "example_accepted = \<lparr>dim0 = 2, dim1 = 4, trows = [[1, 2, - 1, - 1], [3, 4, 5, 6]]\<rparr>"

section \<open>Properties: Python primitives\<close>

lemma err_bind_Inr_iff:
  "err_bind r f = Inr y \<longleftrightarrow> (\<exists>x. r = Inr x \<and> f x = Inr y)"
  by (cases r) (simp_all add: err_bind_def)

lemma py_index_Inr: "py_index xs i = Inr x \<Longrightarrow> x \<in> set xs"
  by (auto simp: py_index_def split: if_splits)

lemma py_index_Inr_iff: "py_index xs i = Inr x \<longleftrightarrow> i < length xs \<and> x = xs ! i"
  by (auto simp: py_index_def)

lemma py_index2_Inr: "py_index2 xss s i = Inr x \<Longrightarrow> \<exists>xs\<in>set xss. x \<in> set xs"
  by (auto simp: py_index2_def err_bind_Inr_iff dest: py_index_Inr)

lemma py_slice_bound_le: "py_slice_bound m n \<le> m"
  unfolding py_slice_bound_def by (cases "n < 0") (simp_all add: max_def, arith)

lemma py_slice_from_0: "py_slice xs 0 n = take (py_slice_bound (length xs) n) xs"
  by (simp add: py_slice_def Let_def) (simp add: py_slice_bound_def)

lemma py_slice_replicate_eq:
  "py_slice (replicate m x) 0 n = replicate (py_slice_bound m n) x"
  using py_slice_bound_le [of m n] by (simp add: py_slice_from_0 min_absorb1)

lemma py_slice_replicate_cut:
  "py_slice (replicate m x) 0 n = replicate (cut_length m n) x"
proof -
  have "py_slice_bound m n = cut_length m n"
    by (simp add: py_slice_bound_def cut_length_def max_def)
  then show ?thesis by (simp add: py_slice_replicate_eq)
qed

section \<open>Properties: cleanup of finished requests\<close>

lemma track_finished_request_eq:
  "track_finished_request w r =
     Inr (w\<lparr>seq_with_bonus_token_in_last_step :=
              seq_with_bonus_token_in_last_step w
                - (case request_id_seq_id_mapping w r of None \<Rightarrow> {} | Some s \<Rightarrow> s),
            request_id_seq_id_mapping := (request_id_seq_id_mapping w)(r := None)\<rparr>)"
  by (simp add: track_finished_request_def defaultdict_get_def dict_del_def split: option.splits)

lemma track_finished_request_unknown:
  "request_id_seq_id_mapping w r = None \<Longrightarrow> track_finished_request w r = Inr w"
  by (simp add: track_finished_request_eq fun_upd_idem)

lemma in_finished_seq_ids:
  "x \<in> finished_seq_ids m rs \<longleftrightarrow> (\<exists>r\<in>set rs. \<exists>s. m r = Some s \<and> x \<in> s)"
  by (auto simp: finished_seq_ids_def split: option.splits)

lemma finished_seq_ids_Cons:
  "(case m r of None \<Rightarrow> {} | Some s \<Rightarrow> s) \<union> finished_seq_ids (m(r := None)) rs
     = finished_seq_ids m (r # rs)"
proof (rule set_eqI)
  fix x
  have a: "x \<in> finished_seq_ids (m(r := None)) rs
        \<longleftrightarrow> (\<exists>q\<in>set rs. q \<noteq> r \<and> (\<exists>s. m q = Some s \<and> x \<in> s))"
    by (auto simp: in_finished_seq_ids)
  have b: "x \<in> finished_seq_ids m (r # rs)
        \<longleftrightarrow> (\<exists>s. m r = Some s \<and> x \<in> s) \<or> (\<exists>q\<in>set rs. \<exists>s. m q = Some s \<and> x \<in> s)"
    by (auto simp: in_finished_seq_ids)
  have c: "x \<in> (case m r of None \<Rightarrow> {} | Some s \<Rightarrow> s) \<longleftrightarrow> (\<exists>s. m r = Some s \<and> x \<in> s)"
    by (cases "m r") auto
  show "x \<in> (case m r of None \<Rightarrow> {} | Some s \<Rightarrow> s) \<union> finished_seq_ids (m(r := None)) rs
        \<longleftrightarrow> x \<in> finished_seq_ids m (r # rs)"
    unfolding Un_iff a b c by auto
qed

lemma drop_keys_Cons: "drop_keys (m(r := None)) rs = drop_keys m (r # rs)"
  by (auto simp: drop_keys_def fun_eq_iff)

lemma drop_keys_Nil: "drop_keys m [] = m"
  by (simp add: drop_keys_def)

lemma drop_keys_unknown: "list_all (\<lambda>r. m r = None) rs \<Longrightarrow> drop_keys m rs = m"
  by (auto simp: drop_keys_def fun_eq_iff list_all_iff)

lemma drop_keys_twice: "drop_keys (drop_keys m rs) rs = drop_keys m rs"
  by (auto simp: drop_keys_def fun_eq_iff)

lemma finished_seq_ids_Nil: "finished_seq_ids m [] = {}"
  by (simp add: finished_seq_ids_def)

lemma finished_seq_ids_Diff:
  "b - (case m r of None \<Rightarrow> {} | Some s \<Rightarrow> s) - finished_seq_ids (m(r := None)) rs
     = b - finished_seq_ids m (r # rs)"
  unfolding finished_seq_ids_Cons [symmetric] by blast

lemma finished_seq_ids_unknown:
  "list_all (\<lambda>r. m r = None) rs \<Longrightarrow> finished_seq_ids m rs = {}"
  by (induction rs) (auto simp: finished_seq_ids_def)

lemma finished_seq_ids_dropped: "finished_seq_ids (drop_keys m rs) rs = {}"
  by (rule finished_seq_ids_unknown) (simp add: list_all_iff drop_keys_def)

text \<open>The loop over the finished requests never raises, and its result in closed form.\<close>

lemma track_finished_requests_ids_eq:
  "track_finished_requests_ids w rs =
     Inr (w\<lparr>seq_with_bonus_token_in_last_step :=
              seq_with_bonus_token_in_last_step w - finished_seq_ids (request_id_seq_id_mapping w) rs,
            request_id_seq_id_mapping := drop_keys (request_id_seq_id_mapping w) rs\<rparr>)"
proof (induction rs arbitrary: w)
  case Nil
  then show ?case by (simp add: finished_seq_ids_Nil drop_keys_Nil)
next
  case (Cons r rs)
  define w1 where "w1 = w\<lparr>seq_with_bonus_token_in_last_step :=
              seq_with_bonus_token_in_last_step w
                - (case request_id_seq_id_mapping w r of None \<Rightarrow> {} | Some s \<Rightarrow> s),
            request_id_seq_id_mapping := (request_id_seq_id_mapping w)(r := None)\<rparr>"
  have step: "track_finished_request w r = Inr w1"
    unfolding w1_def by (rule track_finished_request_eq)
  have b: "seq_with_bonus_token_in_last_step w1
             = seq_with_bonus_token_in_last_step w
                - (case request_id_seq_id_mapping w r of None \<Rightarrow> {} | Some s \<Rightarrow> s)"
    and m: "request_id_seq_id_mapping w1 = (request_id_seq_id_mapping w)(r := None)"
    by (simp_all add: w1_def del: fun_upd_apply)
  have "track_finished_requests_ids w (r # rs) = track_finished_requests_ids w1 rs"
    by (simp add: step)
  also have "\<dots> = Inr (w1\<lparr>seq_with_bonus_token_in_last_step :=
              seq_with_bonus_token_in_last_step w - finished_seq_ids (request_id_seq_id_mapping w) (r # rs),
            request_id_seq_id_mapping := drop_keys (request_id_seq_id_mapping w) (r # rs)\<rparr>)"
    unfolding Cons.IH [of w1] b m finished_seq_ids_Diff drop_keys_Cons ..
  also have "\<dots> = Inr (w\<lparr>seq_with_bonus_token_in_last_step :=
              seq_with_bonus_token_in_last_step w - finished_seq_ids (request_id_seq_id_mapping w) (r # rs),
            request_id_seq_id_mapping := drop_keys (request_id_seq_id_mapping w) (r # rs)\<rparr>)"
    by (simp add: w1_def del: fun_upd_apply)
  finally show ?case .
qed

lemma track_finished_requests_eq:
  "track_finished_requests w req =
     Inr (w\<lparr>seq_with_bonus_token_in_last_step :=
              seq_with_bonus_token_in_last_step w
                - finished_seq_ids (request_id_seq_id_mapping w) (finished_requests_ids req),
            request_id_seq_id_mapping :=
              drop_keys (request_id_seq_id_mapping w) (finished_requests_ids req)\<rparr>)"
  by (simp add: track_finished_requests_def track_finished_requests_ids_eq)

text \<open>
  C9. \<^verbatim>\<open>_track_finished_requests\<close> never raises, whatever ids it is given; an id without
  an entry in the request-to-sequence-ids map leaves the worker as it was (so a list of
  unknown ids leaves both structures unchanged); and running the cleanup again with the
  same ids yields the state that the first run yielded.
\<close>

theorem track_finished_requests_idempotent:
  "\<exists>w'. track_finished_requests w req = Inr w'
       \<and> track_finished_requests w' req = Inr w'
       \<and> (\<forall>r. request_id_seq_id_mapping w r = None \<longrightarrow> track_finished_request w r = Inr w)
       \<and> (list_all (\<lambda>r. request_id_seq_id_mapping w r = None) (finished_requests_ids req)
            \<longrightarrow> w' = w)"
proof -
  let ?rs = "finished_requests_ids req"
  let ?w' = "w\<lparr>seq_with_bonus_token_in_last_step :=
              seq_with_bonus_token_in_last_step w - finished_seq_ids (request_id_seq_id_mapping w) ?rs,
            request_id_seq_id_mapping := drop_keys (request_id_seq_id_mapping w) ?rs\<rparr>"
  have 1: "track_finished_requests w req = Inr ?w'"
    by (simp add: track_finished_requests_def track_finished_requests_ids_eq)
  have 2: "track_finished_requests ?w' req = Inr ?w'"
    by (simp add: track_finished_requests_def track_finished_requests_ids_eq
          finished_seq_ids_dropped drop_keys_twice)
  have 3: "list_all (\<lambda>r. request_id_seq_id_mapping w r = None) ?rs \<longrightarrow> ?w' = w"
    by (simp add: finished_seq_ids_unknown drop_keys_unknown)
  have 4: "\<forall>r. request_id_seq_id_mapping w r = None \<longrightarrow> track_finished_request w r = Inr w"
    by (simp add: track_finished_request_unknown)
  show ?thesis
  proof (rule exI [where x = "?w'"], intro conjI)
    show "track_finished_requests w req = Inr ?w'" by (fact 1)
    show "track_finished_requests ?w' req = Inr ?w'" by (fact 2)
    show "\<forall>r. request_id_seq_id_mapping w r = None \<longrightarrow> track_finished_request w r = Inr w"
      by (fact 4)
    show "list_all (\<lambda>r. request_id_seq_id_mapping w r = None) ?rs \<longrightarrow> ?w' = w" by (fact 3)
  qed
qed

theorem track_finished_requests_idempotent_witness:
  "\<exists>w'. track_finished_requests example_worker
            (example_request\<lparr>finished_requests_ids := [''old'', ''unknown'', ''old'']\<rparr>) = Inr w'
       \<and> track_finished_requests w'
            (example_request\<lparr>finished_requests_ids := [''old'', ''unknown'', ''old'']\<rparr>) = Inr w'
       \<and> track_finished_request example_worker ''unknown'' = Inr example_worker"
proof -
  have u: "request_id_seq_id_mapping example_worker ''unknown'' = None"
    by (simp add: example_worker_def)
  from track_finished_requests_idempotent
    [of example_worker "example_request\<lparr>finished_requests_ids := [''old'', ''unknown'', ''old'']\<rparr>"]
  show ?thesis using u by blast
qed

section \<open>Properties: the batch-size threshold\<close>

text \<open>
  C10. A worker constructed with \<^verbatim>\<open>disable_by_batch_size\<close> equal to \<^verbatim>\<open>None\<close> or \<^verbatim>\<open>0\<close> has
  the threshold infinity, and \<^verbatim>\<open>_should_disable_all_speculation\<close> is false for every
  request, whatever its \<^verbatim>\<open>running_queue_size\<close>.
\<close>

theorem falsy_threshold_never_disables:
  "cfg = None \<or> cfg = Some 0 \<Longrightarrow> disable_by_batch_size w = init_disable_by_batch_size cfg \<Longrightarrow>
     init_disable_by_batch_size cfg = PyInf \<and> \<not> should_disable_all_speculation w req"
  by (auto simp: init_disable_by_batch_size_def should_disable_all_speculation_def)

theorem falsy_threshold_never_disables_witness:
  "init_disable_by_batch_size (Some 0) = PyInf
     \<and> \<not> should_disable_all_speculation
           (example_worker\<lparr>disable_by_batch_size := init_disable_by_batch_size (Some 0)\<rparr>)
           (example_request\<lparr>running_queue_size := 1000000\<rparr>)"
  by (rule falsy_threshold_never_disables) simp_all

section \<open>Properties: the non-driver rank\<close>

lemma run_non_driver_rank_Some:
  "rank w \<noteq> driver_rank \<Longrightarrow> \<exists>evs. run_non_driver_rank w (Some d) = Inr (True, evs)"
  by (simp add: run_non_driver_rank_def)

lemma loop_exits_at_empty:
  "rank w \<noteq> driver_rank \<Longrightarrow>
     \<exists>evs. start_worker_execution_loop w (map Some ds @ None # rest) = Some (Inr (evs, rest))"
proof (induction ds)
  case Nil
  then show ?case by (simp add: run_non_driver_rank_def)
next
  case (Cons d ds)
  from Cons.prems obtain evs where "run_non_driver_rank w (Some d) = Inr (True, evs)"
    using run_non_driver_rank_Some by blast
  moreover from Cons obtain evs' where
    "start_worker_execution_loop w (map Some ds @ None # rest) = Some (Inr (evs', rest))"
    by blast
  ultimately show ?case by simp
qed

lemma loop_waits_without_empty:
  "rank w \<noteq> driver_rank \<Longrightarrow> start_worker_execution_loop w (map Some ds) = None"
proof (induction ds)
  case Nil
  then show ?case by simp
next
  case (Cons d ds)
  from Cons.prems obtain evs where "run_non_driver_rank w (Some d) = Inr (True, evs)"
    using run_non_driver_rank_Some by blast
  with Cons show ?case by simp
qed

text \<open>
  C6. On a non-driver rank \<^verbatim>\<open>_run_non_driver_rank\<close> returns \<^verbatim>\<open>False\<close> exactly when the
  received dict is empty, and then calls neither worker; for a non-empty dict it returns
  \<^verbatim>\<open>True\<close> after calling the scorer once if \<^verbatim>\<open>no_spec\<close>, then the proposer
  \<^verbatim>\<open>max(num_lookahead_slots, 1)\<close> times unless \<^verbatim>\<open>disable_all_speculation\<close>, then, unless
  \<^verbatim>\<open>no_spec\<close>, the scorer once and the proposer once more if
  \<^verbatim>\<open>run_spec_proposer_for_prefill\<close>. \<^verbatim>\<open>start_worker_execution_loop\<close> returns at the first
  empty dict, leaving the later dicts unread, and does not return before one arrives.
\<close>

theorem non_driver_rank_behaviour:
  assumes "rank w \<noteq> driver_rank"
  shows "(\<forall>data. \<exists>continue evs. run_non_driver_rank w data = Inr (continue, evs)
            \<and> (continue = False \<longleftrightarrow> data = None))
       \<and> run_non_driver_rank w None = Inr (False, [])
       \<and> (\<forall>d. run_non_driver_rank w (Some d) = Inr (True,
              (if bc_no_spec d then [ScorerExecuteModel] else [])
              @ (if bc_disable_all_speculation d then []
                 else replicate (nat (max (bc_num_lookahead_slots d) 1)) ProposerExecuteModel)
              @ (if bc_no_spec d then []
                 else if bc_run_spec_proposer_for_prefill d
                   then [ScorerExecuteModel, ProposerExecuteModel]
                   else [ScorerExecuteModel])))
       \<and> (\<forall>ds rest. \<exists>evs.
             start_worker_execution_loop w (map Some ds @ None # rest) = Some (Inr (evs, rest)))
       \<and> (\<forall>ds. start_worker_execution_loop w (map Some ds) = None)"
proof (intro conjI allI)
  fix data
  show "\<exists>continue evs. run_non_driver_rank w data = Inr (continue, evs)
            \<and> (continue = False \<longleftrightarrow> data = None)"
    using assms by (cases data) (auto simp: run_non_driver_rank_def)
next
  show "run_non_driver_rank w None = Inr (False, [])"
    using assms by (simp add: run_non_driver_rank_def)
next
  fix d
  show "run_non_driver_rank w (Some d) = Inr (True,
              (if bc_no_spec d then [ScorerExecuteModel] else [])
              @ (if bc_disable_all_speculation d then []
                 else replicate (nat (max (bc_num_lookahead_slots d) 1)) ProposerExecuteModel)
              @ (if bc_no_spec d then []
                 else if bc_run_spec_proposer_for_prefill d
                   then [ScorerExecuteModel, ProposerExecuteModel]
                   else [ScorerExecuteModel]))"
    using assms by (simp add: run_non_driver_rank_def)
next
  fix ds rest
  show "\<exists>evs. start_worker_execution_loop w (map Some ds @ None # rest) = Some (Inr (evs, rest))"
    using assms by (rule loop_exits_at_empty)
next
  fix ds
  show "start_worker_execution_loop w (map Some ds) = None"
    using assms by (rule loop_waits_without_empty)
qed

theorem non_driver_rank_behaviour_witness:
  "rank (example_worker\<lparr>rank := 1\<rparr>) \<noteq> driver_rank
     \<and> run_non_driver_rank (example_worker\<lparr>rank := 1\<rparr>) None = Inr (False, [])
     \<and> run_non_driver_rank (example_worker\<lparr>rank := 1\<rparr>)
          (Some \<lparr>bc_num_lookahead_slots = 2, bc_no_spec = False,
                 bc_disable_all_speculation = False,
                 bc_run_spec_proposer_for_prefill = True\<rparr>)
        = Inr (True, [ProposerExecuteModel, ProposerExecuteModel, ScorerExecuteModel,
                      ProposerExecuteModel])
     \<and> start_worker_execution_loop (example_worker\<lparr>rank := 1\<rparr>) (map Some [] @ None # [None])
        = Some (Inr ([], [None]))"
proof -
  have r: "rank (example_worker\<lparr>rank := 1\<rparr>) \<noteq> driver_rank"
    by (simp add: driver_rank_def)
  from non_driver_rank_behaviour [OF r] have
    a: "run_non_driver_rank (example_worker\<lparr>rank := 1\<rparr>) None = Inr (False, [])"
    and b: "\<forall>d. run_non_driver_rank (example_worker\<lparr>rank := 1\<rparr>) (Some d) = Inr (True,
              (if bc_no_spec d then [ScorerExecuteModel] else [])
              @ (if bc_disable_all_speculation d then []
                 else replicate (nat (max (bc_num_lookahead_slots d) 1)) ProposerExecuteModel)
              @ (if bc_no_spec d then []
                 else if bc_run_spec_proposer_for_prefill d
                   then [ScorerExecuteModel, ProposerExecuteModel]
                   else [ScorerExecuteModel]))"
    and c: "\<forall>ds rest. \<exists>evs. start_worker_execution_loop (example_worker\<lparr>rank := 1\<rparr>)
               (map Some ds @ None # rest) = Some (Inr (evs, rest))"
    by blast+
  have b': "run_non_driver_rank (example_worker\<lparr>rank := 1\<rparr>)
          (Some \<lparr>bc_num_lookahead_slots = 2, bc_no_spec = False,
                 bc_disable_all_speculation = False,
                 bc_run_spec_proposer_for_prefill = True\<rparr>)
        = Inr (True, [ProposerExecuteModel, ProposerExecuteModel, ScorerExecuteModel,
                      ProposerExecuteModel])"
    by (simp add: b numeral_2_eq_2)
  from c obtain evs where
    "start_worker_execution_loop (example_worker\<lparr>rank := 1\<rparr>) (map Some [] @ None # [None])
       = Some (Inr (evs, [None]))"
    by blast
  moreover have "start_worker_execution_loop (example_worker\<lparr>rank := 1\<rparr>) (map Some [] @ None # [None])
       = Some (Inr ([], [None]))"
    using a by simp
  ultimately show ?thesis using r a b' by simp
qed

section \<open>Properties: the driver rank\<close>

lemma batch_flags_eq:
  "batch_flags (a, b, c) sgml =
     (a \<and> list_all is_prompt sgml, b \<or> list_ex is_prompt sgml,
      c \<and> list_all (\<lambda>sg. num_speculative_tokens sg = Some 0) sgml)"
  by (induction sgml arbitrary: a b c) auto

lemma track_finished_requests_total:
  "\<exists>w'. track_finished_requests w req = Inr w'"
  by (simp add: track_finished_requests_def track_finished_requests_ids_eq)

lemma assert_prompt_only_lookahead_fails:
  "assert_prompt_only_lookahead (list_all is_prompt sgml) sgml k = Inl AssertionError
     \<longleftrightarrow> sgml \<noteq> [] \<and> list_all is_prompt sgml \<and> k \<noteq> 0"
  by (simp add: assert_prompt_only_lookahead_def)

lemma assert_prompt_only_lookahead_cases:
  "assert_prompt_only_lookahead a sgml k = Inl AssertionError
     \<or> assert_prompt_only_lookahead a sgml k = Inr ()"
  by (simp add: assert_prompt_only_lookahead_def)

text \<open>
  C7. On the driver rank, for a non-empty batch whose records all have \<^verbatim>\<open>is_prompt\<close>,
  \<^verbatim>\<open>execute_model\<close> raises \<^verbatim>\<open>AssertionError\<close> whenever \<^verbatim>\<open>num_lookahead_slots\<close> is not 0, and it
  has then made no broadcast and no worker call. For every other batch (not all prompts,
  empty, or \<^verbatim>\<open>num_lookahead_slots = 0\<close>) the assertion passes and the step goes on to
  broadcast the control dict.
\<close>

theorem prompt_only_lookahead_assertion:
  assumes "rank w = driver_rank"
  shows "(seq_group_metadata_list req \<noteq> [] \<and> list_all is_prompt (seq_group_metadata_list req)
            \<and> num_lookahead_slots req \<noteq> 0
          \<longrightarrow> execute_model w env (Some req) = ([], Inl AssertionError))
       \<and> (\<not> (seq_group_metadata_list req \<noteq> [] \<and> list_all is_prompt (seq_group_metadata_list req)
               \<and> num_lookahead_slots req \<noteq> 0)
          \<longrightarrow> assert_prompt_only_lookahead (list_all is_prompt (seq_group_metadata_list req))
                 (seq_group_metadata_list req) (num_lookahead_slots req) = Inr ()
              \<and> (\<exists>bc evs r. execute_model w env (Some req) = (Broadcast (Some bc) # evs, r)))"
proof -
  let ?sgml = "seq_group_metadata_list req"
  let ?k = "num_lookahead_slots req"
  obtain w1 where w1: "track_finished_requests w req = Inr w1"
    using track_finished_requests_total by blast
  have flags: "batch_flags (True, False, True) ?sgml =
     (list_all is_prompt ?sgml, list_ex is_prompt ?sgml,
      list_all (\<lambda>sg. num_speculative_tokens sg = Some 0) ?sgml)"
    by (simp add: batch_flags_eq)
  have fail: "?sgml \<noteq> [] \<and> list_all is_prompt ?sgml \<and> ?k \<noteq> 0
          \<longrightarrow> execute_model w env (Some req) = ([], Inl AssertionError)"
    using assms by (simp add: execute_model_def w1 flags assert_prompt_only_lookahead_def)
  have pass: "\<not> (?sgml \<noteq> [] \<and> list_all is_prompt ?sgml \<and> ?k \<noteq> 0)
          \<longrightarrow> assert_prompt_only_lookahead (list_all is_prompt ?sgml) ?sgml ?k = Inr ()
              \<and> (\<exists>bc evs r. execute_model w env (Some req) = (Broadcast (Some bc) # evs, r))"
  proof (intro impI conjI)
    assume n: "\<not> (?sgml \<noteq> [] \<and> list_all is_prompt ?sgml \<and> ?k \<noteq> 0)"
    then show ok: "assert_prompt_only_lookahead (list_all is_prompt ?sgml) ?sgml ?k = Inr ()"
      by (auto simp: assert_prompt_only_lookahead_def)
    show "\<exists>bc evs r. execute_model w env (Some req) = (Broadcast (Some bc) # evs, r)"
      using assms
      by (simp add: execute_model_def w1 flags ok Let_def split: prod.splits)
  qed
  from fail pass show ?thesis by blast
qed

theorem prompt_only_lookahead_assertion_witness:
  "rank example_worker = driver_rank
     \<and> execute_model example_worker example_collaborators (Some prompt_only_request)
         = ([], Inl AssertionError)
     \<and> (\<exists>bc evs r. execute_model example_worker example_collaborators (Some example_request)
         = (Broadcast (Some bc) # evs, r))"
proof -
  have r: "rank example_worker = driver_rank"
    by (simp add: example_worker_def driver_rank_def)
  have a: "seq_group_metadata_list prompt_only_request \<noteq> []
      \<and> list_all is_prompt (seq_group_metadata_list prompt_only_request)
      \<and> num_lookahead_slots prompt_only_request \<noteq> 0"
    by (simp add: prompt_only_request_def prefill_record_def)
  have b: "\<not> (seq_group_metadata_list example_request \<noteq> []
      \<and> list_all is_prompt (seq_group_metadata_list example_request)
      \<and> num_lookahead_slots example_request \<noteq> 0)"
    by (simp add: example_request_def example_batch_def prefill_record_def decode_record_def)
  from prompt_only_lookahead_assertion [OF r, of prompt_only_request example_collaborators] a
  have 1: "execute_model example_worker example_collaborators (Some prompt_only_request)
         = ([], Inl AssertionError)" by blast
  from prompt_only_lookahead_assertion [OF r, of example_request example_collaborators] b
  have 2: "\<exists>bc evs r. execute_model example_worker example_collaborators (Some example_request)
         = (Broadcast (Some bc) # evs, r)" by blast
  from r 1 2 show ?thesis by blast
qed

text \<open>
  C1. The claim is that the driver rank and a non-driver rank processing its broadcast
  make the same proposer and scorer calls in the same order. The code does not: for
  \<open>stale_request\<close> (a decode batch with three lookahead slots whose sequence has
  \<^verbatim>\<open>num_speculative_tokens = 0\<close>) the driver takes \<^verbatim>\<open>_run_no_spec\<close> and calls the scorer once
  and the proposer \<^verbatim>\<open>num_spec_prefill_steps = 1\<close> time, while the non-driver rank, given the
  dict the driver broadcast, calls the scorer once and the proposer
  \<^verbatim>\<open>max(num_lookahead_slots, 1) = 3\<close> times.
\<close>

theorem driver_and_peer_calls_differ:
  "fst (execute_model example_worker example_collaborators (Some stale_request))
     = [Broadcast (Some stale_broadcast), ScorerExecuteModel, ProposerExecuteModel]
   \<and> run_non_driver_rank (example_worker\<lparr>rank := 1\<rparr>) (Some stale_broadcast)
     = Inr (True, [ScorerExecuteModel, ProposerExecuteModel, ProposerExecuteModel,
                   ProposerExecuteModel])"
proof
  have t: "track_finished_requests example_worker stale_request = Inr example_worker"
    by (simp add: track_finished_requests_def stale_request_def)
  have w: "rank example_worker = 0" "disable_by_batch_size example_worker = PyInf"
    "num_spec_prefill_steps example_worker = 1"
    by (simp_all add: example_worker_def init_disable_by_batch_size_def)
  have q: "seq_group_metadata_list stale_request = [decode_record ''b'' 2 (Some 0)]"
    "num_lookahead_slots stale_request = 3" "running_queue_size stale_request = 1"
    by (simp_all add: stale_request_def)
  have d: "is_prompt (decode_record ''b'' 2 (Some 0)) = False"
    "num_speculative_tokens (decode_record ''b'' 2 (Some 0)) = Some 0"
    by (simp_all add: decode_record_def)
  have e: "scorer_execute_model example_collaborators =
        [\<lparr>outputs = [], sampled_token_ids = Some \<lparr>dim0 = 1, dim1 = 1, trows = [[42]]\<rparr>,
          spec_decode_worker_metrics = False\<rparr>]"
    by (simp add: example_collaborators_def)
  show "fst (execute_model example_worker example_collaborators (Some stale_request))
     = [Broadcast (Some stale_broadcast), ScorerExecuteModel, ProposerExecuteModel]"
    by (simp add: execute_model_def t w q d e driver_rank_def
          should_disable_all_speculation_def assert_prompt_only_lookahead_def
          stale_broadcast_def run_no_spec_def Let_def split: prod.splits)
  show "run_non_driver_rank (example_worker\<lparr>rank := 1\<rparr>) (Some stale_broadcast)
     = Inr (True, [ScorerExecuteModel, ProposerExecuteModel, ProposerExecuteModel,
                   ProposerExecuteModel])"
    by (simp add: run_non_driver_rank_def driver_rank_def stale_broadcast_def numeral_3_eq_3)
qed

text \<open>
  A step of \<^verbatim>\<open>execute_model\<close> on the driver rank that returns: what the two paths return, in
  terms of the state \<open>w1\<close> after the cleanup of the finished requests.
\<close>

lemma run_speculative_decoding_step_Inr:
  assumes "snd (run_speculative_decoding_step w env req k) = Inr (w', outs)"
  shows "\<exists>accepted tlp.
           verify_tokens (spec_decode_sampler env) (seq_group_metadata_list req)
             (score_proposals env) (get_spec_proposals env) (nat (num_lookahead_slots req))
             = Inr (accepted, tlp)
         \<and> create_output_sampler_list w (batch_helpers env) (rejsample_metrics env)
             (seq_group_metadata_list req) accepted tlp
             (if \<not> disable_logprobs w then sc_prompt_logprobs (score_proposals env) else None)
             = Inr (w', outs)"
  using assms
  by (auto simp: run_speculative_decoding_step_def Let_def err_bind_Inr_iff split: if_splits)

lemma execute_model_step:
  assumes rk: "rank w = driver_rank"
    and ex: "snd (execute_model w env (Some req)) = Inr (w', outs)"
    and w1: "track_finished_requests w req = Inr w1"
  shows "no_spec_step w req \<longrightarrow> w' = w1"
    and "\<not> no_spec_step w req \<longrightarrow>
           snd (run_speculative_decoding_step w1 env req (num_lookahead_slots req)) = Inr (w', outs)"
    and "no_spec_step w req \<longrightarrow>
           (\<exists>req' skip. snd (run_no_spec w1 (invalid_token_id env) (scorer_execute_model env)
                                req' skip) = Inr outs)"
proof -
  have dis: "should_disable_all_speculation w1 req = should_disable_all_speculation w req"
    using w1 unfolding track_finished_requests_eq
    by (auto simp: should_disable_all_speculation_def)
  have same: "maybe_disable_speculative_tokens False sgml = sgml" for sgml
    by (simp add: maybe_disable_speculative_tokens_def)
  show "no_spec_step w req \<longrightarrow> w' = w1"
    using ex rk
    by (auto simp: execute_model_def w1 batch_flags_eq Let_def case_prod_beta err_bind_Inr_iff
          no_spec_step_def dis split: sum.splits if_splits)
  show "\<not> no_spec_step w req \<longrightarrow>
           snd (run_speculative_decoding_step w1 env req (num_lookahead_slots req)) = Inr (w', outs)"
    using ex rk
    by (auto simp: execute_model_def w1 batch_flags_eq Let_def case_prod_beta
          no_spec_step_def dis same split: sum.splits if_splits)
  show "no_spec_step w req \<longrightarrow>
           (\<exists>req' skip. snd (run_no_spec w1 (invalid_token_id env) (scorer_execute_model env)
                                req' skip) = Inr outs)"
  proof
    assume n: "no_spec_step w req"
    let ?dis = "should_disable_all_speculation w req"
    let ?req = "req\<lparr>seq_group_metadata_list :=
                    maybe_disable_speculative_tokens ?dis (seq_group_metadata_list req)\<rparr>"
    from ex rk n have
      "snd (run_no_spec w1 (invalid_token_id env) (scorer_execute_model env) ?req ?dis) = Inr outs"
      by (auto simp: execute_model_def w1 batch_flags_eq Let_def case_prod_beta err_bind_Inr_iff
            no_spec_step_def dis split: sum.splits if_splits)
    then show "\<exists>req' skip. snd (run_no_spec w1 (invalid_token_id env) (scorer_execute_model env)
                                req' skip) = Inr outs"
      by blast
  qed
qed

text \<open>The step of \<open>example_request\<close> returns, and it takes the speculative path.\<close>

lemma example_step_returns:
  "\<not> isl (snd (execute_model example_worker example_collaborators (Some example_request)))"
  by code_simp

lemma example_step_speculative: "\<not> no_spec_step example_worker example_request"
  by (simp add: no_spec_step_def example_request_def example_worker_def example_batch_def
        should_disable_all_speculation_def init_disable_by_batch_size_def
        prefill_record_def decode_record_def)

section \<open>Properties: the set of sequences with a bonus token\<close>

lemma track_bonus_loop_result:
  assumes "by_step \<noteq> []" "list_all (\<lambda>p. fst p < length (last by_step)) ps"
  shows "\<exists>b'. track_bonus_loop b ps by_step = Inr b'
           \<and> (\<forall>s. s \<notin> snd ` set ps \<longrightarrow> (s \<in> b' \<longleftrightarrow> s \<in> b))
           \<and> (distinct (map snd ps) \<longrightarrow>
                (\<forall>p\<in>set ps. snd p \<in> b' \<longleftrightarrow> last by_step ! fst p \<noteq> - 1))"
  using assms
proof (induction ps arbitrary: b)
  case Nil
  then show ?case by simp
next
  case (Cons p ps)
  obtain i s where p: "p = (i, s)" by (cases p)
  define b1 where "b1 = (if last by_step ! i = - 1 then b - {s} else insert s b)"
  from Cons.prems p have i: "i < length (last by_step)" by simp
  from Cons.prems have rest: "list_all (\<lambda>p. fst p < length (last by_step)) ps" by simp
  from Cons.IH [OF Cons.prems(1) rest, of b1] obtain b' where
    r: "track_bonus_loop b1 ps by_step = Inr b'"
    and out: "\<forall>s. s \<notin> snd ` set ps \<longrightarrow> (s \<in> b' \<longleftrightarrow> s \<in> b1)"
    and inn: "distinct (map snd ps) \<longrightarrow>
                (\<forall>p\<in>set ps. snd p \<in> b' \<longleftrightarrow> last by_step ! fst p \<noteq> - 1)"
    by blast
  have step: "track_bonus_loop b (p # ps) by_step = Inr b'"
    using Cons.prems(1) i r by (cases "last by_step ! i = - 1") (simp_all add: p b1_def)
  have o: "\<forall>t. t \<notin> snd ` set (p # ps) \<longrightarrow> (t \<in> b' \<longleftrightarrow> t \<in> b)"
    using out by (auto simp: p b1_def)
  have d: "distinct (map snd (p # ps)) \<longrightarrow>
                (\<forall>q\<in>set (p # ps). snd q \<in> b' \<longleftrightarrow> last by_step ! fst q \<noteq> - 1)"
  proof
    assume dist: "distinct (map snd (p # ps))"
    then have "s \<notin> snd ` set ps" by (simp add: p)
    with out have "s \<in> b' \<longleftrightarrow> s \<in> b1" by blast
    then have "s \<in> b' \<longleftrightarrow> last by_step ! i \<noteq> - 1" by (simp add: b1_def)
    moreover from dist inn have "\<forall>p\<in>set ps. snd p \<in> b' \<longleftrightarrow> last by_step ! fst p \<noteq> - 1" by simp
    ultimately show "\<forall>q\<in>set (p # ps). snd q \<in> b' \<longleftrightarrow> last by_step ! fst q \<noteq> - 1"
      by (simp add: p)
  qed
  from step o d show ?case by blast
qed

lemma last_transpose01:
  assumes "dim1 acc = Suc k"
  shows "trows (transpose01 acc) \<noteq> []"
    and "last (trows (transpose01 acc)) = map (\<lambda>r. r ! k) (trows acc)"
  using assms by (simp_all add: transpose01_def last_map)

lemma recorded_seq_ids_Nil: "recorded_seq_ids [] r = {}"
  by (simp add: recorded_seq_ids_def)

lemma recorded_seq_ids_Cons:
  "recorded_seq_ids ((q, S) # rest) r = (if q = r then S \<union> recorded_seq_ids rest r else recorded_seq_ids rest r)"
  by (simp add: recorded_seq_ids_def)

lemma recorded_seq_ids_unknown: "r \<notin> fst ` set rmap \<Longrightarrow> recorded_seq_ids rmap r = {}"
  by (force simp: recorded_seq_ids_def image_iff)

lemma update_request_mapping_step:
  "update_request_mapping m ((q, S) # rest)
     = update_request_mapping (m(q \<mapsto> (case m q of None \<Rightarrow> {} | Some s \<Rightarrow> s) \<union> S)) rest"
  by (cases "m q") (simp_all add: defaultdict_get_def)

lemma update_request_mapping_eq:
  "update_request_mapping m rmap r =
     (if r \<in> fst ` set rmap
      then Some ((case m r of None \<Rightarrow> {} | Some s \<Rightarrow> s) \<union> recorded_seq_ids rmap r)
      else m r)"
proof (induction rmap arbitrary: m)
  case Nil
  then show ?case by simp
next
  case (Cons p rest)
  obtain q S where p: "p = (q, S)" by (cases p)
  show ?case
    unfolding p update_request_mapping_step Cons.IH recorded_seq_ids_Cons
    by (auto simp: Un_assoc recorded_seq_ids_unknown)
qed

lemma track_bonus_loop_bounds:
  "track_bonus_loop b ps by_step = Inr b'
     \<Longrightarrow> list_all (\<lambda>p. by_step \<noteq> [] \<and> fst p < length (last by_step)) ps"
proof (induction ps arbitrary: b)
  case Nil
  then show ?case by simp
next
  case (Cons p ps)
  obtain i s where p: "p = (i, s)" by (cases p)
  from Cons.prems have ne: "by_step \<noteq> []" and i: "i < length (last by_step)"
    by (auto simp: p split: if_splits)
  from Cons.prems ne i obtain b1 where "track_bonus_loop b1 ps by_step = Inr b'"
    by (auto simp: p split: if_splits)
  from Cons.IH [OF this] ne i show ?case by (simp add: p)
qed

lemma track_sequences_with_bonus_tokens_result:
  assumes r: "track_sequences_with_bonus_tokens w sids rmap (trows (transpose01 acc)) = Inr w'"
    and k: "dim1 acc = Suc k" and d: "distinct sids"
  shows "\<forall>i<length sids. sids ! i \<in> seq_with_bonus_token_in_last_step w'
            \<longleftrightarrow> trows acc ! i ! k \<noteq> - 1"
    and "\<forall>s. s \<notin> set sids \<longrightarrow>
           (s \<in> seq_with_bonus_token_in_last_step w' \<longleftrightarrow> s \<in> seq_with_bonus_token_in_last_step w)"
    and "request_id_seq_id_mapping w' = update_request_mapping (request_id_seq_id_mapping w) rmap"
proof -
  let ?by_step = "trows (transpose01 acc)"
  let ?ps = "enumerate 0 sids"
  from r obtain b' where
    loop: "track_bonus_loop (seq_with_bonus_token_in_last_step w) ?ps ?by_step = Inr b'"
    and w': "w' = w\<lparr>seq_with_bonus_token_in_last_step := b',
                 request_id_seq_id_mapping :=
                   update_request_mapping (request_id_seq_id_mapping w) rmap\<rparr>"
    by (auto simp: track_sequences_with_bonus_tokens_def split: sum.splits)
  have ne: "?by_step \<noteq> []" and lst: "last ?by_step = map (\<lambda>r. r ! k) (trows acc)"
    using last_transpose01 [OF k] by simp_all
  from track_bonus_loop_bounds [OF loop]
  have bound: "list_all (\<lambda>p. fst p < length (last ?by_step)) ?ps"
    by (simp add: list_all_iff)
  have snd_ps: "map snd ?ps = sids" by simp
  from track_bonus_loop_result [OF ne bound, of "seq_with_bonus_token_in_last_step w"] loop
  have out: "\<forall>s. s \<notin> snd ` set ?ps \<longrightarrow> (s \<in> b' \<longleftrightarrow> s \<in> seq_with_bonus_token_in_last_step w)"
    and inn: "distinct (map snd ?ps) \<longrightarrow>
                (\<forall>p\<in>set ?ps. snd p \<in> b' \<longleftrightarrow> last ?by_step ! fst p \<noteq> - 1)"
    by auto
  have bw: "seq_with_bonus_token_in_last_step w' = b'" by (simp add: w')
  show "\<forall>i<length sids. sids ! i \<in> seq_with_bonus_token_in_last_step w'
            \<longleftrightarrow> trows acc ! i ! k \<noteq> - 1"
  proof (intro allI impI)
    fix i assume i: "i < length sids"
    then have mem: "(i, sids ! i) \<in> set ?ps" by (simp add: in_set_enumerate_eq)
    with bound have il: "i < length (trows acc)"
      unfolding lst by (auto simp: list_all_iff)
    from mem inn d have "sids ! i \<in> b' \<longleftrightarrow> last ?by_step ! i \<noteq> - 1"
      unfolding snd_ps by fastforce
    then show "sids ! i \<in> seq_with_bonus_token_in_last_step w' \<longleftrightarrow> trows acc ! i ! k \<noteq> - 1"
      using il unfolding bw by (simp add: lst)
  qed
  have "snd ` set ?ps = set sids" using snd_ps by (metis set_map)
  with out show "\<forall>s. s \<notin> set sids \<longrightarrow>
           (s \<in> seq_with_bonus_token_in_last_step w' \<longleftrightarrow> s \<in> seq_with_bonus_token_in_last_step w)"
    unfolding bw by simp
  show "request_id_seq_id_mapping w' = update_request_mapping (request_id_seq_id_mapping w) rmap"
    by (simp add: w')
qed

lemma create_output_sampler_list_state:
  "create_output_sampler_list w info metrics sgml accepted tlp plogs = Inr (w', outs)
     \<Longrightarrow> track_sequences_with_bonus_tokens w (seq_ids info) (request_ids_seq_ids_mapping info)
           (trows (transpose01 accepted)) = Inr w'"
  unfolding create_output_sampler_list_def Let_def err_bind_Inr_iff
  by (auto split: if_splits list.splits)

lemma verify_tokens_width:
  "verify_tokens sampler sgml scores proposals k = Inr (acc, tlp) \<Longrightarrow> dim1 acc = Suc k"
  unfolding verify_tokens_def accepted_before_reorder_def Let_def
  by (auto simp: err_bind_Inr_iff expand_columns_def tensor_cat_def index_put_rows_def
        fill_after_first_column_def split: prod.splits if_splits)

text \<open>
  In the step of \<open>example_request\<close> verification accepts every token of the two decode
  sequences; the row of the prefill has no bonus token.
\<close>

lemma example_step_accepted:
  "trows (fst (projr (verify_tokens (spec_decode_sampler example_collaborators)
       (seq_group_metadata_list example_request) (score_proposals example_collaborators)
       (get_spec_proposals example_collaborators) (nat (num_lookahead_slots example_request)))))
     = [[5, - 1, - 1], [21, 22, 23], [31, 32, 33]]"
  by code_simp

text \<open>
  C4. A step of \<^verbatim>\<open>execute_model\<close> on the driver rank that returns, for a batch with distinct
  sequence ids. At the start of the step \<^verbatim>\<open>_track_finished_requests\<close> returns a state in
  which every sequence id that the map recorded for a request in \<^verbatim>\<open>finished_requests_ids\<close> is
  out of \<^verbatim>\<open>_seq_with_bonus_token_in_last_step\<close> and the entries of these requests are
  deleted. A step without speculation leaves that state as it is. Every other step reaches
  the output assembler with the accepted token ids of \<^verbatim>\<open>_verify_tokens\<close>, and after it:
  the \<open>i\<close>-th sequence id of the batch is in the set iff the last element (position
  \<open>k = num_lookahead_slots\<close>) of row \<open>i\<close> is not \<open>-1\<close>; the membership of every other id is
  as the cleanup left it; and the map holds, for every request of the batch, what it held
  after the cleanup together with the sequence ids the batch lists for the request, and
  is unchanged elsewhere. Hence an id of a finished request is in the set after the step
  only if the step went through the assembler with that id in its batch; and when a
  request of the batch is among the finished requests \<open>req2\<close> of a later step, the cleanup
  of that step removes the ids the batch listed for it and deletes its entry.
\<close>

theorem bonus_token_set_tracking:
  assumes rk: "rank w = driver_rank"
    and ex: "snd (execute_model w env (Some req)) = Inr (w', outs)"
    and ds: "distinct (seq_ids (batch_helpers env))"
  shows "\<exists>w1. track_finished_requests w req = Inr w1
      \<and> seq_with_bonus_token_in_last_step w1
          = seq_with_bonus_token_in_last_step w
              - finished_seq_ids (request_id_seq_id_mapping w) (finished_requests_ids req)
      \<and> request_id_seq_id_mapping w1
          = drop_keys (request_id_seq_id_mapping w) (finished_requests_ids req)
      \<and> (no_spec_step w req \<longrightarrow> w' = w1)
      \<and> (\<not> no_spec_step w req \<longrightarrow>
           (\<exists>accepted tlp plogs.
               verify_tokens (spec_decode_sampler env) (seq_group_metadata_list req)
                 (score_proposals env) (get_spec_proposals env) (nat (num_lookahead_slots req))
                 = Inr (accepted, tlp)
             \<and> create_output_sampler_list w1 (batch_helpers env) (rejsample_metrics env)
                 (seq_group_metadata_list req) accepted tlp plogs = Inr (w', outs)
             \<and> (\<forall>i<length (seq_ids (batch_helpers env)).
                   seq_ids (batch_helpers env) ! i \<in> seq_with_bonus_token_in_last_step w'
                     \<longleftrightarrow> trows accepted ! i ! nat (num_lookahead_slots req) \<noteq> - 1)
             \<and> (\<forall>s. s \<notin> set (seq_ids (batch_helpers env)) \<longrightarrow>
                   (s \<in> seq_with_bonus_token_in_last_step w'
                      \<longleftrightarrow> s \<in> seq_with_bonus_token_in_last_step w1))
             \<and> (\<forall>r. request_id_seq_id_mapping w' r =
                   (if r \<in> fst ` set (request_ids_seq_ids_mapping (batch_helpers env))
                    then Some ((case request_id_seq_id_mapping w1 r of None \<Rightarrow> {} | Some s \<Rightarrow> s)
                               \<union> recorded_seq_ids (request_ids_seq_ids_mapping (batch_helpers env)) r)
                    else request_id_seq_id_mapping w1 r))))
      \<and> (\<forall>r\<in>set (finished_requests_ids req). \<forall>S. request_id_seq_id_mapping w r = Some S \<longrightarrow>
            (\<forall>s\<in>S. s \<in> seq_with_bonus_token_in_last_step w'
                \<longrightarrow> \<not> no_spec_step w req \<and> s \<in> set (seq_ids (batch_helpers env))))
      \<and> (\<forall>r S. \<not> no_spec_step w req
            \<and> (r, S) \<in> set (request_ids_seq_ids_mapping (batch_helpers env))
            \<and> r \<in> set (finished_requests_ids req2)
            \<longrightarrow> (\<exists>w2. track_finished_requests w' req2 = Inr w2
                   \<and> seq_with_bonus_token_in_last_step w2 \<inter> S = {}
                   \<and> request_id_seq_id_mapping w2 r = None))"
proof -
  let ?rs = "finished_requests_ids req"
  let ?sids = "seq_ids (batch_helpers env)"
  let ?rmap = "request_ids_seq_ids_mapping (batch_helpers env)"
  let ?k = "nat (num_lookahead_slots req)"
  define w1 where "w1 = w\<lparr>seq_with_bonus_token_in_last_step :=
              seq_with_bonus_token_in_last_step w - finished_seq_ids (request_id_seq_id_mapping w) ?rs,
            request_id_seq_id_mapping := drop_keys (request_id_seq_id_mapping w) ?rs\<rparr>"
  have t: "track_finished_requests w req = Inr w1"
    unfolding w1_def by (rule track_finished_requests_eq)
  have b1: "seq_with_bonus_token_in_last_step w1
          = seq_with_bonus_token_in_last_step w - finished_seq_ids (request_id_seq_id_mapping w) ?rs"
    and m1: "request_id_seq_id_mapping w1 = drop_keys (request_id_seq_id_mapping w) ?rs"
    by (simp_all add: w1_def)
  have clean: "s \<notin> seq_with_bonus_token_in_last_step w1"
    if "r \<in> set ?rs" "request_id_seq_id_mapping w r = Some S" "s \<in> S" for r S s
    using that unfolding b1 by (auto simp: in_finished_seq_ids)
  note step = execute_model_step [OF rk ex t]
  have nospec: "no_spec_step w req \<longrightarrow> w' = w1" by (rule step(1))
  have spec: "\<exists>accepted tlp plogs.
               verify_tokens (spec_decode_sampler env) (seq_group_metadata_list req)
                 (score_proposals env) (get_spec_proposals env) ?k = Inr (accepted, tlp)
             \<and> create_output_sampler_list w1 (batch_helpers env) (rejsample_metrics env)
                 (seq_group_metadata_list req) accepted tlp plogs = Inr (w', outs)
             \<and> (\<forall>i<length ?sids. ?sids ! i \<in> seq_with_bonus_token_in_last_step w'
                     \<longleftrightarrow> trows accepted ! i ! ?k \<noteq> - 1)
             \<and> (\<forall>s. s \<notin> set ?sids \<longrightarrow>
                   (s \<in> seq_with_bonus_token_in_last_step w'
                      \<longleftrightarrow> s \<in> seq_with_bonus_token_in_last_step w1))
             \<and> (\<forall>r. request_id_seq_id_mapping w' r =
                   (if r \<in> fst ` set ?rmap
                    then Some ((case request_id_seq_id_mapping w1 r of None \<Rightarrow> {} | Some s \<Rightarrow> s)
                               \<union> recorded_seq_ids ?rmap r)
                    else request_id_seq_id_mapping w1 r))"
    if n: "\<not> no_spec_step w req"
  proof -
    from step(2) n have
      "snd (run_speculative_decoding_step w1 env req (num_lookahead_slots req)) = Inr (w', outs)"
      by blast
    from run_speculative_decoding_step_Inr [OF this] obtain accepted tlp where
      v: "verify_tokens (spec_decode_sampler env) (seq_group_metadata_list req)
             (score_proposals env) (get_spec_proposals env) ?k = Inr (accepted, tlp)"
      and c: "create_output_sampler_list w1 (batch_helpers env) (rejsample_metrics env)
             (seq_group_metadata_list req) accepted tlp
             (if \<not> disable_logprobs w1 then sc_prompt_logprobs (score_proposals env) else None)
             = Inr (w', outs)"
      by blast
    note tr = track_sequences_with_bonus_tokens_result
                [OF create_output_sampler_list_state [OF c] verify_tokens_width [OF v] ds]
    have mp: "\<forall>r. request_id_seq_id_mapping w' r =
                   (if r \<in> fst ` set ?rmap
                    then Some ((case request_id_seq_id_mapping w1 r of None \<Rightarrow> {} | Some s \<Rightarrow> s)
                               \<union> recorded_seq_ids ?rmap r)
                    else request_id_seq_id_mapping w1 r)"
      unfolding tr(3) update_request_mapping_eq by simp
    from v c tr(1) tr(2) mp show ?thesis by blast
  qed
  have fin: "\<forall>r\<in>set ?rs. \<forall>S. request_id_seq_id_mapping w r = Some S \<longrightarrow>
            (\<forall>s\<in>S. s \<in> seq_with_bonus_token_in_last_step w'
                \<longrightarrow> \<not> no_spec_step w req \<and> s \<in> set ?sids)"
  proof (intro ballI allI impI)
    fix r S s
    assume r: "r \<in> set ?rs" and S: "request_id_seq_id_mapping w r = Some S" and s: "s \<in> S"
      and mem: "s \<in> seq_with_bonus_token_in_last_step w'"
    have out: "s \<notin> seq_with_bonus_token_in_last_step w1" by (rule clean [OF r S s])
    have n: "\<not> no_spec_step w req"
    proof
      assume "no_spec_step w req"
      with nospec have "w' = w1" by blast
      with mem out show False by simp
    qed
    from spec [OF n] obtain accepted tlp plogs where
      o: "\<forall>s. s \<notin> set ?sids \<longrightarrow>
                   (s \<in> seq_with_bonus_token_in_last_step w'
                      \<longleftrightarrow> s \<in> seq_with_bonus_token_in_last_step w1)"
      by blast
    from o mem out have "s \<in> set ?sids" by blast
    with n show "\<not> no_spec_step w req \<and> s \<in> set ?sids" by blast
  qed
  have two: "\<forall>r S. \<not> no_spec_step w req \<and> (r, S) \<in> set ?rmap \<and> r \<in> set (finished_requests_ids req2)
            \<longrightarrow> (\<exists>w2. track_finished_requests w' req2 = Inr w2
                   \<and> seq_with_bonus_token_in_last_step w2 \<inter> S = {}
                   \<and> request_id_seq_id_mapping w2 r = None)"
  proof (intro allI impI)
    fix r S
    assume a: "\<not> no_spec_step w req \<and> (r, S) \<in> set ?rmap \<and> r \<in> set (finished_requests_ids req2)"
    then have n: "\<not> no_spec_step w req" and rS: "(r, S) \<in> set ?rmap"
      and r2: "r \<in> set (finished_requests_ids req2)" by blast+
    from spec [OF n] obtain accepted tlp plogs where
      mp: "\<forall>r. request_id_seq_id_mapping w' r =
                   (if r \<in> fst ` set ?rmap
                    then Some ((case request_id_seq_id_mapping w1 r of None \<Rightarrow> {} | Some s \<Rightarrow> s)
                               \<union> recorded_seq_ids ?rmap r)
                    else request_id_seq_id_mapping w1 r)"
      by blast
    have key: "r \<in> fst ` set ?rmap" using rS by force
    have sub: "S \<subseteq> recorded_seq_ids ?rmap r"
      using rS by (force simp: recorded_seq_ids_def)
    from mp key have mr: "request_id_seq_id_mapping w' r =
        Some ((case request_id_seq_id_mapping w1 r of None \<Rightarrow> {} | Some s \<Rightarrow> s)
                \<union> recorded_seq_ids ?rmap r)"
      by simp
    let ?rs2 = "finished_requests_ids req2"
    let ?w2 = "w'\<lparr>seq_with_bonus_token_in_last_step :=
              seq_with_bonus_token_in_last_step w'
                - finished_seq_ids (request_id_seq_id_mapping w') ?rs2,
            request_id_seq_id_mapping := drop_keys (request_id_seq_id_mapping w') ?rs2\<rparr>"
    have t2: "track_finished_requests w' req2 = Inr ?w2" by (rule track_finished_requests_eq)
    have "S \<subseteq> finished_seq_ids (request_id_seq_id_mapping w') ?rs2"
    proof
      fix x assume "x \<in> S"
      with sub have "x \<in> (case request_id_seq_id_mapping w1 r of None \<Rightarrow> {} | Some s \<Rightarrow> s)
                \<union> recorded_seq_ids ?rmap r" by blast
      with r2 mr show "x \<in> finished_seq_ids (request_id_seq_id_mapping w') ?rs2"
        unfolding in_finished_seq_ids by blast
    qed
    then have e: "seq_with_bonus_token_in_last_step ?w2 \<inter> S = {}" by auto
    have d: "request_id_seq_id_mapping ?w2 r = None" using r2 by (simp add: drop_keys_def)
    from t2 e d show "\<exists>w2. track_finished_requests w' req2 = Inr w2
                   \<and> seq_with_bonus_token_in_last_step w2 \<inter> S = {}
                   \<and> request_id_seq_id_mapping w2 r = None"
      by blast
  qed
  from spec have spec': "\<not> no_spec_step w req \<longrightarrow>
           (\<exists>accepted tlp plogs.
               verify_tokens (spec_decode_sampler env) (seq_group_metadata_list req)
                 (score_proposals env) (get_spec_proposals env) ?k = Inr (accepted, tlp)
             \<and> create_output_sampler_list w1 (batch_helpers env) (rejsample_metrics env)
                 (seq_group_metadata_list req) accepted tlp plogs = Inr (w', outs)
             \<and> (\<forall>i<length ?sids. ?sids ! i \<in> seq_with_bonus_token_in_last_step w'
                     \<longleftrightarrow> trows accepted ! i ! ?k \<noteq> - 1)
             \<and> (\<forall>s. s \<notin> set ?sids \<longrightarrow>
                   (s \<in> seq_with_bonus_token_in_last_step w'
                      \<longleftrightarrow> s \<in> seq_with_bonus_token_in_last_step w1))
             \<and> (\<forall>r. request_id_seq_id_mapping w' r =
                   (if r \<in> fst ` set ?rmap
                    then Some ((case request_id_seq_id_mapping w1 r of None \<Rightarrow> {} | Some s \<Rightarrow> s)
                               \<union> recorded_seq_ids ?rmap r)
                    else request_id_seq_id_mapping w1 r)))"
    by blast
  show ?thesis
    by (rule exI [where x = w1]) (intro conjI t b1 m1 nospec spec' fin two)
qed

theorem bonus_token_set_tracking_witness:
  "rank example_worker = driver_rank
   \<and> distinct (seq_ids (batch_helpers example_collaborators))
   \<and> \<not> isl (snd (execute_model example_worker example_collaborators (Some example_request)))
   \<and> 7 \<in> seq_with_bonus_token_in_last_step example_worker
   \<and> 7 \<notin> seq_with_bonus_token_in_last_step
          (fst (projr (snd (execute_model example_worker example_collaborators (Some example_request)))))
   \<and> 1 \<notin> seq_with_bonus_token_in_last_step
          (fst (projr (snd (execute_model example_worker example_collaborators (Some example_request)))))
   \<and> 2 \<in> seq_with_bonus_token_in_last_step
          (fst (projr (snd (execute_model example_worker example_collaborators (Some example_request)))))
   \<and> 3 \<in> seq_with_bonus_token_in_last_step
          (fst (projr (snd (execute_model example_worker example_collaborators (Some example_request)))))
   \<and> request_id_seq_id_mapping
        (fst (projr (snd (execute_model example_worker example_collaborators (Some example_request)))))
        ''b'' = Some {2}
   \<and> request_id_seq_id_mapping
        (fst (projr (snd (execute_model example_worker example_collaborators (Some example_request)))))
        ''old'' = None"
proof -
  let ?r = "snd (execute_model example_worker example_collaborators (Some example_request))"
  let ?w' = "fst (projr ?r)"
  let ?v = "verify_tokens (spec_decode_sampler example_collaborators)
       (seq_group_metadata_list example_request) (score_proposals example_collaborators)
       (get_spec_proposals example_collaborators) (nat (num_lookahead_slots example_request))"
  have rk: "rank example_worker = driver_rank"
    by (simp add: example_worker_def driver_rank_def)
  have sids: "seq_ids (batch_helpers example_collaborators) = [1, 2, 3]"
    and rmap: "request_ids_seq_ids_mapping (batch_helpers example_collaborators)
                 = [(''a'', {1}), (''b'', {2}), (''c'', {3})]"
    by (simp_all add: example_collaborators_def)
  have ds: "distinct (seq_ids (batch_helpers example_collaborators))"
    unfolding sids by simp
  have n: "\<not> isl ?r" by (rule example_step_returns)
  then have e: "?r = Inr (?w', snd (projr ?r))" by (cases ?r) simp_all
  have k: "nat (num_lookahead_slots example_request) = 2"
    by (simp add: example_request_def)
  have old: "seq_with_bonus_token_in_last_step example_worker = {7}"
    "request_id_seq_id_mapping example_worker = [''old'' \<mapsto> {7}]"
    "finished_requests_ids example_request = [''old'']"
    by (simp_all add: example_worker_def example_request_def)
  from bonus_token_set_tracking [OF rk e ds, where ?req2.0 = example_request]
  obtain w1 where
    b1: "seq_with_bonus_token_in_last_step w1
          = seq_with_bonus_token_in_last_step example_worker
              - finished_seq_ids (request_id_seq_id_mapping example_worker)
                  (finished_requests_ids example_request)"
    and m1: "request_id_seq_id_mapping w1
          = drop_keys (request_id_seq_id_mapping example_worker)
              (finished_requests_ids example_request)"
    and sp: "\<not> no_spec_step example_worker example_request \<longrightarrow>
           (\<exists>accepted tlp plogs.
               ?v = Inr (accepted, tlp)
             \<and> create_output_sampler_list w1 (batch_helpers example_collaborators)
                 (rejsample_metrics example_collaborators)
                 (seq_group_metadata_list example_request) accepted tlp plogs
                 = Inr (?w', snd (projr ?r))
             \<and> (\<forall>i<length (seq_ids (batch_helpers example_collaborators)).
                   seq_ids (batch_helpers example_collaborators) ! i
                     \<in> seq_with_bonus_token_in_last_step ?w'
                     \<longleftrightarrow> trows accepted ! i ! nat (num_lookahead_slots example_request) \<noteq> - 1)
             \<and> (\<forall>s. s \<notin> set (seq_ids (batch_helpers example_collaborators)) \<longrightarrow>
                   (s \<in> seq_with_bonus_token_in_last_step ?w'
                      \<longleftrightarrow> s \<in> seq_with_bonus_token_in_last_step w1))
             \<and> (\<forall>r. request_id_seq_id_mapping ?w' r =
                   (if r \<in> fst ` set (request_ids_seq_ids_mapping (batch_helpers example_collaborators))
                    then Some ((case request_id_seq_id_mapping w1 r of None \<Rightarrow> {} | Some s \<Rightarrow> s)
                               \<union> recorded_seq_ids
                                    (request_ids_seq_ids_mapping (batch_helpers example_collaborators)) r)
                    else request_id_seq_id_mapping w1 r)))"
    by (elim exE conjE) (rule that, assumption+)
  from sp [THEN mp, OF example_step_speculative]
  obtain accepted tlp where
    v: "?v = Inr (accepted, tlp)"
    and inn: "\<forall>i<length (seq_ids (batch_helpers example_collaborators)).
                   seq_ids (batch_helpers example_collaborators) ! i
                     \<in> seq_with_bonus_token_in_last_step ?w'
                     \<longleftrightarrow> trows accepted ! i ! nat (num_lookahead_slots example_request) \<noteq> - 1"
    and out: "\<forall>s. s \<notin> set (seq_ids (batch_helpers example_collaborators)) \<longrightarrow>
                   (s \<in> seq_with_bonus_token_in_last_step ?w'
                      \<longleftrightarrow> s \<in> seq_with_bonus_token_in_last_step w1)"
    and mp: "\<forall>r. request_id_seq_id_mapping ?w' r =
                   (if r \<in> fst ` set (request_ids_seq_ids_mapping (batch_helpers example_collaborators))
                    then Some ((case request_id_seq_id_mapping w1 r of None \<Rightarrow> {} | Some s \<Rightarrow> s)
                               \<union> recorded_seq_ids
                                    (request_ids_seq_ids_mapping (batch_helpers example_collaborators)) r)
                    else request_id_seq_id_mapping w1 r)"
    by (elim exE conjE) (rule that, assumption+)
  have acc: "trows accepted = [[5, - 1, - 1], [21, 22, 23], [31, 32, 33]]"
    using example_step_accepted unfolding v by simp
  have w1b: "seq_with_bonus_token_in_last_step w1 = {}"
    unfolding b1 old by (simp add: finished_seq_ids_def)
  have w1m: "request_id_seq_id_mapping w1 r = None" for r
    unfolding m1 old by (simp add: drop_keys_def)
  from out [rule_format, of 7] have 7: "7 \<notin> seq_with_bonus_token_in_last_step ?w'"
    unfolding sids w1b by simp
  from inn [rule_format, of 0] have 1: "1 \<notin> seq_with_bonus_token_in_last_step ?w'"
    unfolding sids acc k by simp
  from inn [rule_format, of 1] have 2: "2 \<in> seq_with_bonus_token_in_last_step ?w'"
    unfolding sids acc k by simp
  from inn [rule_format, of 2] have 3: "3 \<in> seq_with_bonus_token_in_last_step ?w'"
    unfolding sids acc k by simp
  from mp [rule_format, of "''b''"] have b: "request_id_seq_id_mapping ?w' ''b'' = Some {2}"
    unfolding rmap w1m by (simp add: recorded_seq_ids_def)
  from mp [rule_format, of "''old''"] have o: "request_id_seq_id_mapping ?w' ''old'' = None"
    unfolding rmap w1m by simp
  have 0: "7 \<in> seq_with_bonus_token_in_last_step example_worker" unfolding old by simp
  from rk ds n 0 7 1 2 3 b o show ?thesis by blast
qed

section \<open>Properties: verification of the proposals\<close>

lemma map_fst_filter_enumerate:
  "map fst (filter (\<lambda>e. P (snd e)) (enumerate 0 xs)) = filter (\<lambda>i. P (xs ! i)) [0..<length xs]"
proof (induction xs rule: rev_induct)
  case Nil
  then show ?case by simp
next
  case (snoc x xs)
  have "filter (\<lambda>i. P ((xs @ [x]) ! i)) [0..<length xs] = filter (\<lambda>i. P (xs ! i)) [0..<length xs]"
    by (rule filter_cong) (simp_all add: nth_append)
  with snoc show ?case
    by (simp add: enumerate_append_eq)
qed

lemma split_batch_indices:
  assumes "length sgml = n" "length lens = n"
  shows "snd (fst (split_batch_by_proposal_len sgml lens)) = spec_positions lens n"
    and "snd (snd (split_batch_by_proposal_len sgml lens)) = non_spec_positions lens n"
proof -
  have l: "length (zip sgml lens) = n" using assms by simp
  have nth: "\<And>i. i < n \<Longrightarrow> snd (zip sgml lens ! i) = lens ! i" using assms by simp
  have a: "map fst (filter (\<lambda>e. 0 < snd (snd e)) (enumerate 0 (zip sgml lens)))
            = filter (\<lambda>i. 0 < snd (zip sgml lens ! i)) [0..<n]"
    using map_fst_filter_enumerate [of "\<lambda>p. 0 < snd p" "zip sgml lens"] l by simp
  have b: "map fst (filter (\<lambda>e. snd (snd e) = 0) (enumerate 0 (zip sgml lens)))
            = filter (\<lambda>i. snd (zip sgml lens ! i) = 0) [0..<n]"
    using map_fst_filter_enumerate [of "\<lambda>p. snd p = 0" "zip sgml lens"] l by simp
  have a': "filter (\<lambda>i. 0 < snd (zip sgml lens ! i)) [0..<n] = filter (\<lambda>i. 0 < lens ! i) [0..<n]"
    by (rule filter_cong) (simp_all add: nth)
  have b': "filter (\<lambda>i. snd (zip sgml lens ! i) = 0) [0..<n] = filter (\<lambda>i. lens ! i = 0) [0..<n]"
    by (rule filter_cong) (simp_all add: nth)
  show "snd (fst (split_batch_by_proposal_len sgml lens)) = spec_positions lens n"
    by (simp add: split_batch_by_proposal_len_def Let_def a a' spec_positions_def)
  show "snd (snd (split_batch_by_proposal_len sgml lens)) = non_spec_positions lens n"
    by (simp add: split_batch_by_proposal_len_def Let_def b b' non_spec_positions_def)
qed

lemma fold_update_length:
  "length (fold (\<lambda>(i, r) rs. rs[i := r]) ps rs) = length rs"
  by (induction ps arbitrary: rs) (auto split: prod.splits)

lemma fold_update_other:
  "i \<notin> fst ` set ps \<Longrightarrow> fold (\<lambda>(i, r) rs. rs[i := r]) ps rs ! i = rs ! i"
  by (induction ps arbitrary: rs) (auto split: prod.splits)

lemma fold_update_nth:
  assumes "distinct idxs" "length idxs = length vs" "\<forall>i\<in>set idxs. i < length rs" "j < length idxs"
  shows "fold (\<lambda>(i, r) rs. rs[i := r]) (zip idxs vs) rs ! (idxs ! j) = vs ! j"
  using assms
proof (induction idxs arbitrary: vs rs j)
  case Nil
  then show ?case by simp
next
  case (Cons i idxs)
  then obtain v vs' where vs: "vs = v # vs'" by (cases vs) auto
  show ?case
  proof (cases j)
    case 0
    have "i \<notin> fst ` set (zip idxs vs')"
      using Cons.prems(1) by (auto dest: set_zip_leftD)
    then have "fold (\<lambda>(i, r) rs. rs[i := r]) (zip idxs vs') (rs[i := v]) ! i = rs[i := v] ! i"
      by (rule fold_update_other)
    with Cons.prems(3) show ?thesis by (simp add: vs 0)
  next
    case (Suc j')
    have "fold (\<lambda>(i, r) rs. rs[i := r]) (zip idxs vs') (rs[i := v]) ! (idxs ! j') = vs' ! j'"
      using Cons.prems vs Suc by (intro Cons.IH) auto
    then show ?thesis by (simp add: vs Suc)
  qed
qed

lemma positions_partition:
  assumes "list_all (\<lambda>l. l = 0 \<or> l = int k) lens" "length lens = n"
  shows "distinct (spec_positions lens n @ non_spec_positions lens n)"
    and "set (spec_positions lens n @ non_spec_positions lens n) = {0..<n}"
    and "length (spec_positions lens n) + length (non_spec_positions lens n) = n"
proof -
  have cases: "\<And>i. i < n \<Longrightarrow> (0 < lens ! i) \<noteq> (lens ! i = 0)"
    using assms by (auto simp: list_all_length)
  show d: "distinct (spec_positions lens n @ non_spec_positions lens n)"
    by (auto simp: spec_positions_def non_spec_positions_def)
  show s: "set (spec_positions lens n @ non_spec_positions lens n) = {0..<n}"
    using cases by (auto simp: spec_positions_def non_spec_positions_def)
  have "length (spec_positions lens n @ non_spec_positions lens n) = card {0..<n}"
    using d s distinct_card by metis
  then show "length (spec_positions lens n) + length (non_spec_positions lens n) = n"
    by simp
qed

lemma filter_upt_position:
  assumes "i < n" "P i"
  shows "length (filter P [0..<i]) < length (filter P [0..<n])"
    and "filter P [0..<n] ! length (filter P [0..<i]) = i"
proof -
  have "[0..<n] = [0..<i] @ i # [Suc i..<n]"
    using assms(1) by (metis less_imp_le_nat upt_add_eq_append upt_conv_Cons le_add_diff_inverse zero_le)
  then have f: "filter P [0..<n] = filter P [0..<i] @ i # filter P [Suc i..<n]"
    using assms(2) by simp
  show "length (filter P [0..<i]) < length (filter P [0..<n])"
    by (simp add: f)
  show "filter P [0..<n] ! length (filter P [0..<i]) = i"
    by (simp add: f)
qed


lemma positions_bounded:
  "list_all (\<lambda>i. i < n) (spec_positions lens n)"
  "list_all (\<lambda>i. i < n) (non_spec_positions lens n)"
  by (simp_all add: spec_positions_def non_spec_positions_def list_all_iff)

lemma fill_row:
  "length r = Suc k \<Longrightarrow> take 1 r @ replicate (length r - 1) (- 1) = (r ! 0) # replicate k (- 1)"
  by (cases r) simp_all

lemma accepted_before_reorder_result:
  assumes spec: "list_all (\<lambda>i. i < n) spec" and non: "list_all (\<lambda>i. i < n) non"
    and probs: "length (sc_probs scores) = n"
    and tok: "wf_tensor2 (sc_token_ids scores)" "dim0 (sc_token_ids scores) = n"
      "dim1 (sc_token_ids scores) = k + 1"
    and draft: "length (proposal_probs proposals) = n" "dim0 (proposal_token_ids proposals) = n"
    and width: "dim1 (sampler_result sampler scores proposals spec) = k + 1"
  shows "accepted_before_reorder sampler spec non scores proposals k =
     Inr \<lparr>dim0 = dim0 (sampler_result sampler scores proposals spec) + length non,
          dim1 = k + 1,
          trows = trows (sampler_result sampler scores proposals spec)
                    @ map (\<lambda>i. (trows (sc_token_ids scores) ! i ! 0) # replicate k (- 1)) non\<rparr>"
proof -
  have rows: "\<forall>i\<in>set non. take (Suc 0) (trows (sc_token_ids scores) ! i)
                  @ replicate (length (trows (sc_token_ids scores) ! i) - Suc 0) (- 1)
                = (trows (sc_token_ids scores) ! i ! 0) # replicate k (- 1)"
  proof
    fix i assume "i \<in> set non"
    with non have "i < n" by (simp add: list_all_iff)
    with tok have "length (trows (sc_token_ids scores) ! i) = Suc k"
      by (simp add: wf_tensor2_def list_all_length)
    from fill_row [OF this]
    show "take (Suc 0) (trows (sc_token_ids scores) ! i)
                  @ replicate (length (trows (sc_token_ids scores) ! i) - Suc 0) (- 1)
                = (trows (sc_token_ids scores) ! i ! 0) # replicate k (- 1)"
      by simp
  qed
  show ?thesis
    using spec non probs tok(2,3) draft width rows
    by (simp add: accepted_before_reorder_def err_bind_def gather_rows_def tensor_rows_def
          expand_columns_def fill_after_first_column_def tensor_cat_def sampler_result_def)
qed

lemma verify_tokens_result:
  assumes lens: "list_all (\<lambda>l. l = 0 \<or> l = int k) (proposal_lens proposals)"
    and n: "length (proposal_lens proposals) = n" "length sgml = n"
    and probs: "length (sc_probs scores) = n"
    and tok: "wf_tensor2 (sc_token_ids scores)" "dim0 (sc_token_ids scores) = n"
      "dim1 (sc_token_ids scores) = k + 1"
    and draft: "length (proposal_probs proposals) = n" "dim0 (proposal_token_ids proposals) = n"
    and S: "wf_tensor2 (sampler_result sampler scores proposals (spec_positions (proposal_lens proposals) n))"
      "dim0 (sampler_result sampler scores proposals (spec_positions (proposal_lens proposals) n))
         = length (spec_positions (proposal_lens proposals) n)"
      "dim1 (sampler_result sampler scores proposals (spec_positions (proposal_lens proposals) n)) = k + 1"
  shows "\<exists>acc. verify_tokens sampler sgml scores proposals k = Inr (acc, sc_logprobs scores)
      \<and> dim0 acc = n \<and> dim1 acc = k + 1 \<and> length (trows acc) = n
      \<and> (\<forall>j<length (spec_positions (proposal_lens proposals) n).
            trows acc ! (spec_positions (proposal_lens proposals) n ! j)
              = trows (sampler_result sampler scores proposals
                         (spec_positions (proposal_lens proposals) n)) ! j)
      \<and> (\<forall>j<length (non_spec_positions (proposal_lens proposals) n).
            trows acc ! (non_spec_positions (proposal_lens proposals) n ! j)
              = (trows (sc_token_ids scores) ! (non_spec_positions (proposal_lens proposals) n ! j) ! 0)
                  # replicate k (- 1))"
proof -
  let ?lens = "proposal_lens proposals"
  let ?spec = "spec_positions ?lens n"
  let ?non = "non_spec_positions ?lens n"
  let ?S = "sampler_result sampler scores proposals ?spec"
  let ?nrows = "map (\<lambda>i. (trows (sc_token_ids scores) ! i ! 0) # replicate k (- 1)) ?non"
  let ?cat = "\<lparr>dim0 = dim0 ?S + length ?non, dim1 = k + 1, trows = trows ?S @ ?nrows\<rparr>"
  let ?orig = "?spec @ ?non"
  let ?R = "fold (\<lambda>(i, r) rs. rs[i := r]) (zip ?orig (trows ?cat)) (trows ?cat)"
  have split: "split_batch_by_proposal_len sgml ?lens
      = ((fst (fst (split_batch_by_proposal_len sgml ?lens)), ?spec),
         (fst (snd (split_batch_by_proposal_len sgml ?lens)), ?non))"
    using split_batch_indices [OF n(2) n(1)] by (metis prod.collapse)
  have cat: "accepted_before_reorder sampler ?spec ?non scores proposals k = Inr ?cat"
    by (rule accepted_before_reorder_result [OF positions_bounded probs tok draft S(3)])
  have part: "distinct ?orig" "set ?orig = {0..<n}" "length ?spec + length ?non = n"
    using positions_partition [OF lens n(1)] by blast+
  have lenS: "length (trows ?S) = length ?spec"
    using S(1,2) by (simp add: wf_tensor2_def)
  have lcat: "length (trows ?cat) = n" using lenS part(3) by simp
  have lorig: "length ?orig = n" using part(3) by simp
  have bound: "list_all (\<lambda>i. i < dim0 ?cat) ?orig"
    using part(2) S(2) part(3) by (simp add: list_all_iff del: set_append)
  have d0: "dim0 ?cat = length ?orig" using S(2) by simp
  have put: "index_put_rows ?cat ?orig ?cat = Inr (?cat\<lparr>trows := ?R\<rparr>)"
    unfolding index_put_rows_def using bound d0 by simp
  have res: "verify_tokens sampler sgml scores proposals k
               = Inr (?cat\<lparr>trows := ?R\<rparr>, sc_logprobs scores)"
    unfolding verify_tokens_def
    by (subst split) (simp only: prod.case Let_def cat put err_bind_def sum.case)
  have inb: "\<forall>i\<in>set ?orig. i < length (trows ?cat)"
    using part(2) lcat by (simp del: set_append)
  have nth: "?R ! (?orig ! j) = trows ?cat ! j" if "j < n" for j
    by (rule fold_update_nth [OF part(1) _ inb]) (simp_all only: lorig lcat that)
  have a: "\<forall>j<length ?spec. ?R ! (?spec ! j) = trows ?S ! j"
  proof (intro allI impI)
    fix j assume j: "j < length ?spec"
    then have "j < n" using part(3) by simp
    from nth [OF this] j lenS show "?R ! (?spec ! j) = trows ?S ! j"
      by (simp add: nth_append)
  qed
  have b: "\<forall>j<length ?non. ?R ! (?non ! j)
              = (trows (sc_token_ids scores) ! (?non ! j) ! 0) # replicate k (- 1)"
  proof (intro allI impI)
    fix j assume j: "j < length ?non"
    then have "length ?spec + j < n" using part(3) by simp
    from nth [OF this] j lenS
    show "?R ! (?non ! j) = (trows (sc_token_ids scores) ! (?non ! j) ! 0) # replicate k (- 1)"
      by (simp add: nth_append)
  qed
  have l: "length ?R = n" by (simp only: fold_update_length lcat)
  have d: "dim0 (?cat\<lparr>trows := ?R\<rparr>) = n" using S(2) part(3) by simp
  have d1: "dim1 (?cat\<lparr>trows := ?R\<rparr>) = k + 1" by simp
  have tr: "trows (?cat\<lparr>trows := ?R\<rparr>) = ?R" by simp
  show ?thesis
  proof (rule exI [where x = "?cat\<lparr>trows := ?R\<rparr>"], intro conjI)
    show "verify_tokens sampler sgml scores proposals k
            = Inr (?cat\<lparr>trows := ?R\<rparr>, sc_logprobs scores)" by (fact res)
    show "dim0 (?cat\<lparr>trows := ?R\<rparr>) = n" by (fact d)
    show "dim1 (?cat\<lparr>trows := ?R\<rparr>) = k + 1" by (fact d1)
    show "length (trows (?cat\<lparr>trows := ?R\<rparr>)) = n" unfolding tr by (fact l)
    show "\<forall>j<length ?spec. trows (?cat\<lparr>trows := ?R\<rparr>) ! (?spec ! j) = trows ?S ! j"
      unfolding tr by (fact a)
    show "\<forall>j<length ?non. trows (?cat\<lparr>trows := ?R\<rparr>) ! (?non ! j)
              = (trows (sc_token_ids scores) ! (?non ! j) ! 0) # replicate k (- 1)"
      unfolding tr by (fact b)
  qed
qed

text \<open>
  C2. For a batch of \<open>n\<close> sequences whose proposal lengths are each 0 or \<open>k\<close>, with the
  scorer's and proposer's tensors of \<open>n\<close> rows and the sampler returning one row of
  \<open>k + 1\<close> tokens per speculative sequence, \<^verbatim>\<open>_verify_tokens\<close> returns, and the accepted
  token ids it returns have their rows in the order of the input: row \<open>i\<close> is the sampler's
  row for sequence \<open>i\<close> when sequence \<open>i\<close> is speculative (the sampler's rows follow the
  order of the speculative sequences), and the row built from the scorer's token for
  sequence \<open>i\<close> when it is not.
\<close>

theorem verify_tokens_rows_in_input_order:
  assumes lens: "list_all (\<lambda>l. l = 0 \<or> l = int k) (proposal_lens proposals)"
    and n: "length (proposal_lens proposals) = n" "length sgml = n"
    and probs: "length (sc_probs scores) = n"
    and tok: "wf_tensor2 (sc_token_ids scores)" "dim0 (sc_token_ids scores) = n"
      "dim1 (sc_token_ids scores) = k + 1"
    and draft: "length (proposal_probs proposals) = n" "dim0 (proposal_token_ids proposals) = n"
    and S: "wf_tensor2 (sampler_result sampler scores proposals (spec_positions (proposal_lens proposals) n))"
      "dim0 (sampler_result sampler scores proposals (spec_positions (proposal_lens proposals) n))
         = length (spec_positions (proposal_lens proposals) n)"
      "dim1 (sampler_result sampler scores proposals (spec_positions (proposal_lens proposals) n)) = k + 1"
  shows "\<exists>acc. verify_tokens sampler sgml scores proposals k = Inr (acc, sc_logprobs scores)
      \<and> dim0 acc = n \<and> dim1 acc = k + 1 \<and> length (trows acc) = n
      \<and> (\<forall>i<n. trows acc ! i =
            (if 0 < proposal_lens proposals ! i
             then trows (sampler_result sampler scores proposals
                           (spec_positions (proposal_lens proposals) n))
                    ! length (filter (\<lambda>j. 0 < proposal_lens proposals ! j) [0..<i])
             else (trows (sc_token_ids scores) ! i ! 0) # replicate k (- 1)))"
proof -
  let ?lens = "proposal_lens proposals"
  let ?spec = "spec_positions ?lens n"
  let ?non = "non_spec_positions ?lens n"
  let ?S = "sampler_result sampler scores proposals ?spec"
  from verify_tokens_result [OF assms] obtain acc where
    r: "verify_tokens sampler sgml scores proposals k = Inr (acc, sc_logprobs scores)"
    and sh: "dim0 acc = n" "dim1 acc = k + 1" "length (trows acc) = n"
    and a: "\<forall>j<length ?spec. trows acc ! (?spec ! j) = trows ?S ! j"
    and b: "\<forall>j<length ?non. trows acc ! (?non ! j)
              = (trows (sc_token_ids scores) ! (?non ! j) ! 0) # replicate k (- 1)"
    by blast
  have rows: "\<forall>i<n. trows acc ! i =
            (if 0 < ?lens ! i
             then trows ?S ! length (filter (\<lambda>j. 0 < ?lens ! j) [0..<i])
             else (trows (sc_token_ids scores) ! i ! 0) # replicate k (- 1))"
  proof (intro allI impI)
    fix i assume i: "i < n"
    show "trows acc ! i =
            (if 0 < ?lens ! i
             then trows ?S ! length (filter (\<lambda>j. 0 < ?lens ! j) [0..<i])
             else (trows (sc_token_ids scores) ! i ! 0) # replicate k (- 1))"
    proof (cases "0 < ?lens ! i")
      case True
      from filter_upt_position [of i n "\<lambda>j. 0 < ?lens ! j", OF i True]
      have p: "length (filter (\<lambda>j. 0 < ?lens ! j) [0..<i]) < length ?spec"
        and q: "?spec ! length (filter (\<lambda>j. 0 < ?lens ! j) [0..<i]) = i"
        by (simp_all add: spec_positions_def)
      from a p have "trows acc ! (?spec ! length (filter (\<lambda>j. 0 < ?lens ! j) [0..<i]))
                = trows ?S ! length (filter (\<lambda>j. 0 < ?lens ! j) [0..<i])"
        by blast
      with q True show ?thesis by simp
    next
      case False
      with lens n(1) i have z: "?lens ! i = 0"
        by (auto simp: list_all_length)
      from filter_upt_position [of i n "\<lambda>j. ?lens ! j = 0", OF i z]
      have p: "length (filter (\<lambda>j. ?lens ! j = 0) [0..<i]) < length ?non"
        and q: "?non ! length (filter (\<lambda>j. ?lens ! j = 0) [0..<i]) = i"
        by (simp_all add: non_spec_positions_def)
      from b p have "trows acc ! (?non ! length (filter (\<lambda>j. ?lens ! j = 0) [0..<i]))
              = (trows (sc_token_ids scores) ! (?non ! length (filter (\<lambda>j. ?lens ! j = 0) [0..<i])) ! 0)
                  # replicate k (- 1)"
        by blast
      with q False show ?thesis by simp
    qed
  qed
  from r sh rows show ?thesis by blast
qed

lemma interleaved_positions:
  "spec_positions (proposal_lens interleaved_proposals) 3 = [0, 2]"
  "non_spec_positions (proposal_lens interleaved_proposals) 3 = [1]"
  by (simp_all add: spec_positions_def non_spec_positions_def interleaved_proposals_def
        upt_conv_Cons)

lemma interleaved_sampler_result:
  "sampler_result example_sampler interleaved_scores interleaved_proposals [0, 2]
     = \<lparr>dim0 = 2, dim1 = 3, trows = [[21, 22, 23], [31, 32, 33]]\<rparr>"
  by (simp add: sampler_result_def example_sampler_def interleaved_scores_def
        interleaved_proposals_def last_column_def)

theorem verify_tokens_rows_in_input_order_witness:
  "\<exists>acc. verify_tokens example_sampler example_batch interleaved_scores interleaved_proposals 2
            = Inr (acc, sc_logprobs interleaved_scores)
       \<and> trows acc ! 0 = [21, 22, 23] \<and> trows acc ! 1 = [5, - 1, - 1]
       \<and> trows acc ! 2 = [31, 32, 33]"
proof -
  have h: "list_all (\<lambda>l. l = 0 \<or> l = int 2) (proposal_lens interleaved_proposals)"
    "length (proposal_lens interleaved_proposals) = 3" "length example_batch = 3"
    "length (sc_probs interleaved_scores) = 3"
    "wf_tensor2 (sc_token_ids interleaved_scores)" "dim0 (sc_token_ids interleaved_scores) = 3"
    "dim1 (sc_token_ids interleaved_scores) = 2 + 1"
    "length (proposal_probs interleaved_proposals) = 3"
    "dim0 (proposal_token_ids interleaved_proposals) = 3"
    by (simp_all add: interleaved_proposals_def interleaved_scores_def example_batch_def
          wf_tensor2_def)
  have s: "wf_tensor2 (sampler_result example_sampler interleaved_scores interleaved_proposals
                (spec_positions (proposal_lens interleaved_proposals) 3))"
    "dim0 (sampler_result example_sampler interleaved_scores interleaved_proposals
                (spec_positions (proposal_lens interleaved_proposals) 3))
       = length (spec_positions (proposal_lens interleaved_proposals) 3)"
    "dim1 (sampler_result example_sampler interleaved_scores interleaved_proposals
                (spec_positions (proposal_lens interleaved_proposals) 3)) = 2 + 1"
    by (simp_all add: interleaved_positions interleaved_sampler_result wf_tensor2_def)
  from verify_tokens_rows_in_input_order [OF h s] obtain acc where
    r: "verify_tokens example_sampler example_batch interleaved_scores interleaved_proposals 2
            = Inr (acc, sc_logprobs interleaved_scores)"
    and rows: "\<forall>i<3. trows acc ! i =
            (if 0 < proposal_lens interleaved_proposals ! i
             then trows (sampler_result example_sampler interleaved_scores interleaved_proposals
                           (spec_positions (proposal_lens interleaved_proposals) 3))
                    ! length (filter (\<lambda>j. 0 < proposal_lens interleaved_proposals ! j) [0..<i])
             else (trows (sc_token_ids interleaved_scores) ! i ! 0) # replicate 2 (- 1))"
    by blast
  have 0: "trows acc ! 0 = [21, 22, 23]"
    using rows [rule_format, of 0]
    by (simp add: interleaved_positions interleaved_sampler_result)
       (simp add: interleaved_proposals_def)
  have 1: "trows acc ! 1 = [5, - 1, - 1]"
    using rows [rule_format, of 1]
    by (simp add: interleaved_proposals_def interleaved_scores_def numeral_2_eq_2)
  have 2: "trows acc ! 2 = [31, 32, 33]"
    using rows [rule_format, of 2]
    by (simp add: interleaved_positions interleaved_sampler_result)
       (simp add: interleaved_proposals_def upt_conv_Cons)
  from r 0 1 2 show ?thesis by blast
qed

text \<open>
  C3. Under the same conditions, the tensor \<^verbatim>\<open>_verify_tokens\<close> builds before reordering
  has the sampler's rows first and the rows of the non-speculative sequences after them;
  and in the result every non-speculative sequence (proposal length 0) has a row of width
  \<open>k + 1\<close> whose column 0 is the scorer's token id for that sequence at position 0 and
  whose columns 1 to \<open>k\<close> are all \<open>-1\<close>.
\<close>

theorem non_speculative_rows_padded:
  assumes lens: "list_all (\<lambda>l. l = 0 \<or> l = int k) (proposal_lens proposals)"
    and n: "length (proposal_lens proposals) = n" "length sgml = n"
    and probs: "length (sc_probs scores) = n"
    and tok: "wf_tensor2 (sc_token_ids scores)" "dim0 (sc_token_ids scores) = n"
      "dim1 (sc_token_ids scores) = k + 1"
    and draft: "length (proposal_probs proposals) = n" "dim0 (proposal_token_ids proposals) = n"
    and S: "wf_tensor2 (sampler_result sampler scores proposals (spec_positions (proposal_lens proposals) n))"
      "dim0 (sampler_result sampler scores proposals (spec_positions (proposal_lens proposals) n))
         = length (spec_positions (proposal_lens proposals) n)"
      "dim1 (sampler_result sampler scores proposals (spec_positions (proposal_lens proposals) n)) = k + 1"
  shows "\<exists>cat acc.
      accepted_before_reorder sampler (spec_positions (proposal_lens proposals) n)
          (non_spec_positions (proposal_lens proposals) n) scores proposals k = Inr cat
      \<and> dim1 cat = k + 1
      \<and> take (length (spec_positions (proposal_lens proposals) n)) (trows cat)
          = trows (sampler_result sampler scores proposals
                     (spec_positions (proposal_lens proposals) n))
      \<and> drop (length (spec_positions (proposal_lens proposals) n)) (trows cat)
          = map (\<lambda>i. trows acc ! i) (non_spec_positions (proposal_lens proposals) n)
      \<and> verify_tokens sampler sgml scores proposals k = Inr (acc, sc_logprobs scores)
      \<and> (\<forall>i<n. proposal_lens proposals ! i = 0 \<longrightarrow>
              length (trows acc ! i) = k + 1
            \<and> trows acc ! i ! 0 = trows (sc_token_ids scores) ! i ! 0
            \<and> (\<forall>c. 1 \<le> c \<and> c \<le> k \<longrightarrow> trows acc ! i ! c = - 1))"
proof -
  let ?lens = "proposal_lens proposals"
  let ?spec = "spec_positions ?lens n"
  let ?non = "non_spec_positions ?lens n"
  let ?S = "sampler_result sampler scores proposals ?spec"
  let ?row = "\<lambda>i. (trows (sc_token_ids scores) ! i ! 0) # replicate k (- 1)"
  let ?cat = "\<lparr>dim0 = dim0 ?S + length ?non, dim1 = k + 1, trows = trows ?S @ map ?row ?non\<rparr>"
  have cat: "accepted_before_reorder sampler ?spec ?non scores proposals k = Inr ?cat"
    by (rule accepted_before_reorder_result [OF positions_bounded probs tok draft S(3)])
  from verify_tokens_result [OF assms] obtain acc where
    r: "verify_tokens sampler sgml scores proposals k = Inr (acc, sc_logprobs scores)"
    and b: "\<forall>j<length ?non. trows acc ! (?non ! j) = ?row (?non ! j)"
    by blast
  have lenS: "length (trows ?S) = length ?spec"
    using S(1,2) by (simp add: wf_tensor2_def)
  have tk: "take (length ?spec) (trows ?cat) = trows ?S"
    using lenS by simp
  have "map ?row ?non = map (\<lambda>i. trows acc ! i) ?non"
    using b by (simp add: list_eq_iff_nth_eq)
  then have dr: "drop (length ?spec) (trows ?cat) = map (\<lambda>i. trows acc ! i) ?non"
    using lenS by simp
  have rows: "\<forall>i<n. ?lens ! i = 0 \<longrightarrow>
              length (trows acc ! i) = k + 1
            \<and> trows acc ! i ! 0 = trows (sc_token_ids scores) ! i ! 0
            \<and> (\<forall>c. 1 \<le> c \<and> c \<le> k \<longrightarrow> trows acc ! i ! c = - 1)"
  proof (intro allI impI)
    fix i assume i: "i < n" and z: "?lens ! i = 0"
    from filter_upt_position [of i n "\<lambda>j. ?lens ! j = 0", OF i z]
    have p: "length (filter (\<lambda>j. ?lens ! j = 0) [0..<i]) < length ?non"
      and q: "?non ! length (filter (\<lambda>j. ?lens ! j = 0) [0..<i]) = i"
      by (simp_all add: non_spec_positions_def)
    from b p have "trows acc ! (?non ! length (filter (\<lambda>j. ?lens ! j = 0) [0..<i]))
              = ?row (?non ! length (filter (\<lambda>j. ?lens ! j = 0) [0..<i]))"
      by blast
    then have row: "trows acc ! i = ?row i" unfolding q .
    show "length (trows acc ! i) = k + 1
            \<and> trows acc ! i ! 0 = trows (sc_token_ids scores) ! i ! 0
            \<and> (\<forall>c. 1 \<le> c \<and> c \<le> k \<longrightarrow> trows acc ! i ! c = - 1)"
      unfolding row by (auto simp: nth_Cons split: nat.splits)
  qed
  have d1: "dim1 ?cat = k + 1" by simp
  show ?thesis
    using cat d1 tk dr r rows by blast
qed

lemma example_positions:
  "spec_positions (proposal_lens example_proposals) 3 = [1, 2]"
  "non_spec_positions (proposal_lens example_proposals) 3 = [0]"
  by (simp_all add: spec_positions_def non_spec_positions_def example_proposals_def
        upt_conv_Cons)

lemma example_sampler_result:
  "sampler_result example_sampler example_scores example_proposals
       (spec_positions (proposal_lens example_proposals) 3)
     = \<lparr>dim0 = 2, dim1 = 3, trows = [[21, 22, 23], [31, 32, 33]]\<rparr>"
  unfolding example_positions
  by (simp add: sampler_result_def example_sampler_def example_scores_def
        example_proposals_def last_column_def)

theorem non_speculative_rows_padded_witness:
  "\<exists>cat acc.
      accepted_before_reorder example_sampler [1, 2] [0] example_scores example_proposals 2 = Inr cat
      \<and> trows cat = [[21, 22, 23], [31, 32, 33], trows acc ! 0]
      \<and> verify_tokens example_sampler example_batch example_scores example_proposals 2
            = Inr (acc, sc_logprobs example_scores)
      \<and> length (trows acc ! 0) = 3 \<and> trows acc ! 0 ! 0 = 5
      \<and> trows acc ! 0 ! 1 = - 1 \<and> trows acc ! 0 ! 2 = - 1"
proof -
  have h: "list_all (\<lambda>l. l = 0 \<or> l = int 2) (proposal_lens example_proposals)"
    "length (proposal_lens example_proposals) = 3" "length example_batch = 3"
    "length (sc_probs example_scores) = 3"
    "wf_tensor2 (sc_token_ids example_scores)" "dim0 (sc_token_ids example_scores) = 3"
    "dim1 (sc_token_ids example_scores) = 2 + 1"
    "length (proposal_probs example_proposals) = 3"
    "dim0 (proposal_token_ids example_proposals) = 3"
    by (simp_all add: example_proposals_def example_scores_def example_batch_def
          wf_tensor2_def)
  have s: "wf_tensor2 (sampler_result example_sampler example_scores example_proposals
                (spec_positions (proposal_lens example_proposals) 3))"
    "dim0 (sampler_result example_sampler example_scores example_proposals
                (spec_positions (proposal_lens example_proposals) 3))
       = length (spec_positions (proposal_lens example_proposals) 3)"
    "dim1 (sampler_result example_sampler example_scores example_proposals
                (spec_positions (proposal_lens example_proposals) 3)) = 2 + 1"
    unfolding example_sampler_result by (simp_all add: example_positions wf_tensor2_def)
  from non_speculative_rows_padded [OF h s] obtain cat acc where
    c: "accepted_before_reorder example_sampler (spec_positions (proposal_lens example_proposals) 3)
          (non_spec_positions (proposal_lens example_proposals) 3)
          example_scores example_proposals 2 = Inr cat"
    and tk: "take (length (spec_positions (proposal_lens example_proposals) 3)) (trows cat)
          = trows (sampler_result example_sampler example_scores example_proposals
                     (spec_positions (proposal_lens example_proposals) 3))"
    and dr: "drop (length (spec_positions (proposal_lens example_proposals) 3)) (trows cat)
          = map (\<lambda>i. trows acc ! i) (non_spec_positions (proposal_lens example_proposals) 3)"
    and r: "verify_tokens example_sampler example_batch example_scores example_proposals 2
            = Inr (acc, sc_logprobs example_scores)"
    and rows: "\<forall>i<3. proposal_lens example_proposals ! i = 0 \<longrightarrow>
              length (trows acc ! i) = 2 + 1
            \<and> trows acc ! i ! 0 = trows (sc_token_ids example_scores) ! i ! 0
            \<and> (\<forall>c. 1 \<le> c \<and> c \<le> 2 \<longrightarrow> trows acc ! i ! c = - 1)"
    by blast
  have tk': "take 2 (trows cat) = [[21, 22, 23], [31, 32, 33]]"
    using tk unfolding example_sampler_result by (simp add: example_positions numeral_2_eq_2)
  have dr': "drop 2 (trows cat) = [trows acc ! 0]"
    using dr by (simp add: example_positions numeral_2_eq_2)
  have t: "trows cat = [[21, 22, 23], [31, 32, 33], trows acc ! 0]"
    using append_take_drop_id [of 2 "trows cat"] unfolding tk' dr' by simp
  from rows [rule_format, of 0] have
    l: "length (trows acc ! 0) = 3" and z: "trows acc ! 0 ! 0 = 5"
    and m: "\<forall>c. 1 \<le> c \<and> c \<le> 2 \<longrightarrow> trows acc ! 0 ! c = - 1"
    by (simp_all add: example_proposals_def example_scores_def)
  from m [rule_format, of 1] have m1: "trows acc ! 0 ! 1 = - 1" by simp
  from m [rule_format, of 2] have m2: "trows acc ! 0 ! 2 = - 1" by simp
  from c t r l z m1 m2 show ?thesis
    unfolding example_positions by blast
qed

section \<open>Properties: splitting the cache blocks\<close>

text \<open>
  Dividing by \<open>N\<close> a quotient that was rounded at the scale \<open>1 / N\<close> gives the floor of the
  unscaled quotient, provided the scale is fine enough for the divisor.
\<close>

lemma int_div_lower: fixes a b :: int shows "0 < b \<Longrightarrow> a div b * b \<le> a"
  using div_mult_mod_eq [of a b] pos_mod_sign [of b a] by linarith

lemma int_div_upper: fixes a b :: int shows "0 < b \<Longrightarrow> a < a div b * b + b"
  using div_mult_mod_eq [of a b] pos_mod_bound [of b a] by linarith

lemma le_int_divI:
  fixes k b x :: int
  assumes "0 < b" "k * b \<le> x"
  shows "k \<le> x div b"
proof (rule ccontr)
  assume "\<not> k \<le> x div b"
  then have "x div b + 1 \<le> k" by simp
  then have "(x div b + 1) * b \<le> k * b" using assms(1) by (simp add: mult_right_mono)
  then have "x div b * b + b \<le> k * b" by (simp add: algebra_simps)
  with int_div_upper [OF assms(1), of x] assms(2) show False by linarith
qed

lemma int_div_lessI:
  fixes k b x :: int
  assumes "0 < b" "x < k * b"
  shows "x div b < k"
proof (rule ccontr)
  assume "\<not> x div b < k"
  then have "k \<le> x div b" by simp
  then have "k * b \<le> x div b * b" using assms(1) by (simp add: mult_right_mono)
  with int_div_lower [OF assms(1), of x] assms(2) show False by linarith
qed

lemma round_half_even_cases:
  "round_half_even x y = x div y \<or> (round_half_even x y = x div y + 1 \<and> y \<le> 2 * (x mod y))"
  by (auto simp: round_half_even_def Let_def)

lemma rounded_quotient_div:
  fixes a b N :: int
  assumes a: "0 \<le> a" and b: "0 < b" and N: "0 < N"
    and big: "1 \<le> a div b \<longrightarrow> b < 2 * N"
    and small: "a div b = 0 \<longrightarrow> a + 1 < 2 * N"
  shows "round_half_even (a * N) b div N = a div b"
proof -
  define q where "q = a div b"
  define r where "r = a mod b"
  define x where "x = a * N"
  define m where "m = round_half_even x b"
  have ab: "a = q * b + r" by (simp add: q_def r_def)
  have r: "0 \<le> r" "r < b" using b by (simp_all add: r_def)
  have q0: "0 \<le> q" using a b by (simp add: q_def pos_imp_zdiv_nonneg_iff)
  have xx: "x = x div b * b + x mod b" by simp
  have xm: "0 \<le> x mod b" "x mod b < b" using b by simp_all
  have "q * N * b \<le> x"
  proof -
    have "q * b \<le> a" using ab r by simp
    then have "q * b * N \<le> a * N" using N by (simp add: mult_right_mono)
    then show ?thesis by (simp add: x_def algebra_simps)
  qed
  then have lo: "q * N \<le> x div b" using b by (rule le_int_divI [rotated])
  have "x < (q + 1) * N * b"
  proof -
    have "a < (q + 1) * b" using ab r by (simp add: algebra_simps)
    then have "a * N < (q + 1) * b * N" using N by simp
    then show ?thesis by (simp add: x_def algebra_simps)
  qed
  then have hi: "x div b < (q + 1) * N" using b by (rule int_div_lessI [rotated])
  have m_lo: "q * N \<le> m"
    using round_half_even_cases [of x b] lo unfolding m_def by linarith
  have m_hi: "m < (q + 1) * N"
  proof (rule ccontr)
    assume "\<not> m < (q + 1) * N"
    with round_half_even_cases [of x b] hi
    have e: "x div b = (q + 1) * N - 1" and up: "b \<le> 2 * (x mod b)"
      unfolding m_def by linarith+
    have "x = ((q + 1) * N - 1) * b + x mod b" using xx e by simp
    then have "2 * x = 2 * ((q + 1) * N * b) - 2 * b + 2 * (x mod b)"
      by (simp add: algebra_simps)
    with up have "2 * ((q + 1) * N * b) - b \<le> 2 * x" by linarith
    moreover have "2 * x = 2 * (q * N * b) + 2 * (r * N)"
      by (simp add: x_def ab algebra_simps)
    moreover have "2 * ((q + 1) * N * b) = 2 * (q * N * b) + 2 * (N * b)"
      by (simp add: algebra_simps)
    ultimately have key: "2 * (N * b) - b \<le> 2 * (r * N)" by linarith
    have t: "1 \<le> b - r" using r by simp
    have key2: "2 * (N * (b - r)) \<le> b" using key by (simp add: algebra_simps)
    show False
    proof (cases "1 \<le> q")
      case True
      with big have "b < 2 * N" by (simp add: q_def)
      moreover have "N * 1 \<le> N * (b - r)" using t N by (intro mult_left_mono) simp_all
      ultimately show False using key2 by linarith
    next
      case False
      with q0 have z: "q = 0" by simp
      with small have s: "a + 1 < 2 * N" by (simp add: q_def)
      from z ab have ra: "r = a" by simp
      have "2 * (N * (b - a)) \<le> b" using key2 ra by simp
      then have "2 * N * (b - a) \<le> (b - a) + a" by (simp add: algebra_simps)
      moreover have "(a + 2) * (b - a) \<le> 2 * N * (b - a)"
        using s t ra by (intro mult_right_mono) simp_all
      ultimately have "(a + 2) * (b - a) \<le> (b - a) + a" by linarith
      then have "(a + 1) * (b - a) \<le> a" by (simp add: algebra_simps)
      moreover have "(a + 1) * 1 \<le> (a + 1) * (b - a)"
        using t ra a by (intro mult_left_mono) simp_all
      ultimately show False by simp
    qed
  qed
  have "q \<le> m div N" using m_lo N by (rule le_int_divI [rotated])
  moreover have "m div N < q + 1" using m_hi N by (rule int_div_lessI [rotated])
  ultimately have "m div N = q" by simp
  then show ?thesis by (simp add: m_def x_def q_def)
qed


text \<open>
  The bit length of a positive \<open>n\<close> is the \<open>k + 1\<close> with \<open>2\<^sup>k \<le> n < 2\<^sup>k\<^sup>+\<^sup>1\<close>, and the exponent the
  division starts from is not above the quotient.
\<close>

lemma bit_length_nonpos: "n \<le> 0 \<Longrightarrow> bit_length n = 0"
  by (subst bit_length.simps) (simp del: bit_length.simps)

lemma bit_length_pos: "0 < n \<Longrightarrow> bit_length n = Suc (bit_length (n div 2))"
  by (subst bit_length.simps) (simp del: bit_length.simps)

lemma bit_length_bounds:
  "0 < n \<Longrightarrow> \<exists>k. bit_length n = Suc k \<and> 2 ^ k \<le> n \<and> n < 2 ^ Suc k"
proof (induction n rule: bit_length.induct)
  case (1 n)
  have half: "2 * (n div 2) \<le> n" "n < 2 * (n div 2) + 2" by presburger+
  show ?case
  proof (cases "n div 2 = 0")
    case True
    with "1.prems" have n: "n = 1" by presburger
    have "bit_length n = Suc 0"
      using bit_length_pos [OF "1.prems"] True bit_length_nonpos [of 0]
      by (simp del: bit_length.simps)
    with n show ?thesis by (simp del: bit_length.simps)
  next
    case False
    with "1.prems" have pos: "0 < n div 2" by presburger
    from "1.prems" have "\<not> n \<le> 0" by simp
    from "1.IH" [OF this pos] obtain k where
      k: "bit_length (n div 2) = Suc k" "2 ^ k \<le> n div 2" "n div 2 < 2 ^ Suc k"
      by blast
    have "bit_length n = Suc (Suc k)"
      using bit_length_pos [OF "1.prems"] k(1) by (simp del: bit_length.simps)
    moreover have "2 ^ Suc k \<le> n" using k(2) half(1) by simp
    moreover have "n < 2 ^ Suc (Suc k)" using k(3) half(2) by simp
    ultimately show ?thesis by blast
  qed
qed

lemma floor_log2_quotient_lower:
  assumes "0 < a" "0 < b"
  shows "pow2_le_quotient (floor_log2_quotient a b) a b"
proof -
  from bit_length_bounds [OF assms(1)] obtain ka where
    ka: "bit_length a = Suc ka" "2 ^ ka \<le> a" "a < 2 ^ Suc ka" by blast
  from bit_length_bounds [OF assms(2)] obtain kb where
    kb: "bit_length b = Suc kb" "2 ^ kb \<le> b" "b < 2 ^ Suc kb" by blast
  define d where "d = int ka - int kb"
  have fl: "floor_log2_quotient a b = (if pow2_le_quotient d a b then d else d - 1)"
    unfolding floor_log2_quotient_def Let_def ka(1) kb(1) d_def
    by (simp del: bit_length.simps)
  show ?thesis
  proof (cases "pow2_le_quotient d a b")
    case True
    then show ?thesis unfolding fl by (simp del: bit_length.simps)
  next
    case False
    have "pow2_le_quotient (d - 1) a b"
    proof (cases "0 \<le> d - 1")
      case True
      then have n: "nat (d - 1) = ka - Suc kb" and le: "Suc kb \<le> ka"
        unfolding d_def by linarith+
      have "b * 2 ^ (ka - Suc kb) \<le> 2 ^ Suc kb * 2 ^ (ka - Suc kb)"
        using kb(3) by (intro mult_right_mono) (simp_all del: bit_length.simps)
      also have "\<dots> = (2 :: int) ^ (Suc kb + (ka - Suc kb))"
        by (simp only: power_add)
      also have "Suc kb + (ka - Suc kb) = ka" using le by linarith
      finally have "b * 2 ^ (ka - Suc kb) \<le> a" using ka(2) by linarith
      then show ?thesis
        unfolding pow2_le_quotient_def n using True by (simp del: bit_length.simps)
    next
      case False
      then have n: "nat (- (d - 1)) = Suc kb - ka" and le: "ka \<le> kb"
        unfolding d_def by linarith+
      have "(2 :: int) ^ Suc kb = 2 ^ (ka + (Suc kb - ka))"
        using le by (simp del: bit_length.simps)
      also have "\<dots> = (2 :: int) ^ ka * 2 ^ (Suc kb - ka)"
        by (simp only: power_add)
      also have "\<dots> \<le> a * 2 ^ (Suc kb - ka)"
        using ka(2) by (intro mult_right_mono) (simp_all del: bit_length.simps)
      finally have "b \<le> a * 2 ^ (Suc kb - ka)" using kb(3) by linarith
      then show ?thesis
        unfolding pow2_le_quotient_def n using False by (simp del: bit_length.simps)
    qed
    with False show ?thesis unfolding fl by (simp del: bit_length.simps)
  qed
qed


text \<open>
  As long as the product \<open>T \<cdot> S\<close> is below \<open>2\<^sup>5\<^sup>3\<close> the rounding of the division does not reach
  the integer part: for positive block sizes the code returns the floor of the quotient.
\<close>

lemma py_true_divide_small:
  assumes a: "0 < a" and b: "2 \<le> b" and lt: "a < 2 ^ 53"
  shows "\<exists>m e. py_true_divide a b = Inr (False, m, e) \<and> e < 0 \<and> m div 2 ^ nat (- e) = a div b"
proof -
  define fl where "fl = floor_log2_quotient a b"
  define e where "e = max (fl - 52) (- 1074)"
  define N :: int where "N = 2 ^ nat (- e)"
  define c :: int where "c = 2 ^ 53"
  have bpos: "0 < b" using b by simp
  have P1: "pow2_le_quotient fl a b"
    unfolding fl_def using a bpos by (rule floor_log2_quotient_lower)
  have nonneg: "b * 2 ^ nat fl \<le> a" if "0 \<le> fl"
    using P1 that unfolding pow2_le_quotient_def by simp
  have one_le: "(1 :: int) \<le> 2 ^ n" for n by simp
  have fl_lt: "fl < 52"
  proof (rule ccontr)
    assume "\<not> fl < 52"
    then have ge: "52 \<le> nat fl" and "0 \<le> fl" by linarith+
    have "(2 :: int) ^ 52 \<le> 2 ^ nat fl" using ge by (rule power_increasing) simp
    then have "(2 :: int) * 2 ^ 52 \<le> b * 2 ^ nat fl"
      using b by (intro mult_mono) simp_all
    also have "\<dots> \<le> a" using nonneg \<open>0 \<le> fl\<close> by simp
    finally show False using lt by simp
  qed
  then have eneg: "e < 0" unfolding e_def by simp
  have Npos: "0 < N" unfolding N_def by simp
  have Nbig: "c \<le> N" if "53 \<le> nat (- e)"
    unfolding N_def c_def using that by (rule power_increasing) simp
  have big: "1 \<le> a div b \<longrightarrow> b < 2 * N"
  proof
    assume q: "1 \<le> a div b"
    have "1 * b \<le> a div b * b" using q bpos by (intro mult_right_mono) simp_all
    also have "\<dots> \<le> a" using bpos by (rule int_div_lower)
    finally have ba: "b \<le> a" by simp
    show "b < 2 * N"
    proof (cases "53 \<le> nat (- e)")
      case True
      from Nbig [OF True] ba lt Npos show ?thesis unfolding c_def by linarith
    next
      case False
      then have efl: "e = fl - 52" and fl0: "0 \<le> fl" unfolding e_def by linarith+
      define f where "f = nat fl"
      have f: "f \<le> 51" "fl = int f" using fl_lt fl0 unfolding f_def by linarith+
      have n: "nat (- e) = 52 - f" unfolding efl f(2) by linarith
      have "b * 2 ^ f \<le> a" using nonneg [OF fl0] unfolding f_def .
      also have "a < 2 ^ 53" by (rule lt)
      also have "(2 :: int) ^ 53 = 2 ^ (Suc (52 - f) + f)" using f(1) by simp
      also have "\<dots> = (2 :: int) ^ Suc (52 - f) * 2 ^ f" by (simp only: power_add)
      finally have "b < 2 ^ Suc (52 - f)" by simp
      then show ?thesis unfolding N_def n by simp
    qed
  qed
  have small: "a div b = 0 \<longrightarrow> a + 1 < 2 * N"
  proof
    assume q: "a div b = 0"
    have "a < a div b * b + b" using bpos by (rule int_div_upper)
    then have ab: "a < b" using q by simp
    have "fl < 0"
    proof (rule ccontr)
      assume "\<not> fl < 0"
      then have fl0: "0 \<le> fl" by simp
      have "b * 1 \<le> b * 2 ^ nat fl" using bpos one_le by (intro mult_left_mono) simp_all
      also have "\<dots> \<le> a" by (rule nonneg [OF fl0])
      finally show False using ab by simp
    qed
    then have "53 \<le> nat (- e)" unfolding e_def by linarith
    from Nbig [OF this] lt Npos show "a + 1 < 2 * N" unfolding c_def by linarith
  qed
  have m: "mantissa_at e a b = round_half_even (a * N) b"
    unfolding mantissa_at_def N_def using eneg by simp
  have "round_half_even (a * N) b div N = a div b"
    using a bpos Npos big small by (intro rounded_quotient_div) simp_all
  then have res: "mantissa_at e a b div 2 ^ nat (- e) = a div b"
    unfolding m N_def .
  have abs: "\<bar>a\<bar> = a" "\<bar>b\<bar> = b" using a bpos by simp_all
  have "py_true_divide a b = Inr (False, mantissa_at e a b, e)"
    unfolding py_true_divide_def Let_def abs e_def [symmetric] fl_def [symmetric]
    using a bpos eneg by simp
  with eneg res show ?thesis by blast
qed

lemma split_num_cache_blocks_evenly_small:
  assumes "0 < S" "0 < P" "0 \<le> T" "T * S < 2 ^ 53"
  shows "split_num_cache_blocks_evenly S P T = Inr ((T * S) div (P + S))"
proof (cases "T * S = 0")
  case True
  have "P + S \<noteq> 0" using assms(1,2) by simp
  then have "py_true_divide (T * S) (P + S) = Inr (False, 0, 0)"
    unfolding py_true_divide_def True by simp
  then show ?thesis
    unfolding split_num_cache_blocks_evenly_def
    by (simp add: err_bind_def py_int_of_float_def True)
next
  case False
  have "0 \<le> T * S" using assms(1,3) by simp
  then have pos: "0 < T * S" using False by (metis less_le)
  have b: "2 \<le> P + S" using assms(1,2) by simp
  from py_true_divide_small [OF pos b assms(4)] obtain m e where
    me: "py_true_divide (T * S) (P + S) = Inr (False, m, e)" "e < 0"
      "m div 2 ^ nat (- e) = T * S div (P + S)" by blast
  show ?thesis
    unfolding split_num_cache_blocks_evenly_def me(1)
    using me(2,3) by (simp add: err_bind_def py_int_of_float_def)
qed

text \<open>
  C5. The claim is that \<^verbatim>\<open>split_num_cache_blocks_evenly(S, P, T)\<close> is the exact floor of
  \<open>T \<cdot> S / (S + P)\<close>, so that the result \<open>n\<close> satisfies \<open>n \<cdot> (S + P) \<le> T \<cdot> S\<close>. The code gives 100
  for \<open>(100, 60, 160)\<close> and 3 for \<open>(100, 100, 7)\<close>, but it divides in floating point and
  truncates the rounded quotient: for \<open>S = P = 1\<close> and \<open>T = 2\<^sup>5\<^sup>4 + 3\<close> it returns
  \<open>9007199254740994\<close>, one more than the floor \<open>9007199254740993\<close>, and twice the result
  exceeds \<open>T \<cdot> S\<close>. The difference needs a product of at least \<open>2\<^sup>5\<^sup>3\<close>: below it the code
  returns the floor, by \<open>split_num_cache_blocks_evenly_small\<close>.
\<close>

theorem split_num_cache_blocks_evenly_rounds:
  "split_num_cache_blocks_evenly 100 60 160 = Inr 100
   \<and> split_num_cache_blocks_evenly 100 100 7 = Inr 3
   \<and> split_num_cache_blocks_evenly 1 1 (2 ^ 54 + 3) = Inr 9007199254740994
   \<and> ((2 ^ 54 + 3) * 1) div (1 + 1) = (9007199254740993 :: int)
   \<and> \<not> 9007199254740994 * (1 + 1) \<le> ((2 ^ 54 + 3) * 1 :: int)"
proof (intro conjI)
  show "split_num_cache_blocks_evenly 100 60 160 = Inr 100" by code_simp
  show "split_num_cache_blocks_evenly 100 100 7 = Inr 3" by code_simp
  show "split_num_cache_blocks_evenly 1 1 (2 ^ 54 + 3) = Inr 9007199254740994" by code_simp
  show "((2 ^ 54 + 3) * 1) div (1 + 1) = (9007199254740993 :: int)" by simp
  show "\<not> 9007199254740994 * (1 + 1) \<le> ((2 ^ 54 + 3) * 1 :: int)" by simp
qed

section \<open>Properties: outputs without logprobs\<close>

lemma dummy_lists_create: "dummy_lists m (create_dummy_logprob_lists b s m)"
  by (simp add: dummy_lists_def create_dummy_logprob_lists_def list_all_iff)

lemma emitted_logprobs_Nil: "emitted_logprobs [] = []"
  by (simp add: emitted_logprobs_def)

lemma emitted_logprobs_Cons:
  "emitted_logprobs (so # outs)
     = concat (map completion_logprobs (outputs so)) @ emitted_logprobs outs"
  by (simp add: emitted_logprobs_def)

lemma emitted_logprobs_append:
  "emitted_logprobs (xs @ ys) = emitted_logprobs xs @ emitted_logprobs ys"
  by (simp add: emitted_logprobs_def)

lemma completion_logprobs_create:
  "completion_logprobs (create_sequence_group_output tok rk lp sid ti tlp pl step)
     = create_logprobs_output tok rk lp ti tlp # (case pl of None \<Rightarrow> [] | Some p \<Rightarrow> p)"
  by (simp add: completion_logprobs_def create_sequence_group_output_def)

lemma dummy_lists_logprob:
  "dummy_lists m ll \<Longrightarrow> py_index2 (accepted_token_id_logprobs_by_step ll) s i = Inr lp
     \<Longrightarrow> lp = LogProb 0"
  by (auto simp: dummy_lists_def list_all_iff dest!: py_index2_Inr)

lemma dummy_lists_topk_logprobs:
  "dummy_lists m ll \<Longrightarrow> py_index2 (topk_logprobs_by_step ll) s i = Inr tlp
     \<Longrightarrow> tlp = replicate m None"
  by (auto simp: dummy_lists_def list_all_iff dest!: py_index2_Inr)

lemma dummy_lists_topk_indices:
  "dummy_lists m ll \<Longrightarrow> py_index2 (topk_indices_by_step ll) s i = Inr ti
     \<Longrightarrow> ti = replicate m None"
  by (auto simp: dummy_lists_def list_all_iff dest!: py_index2_Inr)

lemma token_only_dummy_prompt_logprobs:
  "list_all token_only (dummy_prompt_logprobs toks)"
  by (simp add: dummy_prompt_logprobs_def token_only_def create_logprobs_output_def
        list_all_iff)

lemma sample_without_logprobsI:
  assumes "i < length sgml" "i < length (seq_ids info)" "i < length (num_logprobs_per_seq info)"
    and "seq_ids info ! i = parent_seq_id smp"
    and "if is_prompt (sgml ! i) \<and> \<not> do_sample (sgml ! i)
         then topk_padded (num_logprobs_per_seq info ! i) (so_logprobs smp)
         else topk_cut m (num_logprobs_per_seq info ! i) (so_logprobs smp)"
  shows "sample_without_logprobs m info sgml smp"
  unfolding sample_without_logprobs_def list_ex_iff using assms by (intro bexI [where x = i]) simp_all

lemma completion_cut:
  assumes "i < length sgml" "i < length (seq_ids info)" "i < length (num_logprobs_per_seq info)"
    and "\<not> (is_prompt (sgml ! i) \<and> \<not> do_sample (sgml ! i))"
    and "list_all token_only (case pl of None \<Rightarrow> [] | Some p \<Rightarrow> p)"
  shows "completion_without_logprobs m info sgml
           (create_sequence_group_output tok rk (LogProb 0) (seq_ids info ! i)
              (py_slice (replicate m None) 0 (num_logprobs_per_seq info ! i))
              (py_slice (replicate m None) 0 (num_logprobs_per_seq info ! i)) pl step)"
proof -
  let ?smp = "\<lparr>parent_seq_id = seq_ids info ! i,
               so_logprobs = create_logprobs_output tok rk (LogProb 0)
                 (py_slice (replicate m None) 0 (num_logprobs_per_seq info ! i))
                 (py_slice (replicate m None) 0 (num_logprobs_per_seq info ! i))\<rparr>"
  have "sample_without_logprobs m info sgml ?smp"
    using assms(1-4)
    by (intro sample_without_logprobsI [where i = i])
       (auto simp: topk_cut_def create_logprobs_output_def py_slice_replicate_cut)
  then show ?thesis
    using assms(5) by (simp add: completion_without_logprobs_def create_sequence_group_output_def)
qed

lemma completion_padded:
  assumes "i < length sgml" "i < length (seq_ids info)" "i < length (num_logprobs_per_seq info)"
    and "is_prompt (sgml ! i) \<and> \<not> do_sample (sgml ! i)"
    and "list_all token_only (case pl of None \<Rightarrow> [] | Some p \<Rightarrow> p)"
  shows "completion_without_logprobs m info sgml
           (create_sequence_group_output (- 1) 0 NegInf (seq_ids info ! i)
              (replicate (nat (num_logprobs_per_seq info ! i)) (Some (- 1)))
              (replicate (nat (num_logprobs_per_seq info ! i)) (Some NegInf)) pl step)"
proof -
  let ?smp = "\<lparr>parent_seq_id = seq_ids info ! i,
               so_logprobs = create_logprobs_output (- 1) 0 NegInf
                 (replicate (nat (num_logprobs_per_seq info ! i)) (Some (- 1)))
                 (replicate (nat (num_logprobs_per_seq info ! i)) (Some NegInf))\<rparr>"
  have "sample_without_logprobs m info sgml ?smp"
    using assms(1-4)
    by (intro sample_without_logprobsI [where i = i])
       (auto simp: topk_padded_def create_logprobs_output_def)
  then show ?thesis
    using assms(5) by (simp add: completion_without_logprobs_def create_sequence_group_output_def)
qed

lemma prefill_prompt_logprobs_token_only:
  "prefill_prompt_logprobs None i sg = Inr pl
     \<Longrightarrow> list_all token_only (case pl of None \<Rightarrow> [] | Some p \<Rightarrow> p)"
  by (auto simp: prefill_prompt_logprobs_def Let_def token_only_dummy_prompt_logprobs
        split: if_splits list.splits option.splits prod.splits)

lemma prefill_output_cut:
  assumes d: "dummy_lists m ll" and r: "prefill_output ll info accepted None i sg = Inr so"
    and i: "i < length sgml" "sgml ! i = sg" and p: "is_prompt sg"
  shows "list_all (completion_without_logprobs m info sgml) (outputs so)"
proof -
  let ?nl = "num_logprobs_per_seq info ! i"
  let ?sid = "seq_ids info ! i"
  from r obtain mk pl where
    il: "i < length (num_logprobs_per_seq info)" "i < length (seq_ids info)"
    and mk: "(if do_sample sg
        then err_bind (py_index2 (trows accepted) i 0) (\<lambda>tok.
             err_bind (py_index2 (accepted_token_id_ranks_by_step ll) 0 i) (\<lambda>rk.
             err_bind (py_index2 (accepted_token_id_logprobs_by_step ll) 0 i) (\<lambda>lp.
             err_bind (py_index2 (topk_indices_by_step ll) 0 i) (\<lambda>ti.
             err_bind (py_index2 (topk_logprobs_by_step ll) 0 i) (\<lambda>tlp.
               Inr (create_sequence_group_output tok rk lp ?sid
                      (py_slice ti 0 ?nl) (py_slice tlp 0 ?nl)))))))
        else Inr (create_sequence_group_output (- 1) 0 NegInf ?sid
                    (replicate (nat ?nl) (Some (- 1)))
                    (replicate (nat ?nl) (Some NegInf)))) = Inr mk"
    and pl: "prefill_prompt_logprobs None i sg = Inr pl"
    and so: "so = \<lparr>outputs = [mk pl 0], sampled_token_ids = None,
            spec_decode_worker_metrics = False\<rparr>"
    unfolding prefill_output_def err_bind_Inr_iff py_index_Inr_iff by auto
  have tail: "list_all token_only (case pl of None \<Rightarrow> [] | Some p \<Rightarrow> p)"
    using pl by (rule prefill_prompt_logprobs_token_only)
  have "completion_without_logprobs m info sgml (mk pl 0)"
  proof (cases "do_sample sg")
    case True
    with mk obtain tok rk lp ti tlp where
      lp: "py_index2 (accepted_token_id_logprobs_by_step ll) 0 i = Inr lp"
      and ti: "py_index2 (topk_indices_by_step ll) 0 i = Inr ti"
      and tlp: "py_index2 (topk_logprobs_by_step ll) 0 i = Inr tlp"
      and m: "mk = create_sequence_group_output tok rk lp ?sid (py_slice ti 0 ?nl) (py_slice tlp 0 ?nl)"
      by (auto simp: err_bind_Inr_iff)
    have v: "lp = LogProb 0" "ti = replicate m None" "tlp = replicate m None"
      using d lp ti tlp
      by (blast dest: dummy_lists_logprob dummy_lists_topk_indices dummy_lists_topk_logprobs)+
    have "\<not> (is_prompt (sgml ! i) \<and> \<not> do_sample (sgml ! i))" using True i(2) by simp
    from completion_cut [OF i(1) il(2) il(1) this tail]
    show ?thesis unfolding m v .
  next
    case False
    with mk have m: "mk = create_sequence_group_output (- 1) 0 NegInf ?sid
                    (replicate (nat ?nl) (Some (- 1))) (replicate (nat ?nl) (Some NegInf))"
      by simp
    have "is_prompt (sgml ! i) \<and> \<not> do_sample (sgml ! i)" using False p i(2) by simp
    from completion_padded [OF i(1) il(2) il(1) this tail]
    show ?thesis unfolding m .
  qed
  then show ?thesis by (simp add: so)
qed

lemma outputs_without_logprobs_Nil: "outputs_without_logprobs m info sgml []"
  by (simp add: outputs_without_logprobs_def)

lemma outputs_without_logprobs_Cons:
  "outputs_without_logprobs m info sgml (so # outs)
     \<longleftrightarrow> list_all (completion_without_logprobs m info sgml) (outputs so)
         \<and> outputs_without_logprobs m info sgml outs"
  by (simp add: outputs_without_logprobs_def)

lemma outputs_without_logprobs_append:
  "outputs_without_logprobs m info sgml (xs @ ys)
     \<longleftrightarrow> outputs_without_logprobs m info sgml xs \<and> outputs_without_logprobs m info sgml ys"
  by (simp add: outputs_without_logprobs_def)

lemma prefill_outputs_cut:
  assumes d: "dummy_lists m ll"
  shows "list_all (\<lambda>e. fst e < length sgml \<and> sgml ! fst e = snd e) es
           \<Longrightarrow> prefill_outputs ll info accepted None es = Inr outs
           \<Longrightarrow> outputs_without_logprobs m info sgml outs"
proof (induction es arbitrary: outs)
  case Nil
  then show ?case by (simp add: outputs_without_logprobs_Nil)
next
  case (Cons e es)
  obtain i sg where e: "e = (i, sg)" by (cases e)
  from Cons.prems(1) have i: "i < length sgml" "sgml ! i = sg"
    and rest: "list_all (\<lambda>e. fst e < length sgml \<and> sgml ! fst e = snd e) es"
    by (simp_all add: e)
  show ?case
  proof (cases "is_prompt sg")
    case False
    with Cons.prems(2) show ?thesis by (simp add: e outputs_without_logprobs_Nil)
  next
    case True
    with Cons.prems(2) obtain out more where
      o: "prefill_output ll info accepted None i sg = Inr out"
      and r: "prefill_outputs ll info accepted None es = Inr more"
      and outs: "outs = out # more"
      by (auto simp: e err_bind_Inr_iff)
    from prefill_output_cut [OF d o i True] Cons.IH [OF rest r]
    show ?thesis by (simp add: outs outputs_without_logprobs_Cons)
  qed
qed

lemma enumerate_positions:
  "list_all (\<lambda>e. fst e < length xs \<and> xs ! fst e = snd e) (enumerate 0 xs)"
  by (auto simp: list_all_iff in_set_enumerate_eq)

lemma decode_step_outputs_cut:
  assumes d: "dummy_lists m ll"
  shows "decode_step_outputs ll info sgml by_step step idxs = Inr outs
           \<Longrightarrow> list_all (completion_without_logprobs m info sgml) outs"
proof (induction idxs arbitrary: outs)
  case Nil
  then show ?case by simp
next
  case (Cons idx idxs)
  let ?nl = "num_logprobs_per_seq info ! idx"
  let ?sid = "seq_ids info ! idx"
  from Cons.prems have il: "idx < length sgml"
    and body: "(if is_prompt (sgml ! idx) then decode_step_outputs ll info sgml by_step step idxs
       else
         err_bind (py_index (num_logprobs_per_seq info) idx) (\<lambda>num_logprobs.
         err_bind (py_index2 by_step step idx) (\<lambda>tok.
         err_bind (py_index2 (accepted_token_id_ranks_by_step ll) step idx) (\<lambda>rk.
         err_bind (py_index2 (accepted_token_id_logprobs_by_step ll) step idx) (\<lambda>lp.
         err_bind (py_index (seq_ids info) idx) (\<lambda>sid.
         err_bind (py_index2 (topk_indices_by_step ll) step idx) (\<lambda>ti.
         err_bind (py_index2 (topk_logprobs_by_step ll) step idx) (\<lambda>tlp.
         err_bind (decode_step_outputs ll info sgml by_step step idxs) (\<lambda>outs.
           Inr (create_sequence_group_output tok rk lp sid
                  (py_slice ti 0 num_logprobs) (py_slice tlp 0 num_logprobs) None step
                # outs)))))))))) = Inr outs"
    by (auto simp: err_bind_Inr_iff py_index_Inr_iff)
  show ?case
  proof (cases "is_prompt (sgml ! idx)")
    case True
    with body Cons.IH show ?thesis by simp
  next
    case False
    with body obtain tok rk lp ti tlp rest where
      l: "idx < length (num_logprobs_per_seq info)" "idx < length (seq_ids info)"
      and lp: "py_index2 (accepted_token_id_logprobs_by_step ll) step idx = Inr lp"
      and ti: "py_index2 (topk_indices_by_step ll) step idx = Inr ti"
      and tlp: "py_index2 (topk_logprobs_by_step ll) step idx = Inr tlp"
      and r: "decode_step_outputs ll info sgml by_step step idxs = Inr rest"
      and outs: "outs = create_sequence_group_output tok rk lp ?sid
                  (py_slice ti 0 ?nl) (py_slice tlp 0 ?nl) None step # rest"
      by (auto simp: err_bind_Inr_iff py_index_Inr_iff)
    have v: "lp = LogProb 0" "ti = replicate m None" "tlp = replicate m None"
      using d lp ti tlp
      by (blast dest: dummy_lists_logprob dummy_lists_topk_indices dummy_lists_topk_logprobs)+
    have n: "\<not> (is_prompt (sgml ! idx) \<and> \<not> do_sample (sgml ! idx))" using False by simp
    have t: "list_all token_only (case None of None \<Rightarrow> [] | Some p \<Rightarrow> p)" by simp
    from completion_cut [OF il l(2) l(1) n t, of m tok rk step] Cons.IH [OF r]
    show ?thesis unfolding outs v by simp
  qed
qed

lemma decode_outputs_cut:
  assumes d: "dummy_lists m ll"
  shows "decode_outputs ll info sgml by_step batch_size steps = Inr outs
           \<Longrightarrow> outputs_without_logprobs m info sgml outs"
proof (induction steps arbitrary: outs)
  case Nil
  then show ?case by (simp add: outputs_without_logprobs_Nil)
next
  case (Cons step steps)
  from Cons.prems obtain toks where
    tk: "py_index by_step step = Inr toks" and
    body: "(if list_all (\<lambda>p. snd p = - 1) (filter (\<lambda>p. \<not> is_prompt (fst p)) (zip sgml toks))
       then Inr []
       else
         err_bind (decode_step_outputs ll info sgml by_step step [0..<batch_size]) (\<lambda>outs.
         err_bind (decode_outputs ll info sgml by_step batch_size steps) (\<lambda>more.
           Inr (\<lparr>outputs = outs, sampled_token_ids = None,
                  spec_decode_worker_metrics = False\<rparr> # more)))) = Inr outs"
    by (auto simp: err_bind_Inr_iff)
  show ?case
  proof (cases "list_all (\<lambda>p. snd p = - 1) (filter (\<lambda>p. \<not> is_prompt (fst p)) (zip sgml toks))")
    case True
    with body show ?thesis by (simp add: outputs_without_logprobs_Nil)
  next
    case False
    with body obtain cs more where
      c: "decode_step_outputs ll info sgml by_step step [0..<batch_size] = Inr cs"
      and r: "decode_outputs ll info sgml by_step batch_size steps = Inr more"
      and outs: "outs = \<lparr>outputs = cs, sampled_token_ids = None,
                  spec_decode_worker_metrics = False\<rparr> # more"
      by (auto simp: err_bind_Inr_iff)
    from decode_step_outputs_cut [OF d c] Cons.IH [OF r]
    show ?thesis by (simp add: outs outputs_without_logprobs_Cons)
  qed
qed

lemma outputs_without_logprobs_metrics:
  "outputs_without_logprobs m info sgml (out\<lparr>spec_decode_worker_metrics := True\<rparr> # outs)
     = outputs_without_logprobs m info sgml (out # outs)"
  by (simp add: outputs_without_logprobs_def)

lemma create_output_sampler_list_cut:
  assumes "disable_logprobs w"
    and "create_output_sampler_list w info metrics sgml accepted target_logprobs None
           = Inr (w', outs)"
  shows "outputs_without_logprobs (max_logprobs w) info sgml outs"
proof -
  let ?ll = "create_dummy_logprob_lists (dim0 accepted) (dim1 accepted) (max_logprobs w)"
  have d: "dummy_lists (max_logprobs w) ?ll" by (rule dummy_lists_create)
  from assms obtain prefills decodes where
    p: "prefill_outputs ?ll info accepted None (enumerate 0 sgml) = Inr prefills"
    and dc: "decode_outputs ?ll info sgml (trows (transpose01 accepted)) (dim0 accepted)
               [0..<dim1 accepted] = Inr decodes"
    and fin: "(if metrics
           then (case prefills @ decodes of
                   [] \<Rightarrow> Inl IndexError
                 | out # outs \<Rightarrow> Inr (w', out\<lparr>spec_decode_worker_metrics := True\<rparr> # outs))
           else Inr (w', prefills @ decodes)) = Inr (w', outs)
         \<or> (\<exists>w''. (if metrics
           then (case prefills @ decodes of
                   [] \<Rightarrow> Inl IndexError
                 | out # outs \<Rightarrow> Inr (w'', out\<lparr>spec_decode_worker_metrics := True\<rparr> # outs))
           else Inr (w'', prefills @ decodes)) = Inr (w', outs))"
    unfolding create_output_sampler_list_def Let_def err_bind_Inr_iff by auto
  have all: "outputs_without_logprobs (max_logprobs w) info sgml (prefills @ decodes)"
    using prefill_outputs_cut [OF d enumerate_positions p] decode_outputs_cut [OF d dc]
    by (simp add: outputs_without_logprobs_append)
  from fin have "outputs_without_logprobs (max_logprobs w) info sgml outs
                   = outputs_without_logprobs (max_logprobs w) info sgml (prefills @ decodes)"
    by (auto simp: outputs_without_logprobs_metrics split: if_splits list.splits)
  with all show ?thesis by simp
qed

lemma serialize_loop_token_only:
  "serialize_loop entries sampled oi es = Inr outs
     \<Longrightarrow> list_all token_only (concat (map completion_logprobs outs))"
proof (induction es arbitrary: oi outs)
  case Nil
  then show ?case by simp
next
  case (Cons e es)
  obtain idx sg where e: "e = (idx, sg)" by (cases e)
  have t: "token_only (create_logprobs_output tok (- 1) (LogProb 0) [] [])" for tok
    by (simp add: token_only_def create_logprobs_output_def)
  have c: "completion_logprobs \<lparr>samples = [], out_prompt_logprobs = pl, step_index = 0\<rparr>
             = (case pl of None \<Rightarrow> [] | Some p \<Rightarrow> p)" for pl
    by (simp add: completion_logprobs_def)
  from Cons.prems Cons.IH show ?case
    by (auto simp: e err_bind_Inr_iff Let_def completion_logprobs_create c
          token_only_dummy_prompt_logprobs t split: if_splits)
qed

lemma serialize_token_only:
  "serialize_sampler_output_no_logprobs ivt req so = Inr outs
     \<Longrightarrow> list_all token_only (emitted_logprobs outs)"
  by (auto simp: serialize_sampler_output_no_logprobs_def Let_def err_bind_Inr_iff
        emitted_logprobs_Cons emitted_logprobs_Nil
        split: option.splits dest: serialize_loop_token_only)

lemma run_no_spec_token_only:
  "disable_logprobs w \<Longrightarrow> snd (run_no_spec w ivt sr req skip) = Inr outs
     \<Longrightarrow> list_all token_only (emitted_logprobs outs)"
  by (auto simp: run_no_spec_def split: list.splits dest: serialize_token_only)

lemma track_finished_requests_config:
  "track_finished_requests w req = Inr w1
     \<Longrightarrow> disable_logprobs w1 = disable_logprobs w \<and> max_logprobs w1 = max_logprobs w"
  by (auto simp: track_finished_requests_def track_finished_requests_ids_eq)

lemma execute_model_cut:
  assumes dl: "disable_logprobs w"
    and ex: "snd (execute_model w env r) = Inr (w', outs)"
  shows "if rank w \<noteq> driver_rank then outs = []
         else case r of
           None \<Rightarrow> outs = []
         | Some req \<Rightarrow>
             if no_spec_step w req then list_all token_only (emitted_logprobs outs)
             else outputs_without_logprobs (max_logprobs w) (batch_helpers env)
                    (seq_group_metadata_list req) outs"
proof (cases "rank w \<noteq> driver_rank")
  case True
  with ex have "outs = []"
    by (auto simp: execute_model_def split: sum.splits prod.splits)
  with True show ?thesis by simp
next
  case False
  then have rk: "rank w = driver_rank" by simp
  show ?thesis
  proof (cases r)
    case None
    with rk ex have "outs = []" by (simp add: execute_model_def)
    with rk None show ?thesis by simp
  next
    case (Some req)
    obtain w1 where w1: "track_finished_requests w req = Inr w1"
      using track_finished_requests_total by blast
    from track_finished_requests_config [OF w1] dl
    have c: "disable_logprobs w1" "max_logprobs w1 = max_logprobs w" by simp_all
    note step = execute_model_step [OF rk ex [unfolded Some] w1]
    show ?thesis
    proof (cases "no_spec_step w req")
      case True
      with step(3) obtain req' skip where
        "snd (run_no_spec w1 (invalid_token_id env) (scorer_execute_model env) req' skip) = Inr outs"
        by blast
      from run_no_spec_token_only [OF c(1) this] rk Some True show ?thesis by simp
    next
      case False
      with step(2) have
        "snd (run_speculative_decoding_step w1 env req (num_lookahead_slots req)) = Inr (w', outs)"
        by blast
      from run_speculative_decoding_step_Inr [OF this] c(1) obtain accepted tlp where
        "create_output_sampler_list w1 (batch_helpers env) (rejsample_metrics env)
             (seq_group_metadata_list req) accepted tlp None = Inr (w', outs)"
        by auto
      from create_output_sampler_list_cut [OF c(1) this] rk Some False show ?thesis
        unfolding c(2) by simp
    qed
  qed
qed

text \<open>
  C8, as amended. When \<^verbatim>\<open>disable_logprobs\<close> is true: the lists of
  \<^verbatim>\<open>_create_dummy_logprob_lists\<close> hold the logprob \<open>0.0\<close> and top-k lists of the configured
  length \<^verbatim>\<open>max_logprobs\<close> filled with \<^verbatim>\<open>None\<close>. A step of \<^verbatim>\<open>execute_model\<close> that returns emits
  nothing on a non-driver rank or without a request; on the path without speculation it
  emits only records with logprob \<open>0.0\<close> and empty top-k lists; and on the speculative path
  every sample belongs to a sequence \<open>i\<close> of the batch and has, with \<open>n\<close> the number of
  logprobs of sequence \<open>i\<close>, either logprob \<open>0.0\<close> and top-k lists of exactly
  \<open>min (max_logprobs, n)\<close> sentinels \<^verbatim>\<open>None\<close> (the dummy lists cut to \<open>n\<close>), or, when record \<open>i\<close>
  is a prompt that does not sample, token \<open>-1\<close> with logprob \<open>-\<infinity>\<close> and top-k lists of
  exactly \<open>n\<close> pads (\<open>-1\<close> with logprob \<open>-\<infinity>\<close>); the prompt logprobs have logprob \<open>0.0\<close> and
  empty top-k lists. \<^verbatim>\<open>_serialize_sampler_output_no_logprobs\<close> emits only records with
  logprob \<open>0.0\<close> and empty top-k lists.
\<close>

theorem disabled_logprobs_outputs:
  assumes "disable_logprobs w"
  shows "(\<forall>step<s. \<forall>i<b.
            accepted_token_id_logprobs_by_step
                (create_dummy_logprob_lists b s (max_logprobs w)) ! step ! i = LogProb 0
          \<and> topk_logprobs_by_step
                (create_dummy_logprob_lists b s (max_logprobs w)) ! step ! i
              = replicate (max_logprobs w) None
          \<and> topk_indices_by_step
                (create_dummy_logprob_lists b s (max_logprobs w)) ! step ! i
              = replicate (max_logprobs w) None)
       \<and> (snd (execute_model w env r) = Inr (w', outs)
            \<longrightarrow> (if rank w \<noteq> driver_rank then outs = []
                 else case r of
                   None \<Rightarrow> outs = []
                 | Some req \<Rightarrow>
                     if no_spec_step w req then list_all token_only (emitted_logprobs outs)
                     else outputs_without_logprobs (max_logprobs w) (batch_helpers env)
                            (seq_group_metadata_list req) outs))
       \<and> (serialize_sampler_output_no_logprobs ivt req' so = Inr outs'
            \<longrightarrow> list_all token_only (emitted_logprobs outs'))"
proof (intro conjI impI allI)
  fix step i assume "step < s" "i < b"
  then show "accepted_token_id_logprobs_by_step
                (create_dummy_logprob_lists b s (max_logprobs w)) ! step ! i = LogProb 0"
    and "topk_logprobs_by_step
                (create_dummy_logprob_lists b s (max_logprobs w)) ! step ! i
              = replicate (max_logprobs w) None"
    and "topk_indices_by_step
                (create_dummy_logprob_lists b s (max_logprobs w)) ! step ! i
              = replicate (max_logprobs w) None"
    by (simp_all add: create_dummy_logprob_lists_def)
next
  assume "snd (execute_model w env r) = Inr (w', outs)"
  with assms show "if rank w \<noteq> driver_rank then outs = []
                 else case r of
                   None \<Rightarrow> outs = []
                 | Some req \<Rightarrow>
                     if no_spec_step w req then list_all token_only (emitted_logprobs outs)
                     else outputs_without_logprobs (max_logprobs w) (batch_helpers env)
                            (seq_group_metadata_list req) outs"
    by (rule execute_model_cut)
next
  assume "serialize_sampler_output_no_logprobs ivt req' so = Inr outs'"
  then show "list_all token_only (emitted_logprobs outs')"
    by (rule serialize_token_only)
qed

lemma example_step_emitted:
  "emitted_logprobs (snd (projr (snd
      (execute_model example_worker example_collaborators (Some example_request)))))
   = [create_logprobs_output 5 (- 1) (LogProb 0) [] [],
      create_logprobs_output 21 (- 1) (LogProb 0) [None, None] [None, None],
      create_logprobs_output 31 (- 1) (LogProb 0) [] [],
      create_logprobs_output 22 (- 1) (LogProb 0) [None, None] [None, None],
      create_logprobs_output 32 (- 1) (LogProb 0) [] [],
      create_logprobs_output 23 (- 1) (LogProb 0) [None, None] [None, None],
      create_logprobs_output 33 (- 1) (LogProb 0) [] []]"
  by code_simp

text \<open>
  The claim as stated fails: in the step of \<open>example_request\<close>, with \<^verbatim>\<open>disable_logprobs\<close> true
  and \<^verbatim>\<open>max_logprobs = 5\<close>, the emitted top-k lists have lengths 0 and 2.
\<close>

theorem topk_lists_shorter_than_configured:
  "disable_logprobs example_worker \<and> max_logprobs example_worker = 5
   \<and> \<not> isl (snd (execute_model example_worker example_collaborators (Some example_request)))
   \<and> \<not> list_all (topk_length_is (max_logprobs example_worker))
          (emitted_logprobs (snd (projr (snd
             (execute_model example_worker example_collaborators (Some example_request))))))"
  unfolding example_step_emitted
  using example_step_returns
  by (simp add: example_worker_def topk_length_is_def create_logprobs_output_def)

theorem disabled_logprobs_outputs_witness:
  "disable_logprobs example_worker
   \<and> rank example_worker = driver_rank
   \<and> \<not> no_spec_step example_worker example_request
   \<and> \<not> isl (snd (execute_model example_worker example_collaborators (Some example_request)))
   \<and> outputs_without_logprobs (max_logprobs example_worker) (batch_helpers example_collaborators)
        (seq_group_metadata_list example_request)
        (snd (projr (snd (execute_model example_worker example_collaborators
                            (Some example_request)))))"
proof -
  let ?r = "snd (execute_model example_worker example_collaborators (Some example_request))"
  have d: "disable_logprobs example_worker" by (simp add: example_worker_def)
  have rk: "rank example_worker = driver_rank"
    by (simp add: example_worker_def driver_rank_def)
  have n: "\<not> isl ?r" by (rule example_step_returns)
  then have e: "?r = Inr (fst (projr ?r), snd (projr ?r))"
    by (cases ?r) simp_all
  from disabled_logprobs_outputs [OF d, of _ _ example_collaborators "Some example_request"
             "fst (projr ?r)" "snd (projr ?r)"] e rk example_step_speculative
  have "outputs_without_logprobs (max_logprobs example_worker) (batch_helpers example_collaborators)
        (seq_group_metadata_list example_request) (snd (projr ?r))"
    by simp
  with d rk example_step_speculative n show ?thesis by blast
qed

end
